(* ===== verification/Prelude.thy ===== *)
theory Prelude
  imports Main "HOL-Library.Word"
begin

text \<open>
  Shared vocabulary of the development: names for the machine integers of the code, the
  64-bit floating point values of the resource contracts as their bit patterns, the
  integer-coded enumerations as an interface (a locale) with its laws, and the
  collections of rewrite rules the component theories add to.
\<close>

unbundle bit_operations_syntax

section \<open>Rule collections\<close>

text \<open>
  \<open>frame\<close>: which fields an operation leaves alone. \<open>wire\<close>: reading back what was
  written. \<open>guard_defs\<close>: the predicates that guard lifecycle operations.
\<close>

named_theorems frame \<open>fields an operation does not change\<close>
named_theorems wire \<open>reading back what a writer wrote\<close>
named_theorems guard_defs \<open>definitions of the lifecycle guards\<close>

section \<open>Machine integers\<close>

type_synonym u8 = "8 word"
type_synonym u16 = "16 word"
type_synonym u32 = "32 word"
type_synonym u64 = "64 word"
type_synonym i32 = "32 word" \<comment> \<open>read with \<open>sint\<close>\<close>

lemma unat_succ_u64: "x \<noteq> (- 1 :: u64) \<Longrightarrow> unat (x + 1) = Suc (unat x)"
proof -
  assume "x \<noteq> - 1"
  then have "x + 1 \<noteq> 0"
    by (metis add_diff_cancel diff_0)
  then show ?thesis
    using unatSuc [of x] by (simp add: add.commute)
qed

lemma unat_add_no_wrap: "unat (x :: u64) + unat y < 2 ^ 64 \<Longrightarrow> unat (x + y) = unat x + unat y"
  by (simp add: unat_word_ariths)

text \<open>The test \<open>UINT64_MAX - x < y\<close> holds exactly when \<open>x + y\<close> does not fit.\<close>

lemma unat_max_diff: "unat ((- 1 :: u64) - x) = 2 ^ 64 - 1 - unat x"
proof -
  have "x \<le> (- 1 :: u64)" by simp
  then have "unat ((- 1 :: u64) - x) = unat (- 1 :: u64) - unat x"
    by (simp add: unat_sub word_le_nat_alt)
  moreover have "unat (- 1 :: u64) = 2 ^ 64 - 1"
    by (simp add: unsigned_minus_1_eq_mask mask_eq_exp_minus_1)
  ultimately show ?thesis by simp
qed

lemma overflow_guard_iff: "((- 1 :: u64) - x < y) \<longleftrightarrow> 2 ^ 64 \<le> unat x + unat y"
proof -
  have "unat x < 2 ^ 64" using unsigned_less [of x] by simp
  then show ?thesis
    by (auto simp: word_less_nat_alt unat_max_diff)
qed

text \<open>
  Signed 32-bit addition. Overflow of an \<open>int\<close> is undefined behaviour in C++: the result is
  \<open>None\<close> there, and a theorem that the sum is defined has to bound the operands.
\<close>

definition in_i32 :: "int \<Rightarrow> bool" where
  "in_i32 i \<longleftrightarrow> - (2 ^ 31) \<le> i \<and> i < 2 ^ 31"

definition add_i32 :: "i32 \<Rightarrow> i32 \<Rightarrow> i32 option" where
  "add_i32 a b = (if in_i32 (sint a + sint b) then Some (a + b) else None)"

definition sub_i32 :: "i32 \<Rightarrow> i32 \<Rightarrow> i32 option" where
  "sub_i32 a b = (if in_i32 (sint a - sint b) then Some (a - b) else None)"

lemma sint_of_in_i32: "in_i32 i \<Longrightarrow> sint (word_of_int i :: i32) = i"
  by (simp add: in_i32_def signed_of_int signed_take_bit_int_eq_self_iff)

lemma sint_in_i32 [simp]: "in_i32 (sint (a :: i32))"
  using sint_ge [of a] sint_lt [of a] by (simp add: in_i32_def)

lemma add_i32_Some: "add_i32 a b = Some c \<longleftrightarrow> in_i32 (sint a + sint b) \<and> sint c = sint a + sint b"
proof -
  have "sint (a + b) = sint a + sint b" if "in_i32 (sint a + sint b)"
    using sint_of_in_i32 [OF that] by simp
  moreover have "a + b = c" if "sint (a + b) = sint c"
    using that by (rule signed_word_eqI)
  ultimately show ?thesis
    by (auto simp: add_i32_def)
qed

lemma sub_i32_Some: "sub_i32 a b = Some c \<longleftrightarrow> in_i32 (sint a - sint b) \<and> sint c = sint a - sint b"
proof -
  have "sint (a - b) = sint a - sint b" if "in_i32 (sint a - sint b)"
    using sint_of_in_i32 [OF that] by simp
  moreover have "a - b = c" if "sint (a - b) = sint c"
    using that by (rule signed_word_eqI)
  ultimately show ?thesis
    by (auto simp: sub_i32_def)
qed

section \<open>Bytes and characters\<close>

text \<open>A \<open>std::string\<close> is a sequence of bytes; \<open>char\<close> is Isabelle's 8-bit character.\<close>

definition byte_of_char :: "char \<Rightarrow> u8" where
  "byte_of_char c = word_of_nat (of_char c)"

definition char_of_byte :: "u8 \<Rightarrow> char" where
  "char_of_byte b = char_of (unat b)"

lemma char_of_byte_of_char [simp]: "char_of_byte (byte_of_char c) = c"
proof -
  have "(of_char c :: nat) < 256" by simp
  then have "unat (word_of_nat (of_char c) :: u8) = of_char c"
    by (simp add: unat_of_nat)
  then show ?thesis
    by (simp add: char_of_byte_def byte_of_char_def)
qed

lemma byte_of_char_of_byte [simp]: "byte_of_char (char_of_byte b) = b"
proof -
  have "unat b < 256" using unsigned_less [of b] by simp
  then show ?thesis
    by (simp add: char_of_byte_def byte_of_char_def)
qed

lemma map_char_of_byte [simp]: "map char_of_byte (map byte_of_char s) = s"
  by (simp add: comp_def)

section \<open>Searching a vector\<close>

text \<open>The loop \<open>for (auto& e : xs) if (p(e)) return &e;\<close> as the index of the element.\<close>

fun find_index :: "('a \<Rightarrow> bool) \<Rightarrow> 'a list \<Rightarrow> nat option" where
  "find_index p [] = None"
| "find_index p (x # xs) = (if p x then Some 0 else map_option Suc (find_index p xs))"

lemma find_index_update:
  assumes "k < length xs" and "p y \<longleftrightarrow> p (xs ! k)"
  shows "find_index p (xs[k := y]) = find_index p xs"
  using assms
proof (induction xs arbitrary: k)
  case (Cons x xs)
  then show ?case by (cases k) auto
qed simp

lemma find_index_None: "find_index p xs = None \<longleftrightarrow> (\<forall>x\<in>set xs. \<not> p x)"
  by (induction xs) auto

lemma find_index_Some:
  "find_index p xs = Some i \<Longrightarrow> i < length xs \<and> p (xs ! i) \<and> (\<forall>j<i. \<not> p (xs ! j))"
proof (induction xs arbitrary: i)
  case (Cons x xs)
  then show ?case by (cases i) (auto simp: nth_Cons split: if_splits nat.splits)
qed simp

lemma find_index_less: "find_index p xs = Some i \<Longrightarrow> i < length xs"
  by (simp add: find_index_Some)

section \<open>Floating point values\<close>

text \<open>
  A \<open>double\<close> is its IEEE-754 binary64 bit pattern (\<open>memcpy\<close> to and from a
  \<open>uint64_t\<close> in the codec is then the identity). The code only compares doubles and asks
  whether they are finite. Comparison is that of the IEEE standard: false when either side is
  a NaN, and otherwise that of the magnitudes with their signs, the two zeros being equal.
\<close>

datatype f64 = F64 (f64_bits: u64)

definition f64_zero :: f64 where
  "f64_zero = F64 0"

definition f64_exponent :: "f64 \<Rightarrow> u64" where
  "f64_exponent x = drop_bit 52 (f64_bits x) AND 0x7FF"

definition f64_fraction :: "f64 \<Rightarrow> u64" where
  "f64_fraction x = f64_bits x AND 0xFFFFFFFFFFFFF"

definition f64_isnan :: "f64 \<Rightarrow> bool" where
  "f64_isnan x \<longleftrightarrow> f64_exponent x = 0x7FF \<and> f64_fraction x \<noteq> 0"

definition f64_isfinite :: "f64 \<Rightarrow> bool" where
  "f64_isfinite x \<longleftrightarrow> f64_exponent x \<noteq> 0x7FF"

definition f64_key :: "f64 \<Rightarrow> int" where
  "f64_key x = (let m = uint (f64_bits x AND 0x7FFFFFFFFFFFFFFF)
                in if bit (f64_bits x) 63 then - m else m)"

definition f64_less :: "f64 \<Rightarrow> f64 \<Rightarrow> bool" where
  "f64_less x y \<longleftrightarrow> \<not> f64_isnan x \<and> \<not> f64_isnan y \<and> f64_key x < f64_key y"

definition f64_eq :: "f64 \<Rightarrow> f64 \<Rightarrow> bool" where
  "f64_eq x y \<longleftrightarrow> \<not> f64_isnan x \<and> \<not> f64_isnan y \<and> f64_key x = f64_key y"

lemma f64_less_irrefl [simp]: "\<not> f64_less x x"
  by (simp add: f64_less_def)

lemma f64_less_trans: "f64_less x y \<Longrightarrow> f64_less y z \<Longrightarrow> f64_less x z"
  by (auto simp: f64_less_def)

lemma f64_less_asym: "f64_less x y \<Longrightarrow> \<not> f64_less y x"
  by (auto simp: f64_less_def)

lemma f64_zero_facts [simp]:
  "\<not> f64_isnan f64_zero" "f64_isfinite f64_zero" "f64_key f64_zero = 0"
  by (simp_all add: f64_zero_def f64_isnan_def f64_isfinite_def f64_exponent_def f64_key_def Let_def)

lemma f64_isnan_imp_not_finite: "f64_isnan x \<Longrightarrow> \<not> f64_isfinite x"
  by (simp add: f64_isnan_def f64_isfinite_def)

lemma f64_eq_zero_not_pos: "f64_eq x f64_zero \<Longrightarrow> \<not> f64_less f64_zero x"
  by (simp add: f64_eq_def f64_less_def)

section \<open>Enumerations with integer codes\<close>

text \<open>
  Every \<open>enum class E : std::uint8_t\<close> of the code is a datatype with a function from its
  enumerators to their codes. The codec, the name tables and the range checks rely on four
  facts only: the codes are \<open>0, 1, 2, \<dots>\<close> in declaration order, the list of enumerators is
  complete, and every code fits the underlying byte.
\<close>

locale wire_enum =
  fixes enumerators :: "'a list" and code :: "'a \<Rightarrow> nat"
  assumes codes: "map code enumerators = [0..<length enumerators]"
    and complete: "x \<in> set enumerators"
    and fits_byte: "length enumerators \<le> 256"
begin

lemma code_nth: "i < length enumerators \<Longrightarrow> code (enumerators ! i) = i"
  using arg_cong [OF codes, of "\<lambda>xs. xs ! i"] by simp

lemma code_less: "code x < length enumerators"
proof -
  obtain i where "i < length enumerators" "x = enumerators ! i"
    using complete [of x] by (auto simp: in_set_conv_nth)
  then show ?thesis by (simp add: code_nth)
qed

lemma nth_code: "enumerators ! code x = x"
proof -
  obtain i where "i < length enumerators" "x = enumerators ! i"
    using complete [of x] by (auto simp: in_set_conv_nth)
  then show ?thesis by (simp add: code_nth)
qed

lemma code_inject: "code x = code y \<longleftrightarrow> x = y"
  by (metis nth_code)

lemma code_byte: "unat (word_of_nat (code x) :: u8) = code x"
proof -
  have "code x < 256" using code_less [of x] fits_byte by simp
  then show ?thesis by (simp add: unat_of_nat)
qed

end

locale named_enum = wire_enum +
  fixes names :: "string list"
  assumes names_length: "length names = length enumerators"
    and names_distinct: "distinct names"
begin

lemma code_named: "code x < length names"
  by (simp add: names_length code_less)

lemma name_inject: "names ! code x = names ! code y \<longleftrightarrow> x = y"
  using names_distinct code_named [of x] code_named [of y]
  by (simp add: nth_eq_iff_index_eq code_inject)

lemma name_known: "s \<in> set names \<Longrightarrow> \<exists>x. names ! code x = s"
  by (metis in_set_conv_nth names_length code_nth)

end

text \<open>The lookup in a name table, with the fallback of the code.\<close>

definition name_of :: "string list \<Rightarrow> nat \<Rightarrow> string" where
  "name_of names i = (if i \<ge> length names then ''INVALID'' else names ! i)"

end
