(* ===== verification/Identity.thy ===== *)
theory Identity
  imports Prelude
begin

text \<open>
  The identity domain (\<open>identity.hpp\<close>, \<open>detail/strong_id.hpp\<close>): a 64-bit value tagged
  with its domain, so that identities of different domains are values of different types, and
  generations with their successor. Zero is the invalid value of every domain.
\<close>

section \<open>Tagged values\<close>

datatype 'tag unique_value = UniqueValue (toU64: u64)

definition fromU64 :: "u64 \<Rightarrow> 'tag unique_value" where
  "fromU64 v = UniqueValue v"

definition valid :: "'tag unique_value \<Rightarrow> bool" where
  "valid x \<longleftrightarrow> toU64 x \<noteq> 0"

definition previous :: "'tag unique_value \<Rightarrow> 'tag unique_value" where
  "previous x = UniqueValue (toU64 x - 1)"

definition no_value :: "'tag unique_value" where
  "no_value = UniqueValue 0"

definition next_gen :: "'tag unique_value \<Rightarrow> 'tag unique_value" where
  "next_gen g = fromU64 (toU64 g + 1)"

text \<open>The three-way comparison orders the values of one domain; \<open>std::map\<close> relies on it.\<close>

instantiation unique_value :: (type) linorder
begin

definition less_eq_unique_value :: "'a unique_value \<Rightarrow> 'a unique_value \<Rightarrow> bool" where
  "less_eq_unique_value x y \<longleftrightarrow> toU64 x \<le> toU64 y"

definition less_unique_value :: "'a unique_value \<Rightarrow> 'a unique_value \<Rightarrow> bool" where
  "less_unique_value x y \<longleftrightarrow> toU64 x < toU64 y"

instance
  by standard
    (auto simp: less_eq_unique_value_def less_unique_value_def intro: unique_value.expand)

end

section \<open>The identity domains\<close>

datatype WorkloadIdTag = WorkloadIdTag
datatype WorkloadGenerationTag = WorkloadGenerationTag
datatype WorkloadRevisionTag = WorkloadRevisionTag
datatype ExecutionEpisodeIdTag = ExecutionEpisodeIdTag
datatype ExecutionEpisodeGenerationTag = ExecutionEpisodeGenerationTag
datatype CoordinatorEpochTag = CoordinatorEpochTag
datatype OwnerIdTag = OwnerIdTag
datatype OwnerGenerationTag = OwnerGenerationTag
datatype WorkerIdTag = WorkerIdTag
datatype WorkerBootIdTag = WorkerBootIdTag
datatype PriorityClassTag = PriorityClassTag
datatype PriorityGenerationTag = PriorityGenerationTag
datatype ResourceContractIdTag = ResourceContractIdTag
datatype ResourceContractGenerationTag = ResourceContractGenerationTag
datatype DependencySetIdTag = DependencySetIdTag
datatype DependencyGenerationTag = DependencyGenerationTag
datatype CheckpointRefTag = CheckpointRefTag
datatype CheckpointGenerationTag = CheckpointGenerationTag
datatype MigrationIdTag = MigrationIdTag
datatype MigrationGenerationTag = MigrationGenerationTag
datatype RestartGenerationTag = RestartGenerationTag
datatype RecoveryGenerationTag = RecoveryGenerationTag
datatype CompletionGenerationTag = CompletionGenerationTag
datatype PolicyGenerationTag = PolicyGenerationTag

type_synonym WorkloadId = "WorkloadIdTag unique_value"
type_synonym WorkloadGeneration = "WorkloadGenerationTag unique_value"
type_synonym WorkloadRevision = "WorkloadRevisionTag unique_value"
type_synonym ExecutionEpisodeId = "ExecutionEpisodeIdTag unique_value"
type_synonym ExecutionEpisodeGeneration = "ExecutionEpisodeGenerationTag unique_value"
type_synonym CoordinatorEpoch = "CoordinatorEpochTag unique_value"
type_synonym OwnerId = "OwnerIdTag unique_value"
type_synonym OwnerGeneration = "OwnerGenerationTag unique_value"
type_synonym WorkerId = "WorkerIdTag unique_value"
type_synonym WorkerBootId = "WorkerBootIdTag unique_value"
type_synonym PriorityClass = "PriorityClassTag unique_value"
type_synonym PriorityGeneration = "PriorityGenerationTag unique_value"
type_synonym ResourceContractId = "ResourceContractIdTag unique_value"
type_synonym ResourceContractGeneration = "ResourceContractGenerationTag unique_value"
type_synonym DependencySetId = "DependencySetIdTag unique_value"
type_synonym DependencyGeneration = "DependencyGenerationTag unique_value"
type_synonym CheckpointRef = "CheckpointRefTag unique_value"
type_synonym CheckpointGeneration = "CheckpointGenerationTag unique_value"
type_synonym MigrationId = "MigrationIdTag unique_value"
type_synonym MigrationGeneration = "MigrationGenerationTag unique_value"
type_synonym RestartGeneration = "RestartGenerationTag unique_value"
type_synonym RecoveryGeneration = "RecoveryGenerationTag unique_value"
type_synonym CompletionGeneration = "CompletionGenerationTag unique_value"
type_synonym PolicyGeneration = "PolicyGenerationTag unique_value"

section \<open>Facts\<close>

lemma toU64_simps [simp]:
  "toU64 (fromU64 v) = v" "fromU64 (toU64 x) = x" "toU64 no_value = 0"
  by (simp_all add: fromU64_def no_value_def)

lemma toU64_inject: "toU64 x = toU64 y \<longleftrightarrow> x = y"
  by (auto intro: unique_value.expand)

lemma toU64_next_gen [simp]: "toU64 (next_gen g) = toU64 g + 1"
  by (simp add: next_gen_def)

lemma next_gen_neq [simp]: "next_gen g \<noteq> g" "g \<noteq> next_gen g"
proof -
  show "next_gen g \<noteq> g"
  proof
    assume "next_gen g = g"
    then have "toU64 g + 1 = toU64 g" by (metis toU64_next_gen)
    then show False by simp
  qed
  then show "g \<noteq> next_gen g" by metis
qed

lemma previous_next [simp]: "previous (next_gen g) = g"
  by (simp add: previous_def)

text \<open>A successor is larger, except that the largest 64-bit value wraps to the invalid one.\<close>

lemma unat_next_gen: "toU64 g \<noteq> - 1 \<Longrightarrow> unat (toU64 (next_gen g)) = Suc (unat (toU64 g))"
  by (simp add: unat_succ_u64)

lemma next_gen_wraps: "toU64 g = - 1 \<Longrightarrow> \<not> valid (next_gen g)"
  by (simp add: valid_def)

lemma next_gen_greater: "toU64 g \<noteq> - 1 \<Longrightarrow> g < next_gen g"
  using unat_next_gen [of g] by (simp add: less_unique_value_def word_less_nat_alt)

end
