(* ===== verification/Outcomes.thy ===== *)
theory Outcomes
  imports Prelude
begin

text \<open>
  The outcome taxonomy (\<open>outcome.hpp\<close>, \<open>outcome.cpp\<close>): the enumeration, its
  codes, its name table and the three classifications.
\<close>

datatype Outcome =
    ALLOW | DEFER | BLOCKED_DEPENDENCY | BLOCKED_RESOURCE_CONTRACT | REJECT_STALE_EPOCH |
    REJECT_STALE_BOOT | REJECT_STALE_WORKLOAD_GENERATION | REJECT_STALE_EPISODE |
    REJECT_STALE_RESOURCE_CONTRACT | REJECT_STALE_DEPENDENCY | REJECT_STALE_PRIORITY |
    REJECT_STALE_PROGRESS | REJECT_STALE_MIGRATION | REJECT_TERMINAL | REJECT_CANCELLED |
    REJECT_RESTART_LIMIT | REJECT_MIGRATION_INELIGIBLE | REJECT_NOT_SUSPENDED |
    REJECT_NOT_RESUMABLE | REJECT_INVALID_TRANSITION | REJECT_PROGRESS_DOUBLE_COUNT |
    REJECT_PROGRESS_REGRESSION | REJECT_RESOURCE_DOUBLE_RELEASE | REJECT_DUPLICATE_WORKLOAD |
    REJECT_WORKLOAD_NOT_FOUND | REJECT_CROSS_WORKLOAD | REJECT_IMMUTABLE_CONTRACT |
    REJECT_PRIORITY_NOT_MUTABLE | REJECT_NOT_BLOCKED | REJECT_EPISODE_INELIGIBLE |
    REJECT_NOT_RUNNABLE | REJECT_UNKNOWN_DEPENDENCY | REJECT_DEGRADED_POLICY |
    REJECT_COMPLETION_POLICY | REJECT_UNKNOWN | REVALIDATION_REQUIRED | UNKNOWN

primrec outcome_code :: "Outcome \<Rightarrow> nat" where
  "outcome_code Outcome.ALLOW = 0"
| "outcome_code Outcome.DEFER = 1"
| "outcome_code Outcome.BLOCKED_DEPENDENCY = 2"
| "outcome_code Outcome.BLOCKED_RESOURCE_CONTRACT = 3"
| "outcome_code Outcome.REJECT_STALE_EPOCH = 4"
| "outcome_code Outcome.REJECT_STALE_BOOT = 5"
| "outcome_code Outcome.REJECT_STALE_WORKLOAD_GENERATION = 6"
| "outcome_code Outcome.REJECT_STALE_EPISODE = 7"
| "outcome_code Outcome.REJECT_STALE_RESOURCE_CONTRACT = 8"
| "outcome_code Outcome.REJECT_STALE_DEPENDENCY = 9"
| "outcome_code Outcome.REJECT_STALE_PRIORITY = 10"
| "outcome_code Outcome.REJECT_STALE_PROGRESS = 11"
| "outcome_code Outcome.REJECT_STALE_MIGRATION = 12"
| "outcome_code Outcome.REJECT_TERMINAL = 13"
| "outcome_code Outcome.REJECT_CANCELLED = 14"
| "outcome_code Outcome.REJECT_RESTART_LIMIT = 15"
| "outcome_code Outcome.REJECT_MIGRATION_INELIGIBLE = 16"
| "outcome_code Outcome.REJECT_NOT_SUSPENDED = 17"
| "outcome_code Outcome.REJECT_NOT_RESUMABLE = 18"
| "outcome_code Outcome.REJECT_INVALID_TRANSITION = 19"
| "outcome_code Outcome.REJECT_PROGRESS_DOUBLE_COUNT = 20"
| "outcome_code Outcome.REJECT_PROGRESS_REGRESSION = 21"
| "outcome_code Outcome.REJECT_RESOURCE_DOUBLE_RELEASE = 22"
| "outcome_code Outcome.REJECT_DUPLICATE_WORKLOAD = 23"
| "outcome_code Outcome.REJECT_WORKLOAD_NOT_FOUND = 24"
| "outcome_code Outcome.REJECT_CROSS_WORKLOAD = 25"
| "outcome_code Outcome.REJECT_IMMUTABLE_CONTRACT = 26"
| "outcome_code Outcome.REJECT_PRIORITY_NOT_MUTABLE = 27"
| "outcome_code Outcome.REJECT_NOT_BLOCKED = 28"
| "outcome_code Outcome.REJECT_EPISODE_INELIGIBLE = 29"
| "outcome_code Outcome.REJECT_NOT_RUNNABLE = 30"
| "outcome_code Outcome.REJECT_UNKNOWN_DEPENDENCY = 31"
| "outcome_code Outcome.REJECT_DEGRADED_POLICY = 32"
| "outcome_code Outcome.REJECT_COMPLETION_POLICY = 33"
| "outcome_code Outcome.REJECT_UNKNOWN = 34"
| "outcome_code Outcome.REVALIDATION_REQUIRED = 35"
| "outcome_code Outcome.UNKNOWN = 36"

definition outcome_values :: "Outcome list" where
  "outcome_values = [
    Outcome.ALLOW, Outcome.DEFER, Outcome.BLOCKED_DEPENDENCY, Outcome.BLOCKED_RESOURCE_CONTRACT,
    Outcome.REJECT_STALE_EPOCH, Outcome.REJECT_STALE_BOOT, Outcome.REJECT_STALE_WORKLOAD_GENERATION,
    Outcome.REJECT_STALE_EPISODE, Outcome.REJECT_STALE_RESOURCE_CONTRACT,
    Outcome.REJECT_STALE_DEPENDENCY, Outcome.REJECT_STALE_PRIORITY, Outcome.REJECT_STALE_PROGRESS,
    Outcome.REJECT_STALE_MIGRATION, Outcome.REJECT_TERMINAL, Outcome.REJECT_CANCELLED,
    Outcome.REJECT_RESTART_LIMIT, Outcome.REJECT_MIGRATION_INELIGIBLE, Outcome.REJECT_NOT_SUSPENDED,
    Outcome.REJECT_NOT_RESUMABLE, Outcome.REJECT_INVALID_TRANSITION,
    Outcome.REJECT_PROGRESS_DOUBLE_COUNT, Outcome.REJECT_PROGRESS_REGRESSION,
    Outcome.REJECT_RESOURCE_DOUBLE_RELEASE, Outcome.REJECT_DUPLICATE_WORKLOAD,
    Outcome.REJECT_WORKLOAD_NOT_FOUND, Outcome.REJECT_CROSS_WORKLOAD,
    Outcome.REJECT_IMMUTABLE_CONTRACT, Outcome.REJECT_PRIORITY_NOT_MUTABLE,
    Outcome.REJECT_NOT_BLOCKED, Outcome.REJECT_EPISODE_INELIGIBLE, Outcome.REJECT_NOT_RUNNABLE,
    Outcome.REJECT_UNKNOWN_DEPENDENCY, Outcome.REJECT_DEGRADED_POLICY,
    Outcome.REJECT_COMPLETION_POLICY, Outcome.REJECT_UNKNOWN, Outcome.REVALIDATION_REQUIRED,
    Outcome.UNKNOWN]"

definition kOs :: "string list" where
  "kOs = [
    ''ALLOW'', ''DEFER'', ''BLOCKED_DEPENDENCY'', ''BLOCKED_RESOURCE_CONTRACT'',
    ''REJECT_STALE_EPOCH'', ''REJECT_STALE_BOOT'', ''REJECT_STALE_WORKLOAD_GENERATION'',
    ''REJECT_STALE_EPISODE'', ''REJECT_STALE_RESOURCE_CONTRACT'', ''REJECT_STALE_DEPENDENCY'',
    ''REJECT_STALE_PRIORITY'', ''REJECT_STALE_PROGRESS'', ''REJECT_STALE_MIGRATION'',
    ''REJECT_TERMINAL'', ''REJECT_CANCELLED'', ''REJECT_RESTART_LIMIT'',
    ''REJECT_MIGRATION_INELIGIBLE'', ''REJECT_NOT_SUSPENDED'', ''REJECT_NOT_RESUMABLE'',
    ''REJECT_INVALID_TRANSITION'', ''REJECT_PROGRESS_DOUBLE_COUNT'', ''REJECT_PROGRESS_REGRESSION'',
    ''REJECT_RESOURCE_DOUBLE_RELEASE'', ''REJECT_DUPLICATE_WORKLOAD'',
    ''REJECT_WORKLOAD_NOT_FOUND'', ''REJECT_CROSS_WORKLOAD'', ''REJECT_IMMUTABLE_CONTRACT'',
    ''REJECT_PRIORITY_NOT_MUTABLE'', ''REJECT_NOT_BLOCKED'', ''REJECT_EPISODE_INELIGIBLE'',
    ''REJECT_NOT_RUNNABLE'', ''REJECT_UNKNOWN_DEPENDENCY'', ''REJECT_DEGRADED_POLICY'',
    ''REJECT_COMPLETION_POLICY'', ''REJECT_UNKNOWN'', ''REVALIDATION_REQUIRED'', ''UNKNOWN'']"

definition outcomeName :: "Outcome \<Rightarrow> string" where
  "outcomeName s = name_of kOs (outcome_code s)"

interpretation outcome: named_enum outcome_values outcome_code kOs
proof
  show "map outcome_code outcome_values = [0..<length outcome_values]"
    by (simp add: outcome_values_def upt_rec)
  show "x \<in> set outcome_values" for x
    by (cases x) (simp_all add: outcome_values_def)
  show "length outcome_values \<le> 256"
    by (simp add: outcome_values_def)
  show "length kOs = length outcome_values"
    by (simp add: kOs_def outcome_values_def)
  show "distinct kOs"
    by (simp add: kOs_def)
qed

lemma outcome_max: "length outcome_values = 37"
  by (simp add: outcome_values_def)

definition isAllow :: "Outcome \<Rightarrow> bool" where
  "isAllow o' \<longleftrightarrow> o' = Outcome.ALLOW"

definition isReject :: "Outcome \<Rightarrow> bool" where
  "isReject o' \<longleftrightarrow>
     (let v = outcome_code o'
      in outcome_code Outcome.REJECT_STALE_EPOCH \<le> v \<and> v \<le> outcome_code Outcome.REJECT_UNKNOWN)"

definition isBlocked :: "Outcome \<Rightarrow> bool" where
  "isBlocked o' \<longleftrightarrow> o' = Outcome.BLOCKED_DEPENDENCY \<or> o' = Outcome.BLOCKED_RESOURCE_CONTRACT"

text \<open>
  The three classes are disjoint; what is left over are the four outcomes that neither allow,
  nor block, nor reject.
\<close>

lemma isReject_iff_code: "isReject x \<longleftrightarrow> 4 \<le> outcome_code x \<and> outcome_code x \<le> 34"
  by (simp add: isReject_def Let_def)

lemma isAllow_not_isReject: "isAllow x \<Longrightarrow> \<not> isReject x"
  by (simp add: isAllow_def isReject_iff_code)

end
