(* ===== verification/Resources.thy ===== *)
theory Resources
  imports Identity Outcomes
begin

text \<open>
  Resource contracts (\<open>resource.hpp\<close>, \<open>resources.cpp\<close>): requirements, grants with
  their bindings, the generation-fenced contract, its operations, and what it means for a grant
  to satisfy it.
\<close>

section \<open>Vocabulary\<close>

datatype NeedLevel =
    REQUIRED | PREFERRED | OPTIONAL | PROHIBITED

primrec needLevel_code :: "NeedLevel \<Rightarrow> nat" where
  "needLevel_code NeedLevel.REQUIRED = 0"
| "needLevel_code NeedLevel.PREFERRED = 1"
| "needLevel_code NeedLevel.OPTIONAL = 2"
| "needLevel_code NeedLevel.PROHIBITED = 3"

definition needLevel_values :: "NeedLevel list" where
  "needLevel_values = [
    NeedLevel.REQUIRED, NeedLevel.PREFERRED, NeedLevel.OPTIONAL, NeedLevel.PROHIBITED]"

definition kNeed :: "string list" where
  "kNeed = [
    ''REQUIRED'', ''PREFERRED'', ''OPTIONAL'', ''PROHIBITED'']"

definition needLevelName :: "NeedLevel \<Rightarrow> string" where
  "needLevelName s = name_of kNeed (needLevel_code s)"

interpretation needLevel: named_enum needLevel_values needLevel_code kNeed
proof
  show "map needLevel_code needLevel_values = [0..<length needLevel_values]"
    by (simp add: needLevel_values_def upt_rec)
  show "x \<in> set needLevel_values" for x
    by (cases x) (simp_all add: needLevel_values_def)
  show "length needLevel_values \<le> 256"
    by (simp add: needLevel_values_def)
  show "length kNeed = length needLevel_values"
    by (simp add: kNeed_def needLevel_values_def)
  show "distinct kNeed"
    by (simp add: kNeed_def)
qed

lemma needLevel_max: "length needLevel_values = 4"
  by (simp add: needLevel_values_def)

datatype ResourceKind =
    ACCELERATOR_COUNT | ACCELERATOR_CAPABILITY_CLASS | DEVICE_MEMORY | HOST_MEMORY | PINNED_MEMORY |
    CPU_CAPACITY | STORAGE | TRANSFER_BANDWIDTH | NETWORK_REQUIREMENT | MODEL_RESIDENCY |
    LOCALITY_CONSTRAINT | EXECUTION_CONCURRENCY | DEADLINE_SLO_CLASS | MAX_RESTART_COUNT |
    MAX_RECOVERY_DURATION | CHECKPOINT_REQUIREMENT | MIGRATION_ELIGIBILITY

primrec resourceKind_code :: "ResourceKind \<Rightarrow> nat" where
  "resourceKind_code ResourceKind.ACCELERATOR_COUNT = 0"
| "resourceKind_code ResourceKind.ACCELERATOR_CAPABILITY_CLASS = 1"
| "resourceKind_code ResourceKind.DEVICE_MEMORY = 2"
| "resourceKind_code ResourceKind.HOST_MEMORY = 3"
| "resourceKind_code ResourceKind.PINNED_MEMORY = 4"
| "resourceKind_code ResourceKind.CPU_CAPACITY = 5"
| "resourceKind_code ResourceKind.STORAGE = 6"
| "resourceKind_code ResourceKind.TRANSFER_BANDWIDTH = 7"
| "resourceKind_code ResourceKind.NETWORK_REQUIREMENT = 8"
| "resourceKind_code ResourceKind.MODEL_RESIDENCY = 9"
| "resourceKind_code ResourceKind.LOCALITY_CONSTRAINT = 10"
| "resourceKind_code ResourceKind.EXECUTION_CONCURRENCY = 11"
| "resourceKind_code ResourceKind.DEADLINE_SLO_CLASS = 12"
| "resourceKind_code ResourceKind.MAX_RESTART_COUNT = 13"
| "resourceKind_code ResourceKind.MAX_RECOVERY_DURATION = 14"
| "resourceKind_code ResourceKind.CHECKPOINT_REQUIREMENT = 15"
| "resourceKind_code ResourceKind.MIGRATION_ELIGIBILITY = 16"

definition resourceKind_values :: "ResourceKind list" where
  "resourceKind_values = [
    ResourceKind.ACCELERATOR_COUNT, ResourceKind.ACCELERATOR_CAPABILITY_CLASS,
    ResourceKind.DEVICE_MEMORY, ResourceKind.HOST_MEMORY, ResourceKind.PINNED_MEMORY,
    ResourceKind.CPU_CAPACITY, ResourceKind.STORAGE, ResourceKind.TRANSFER_BANDWIDTH,
    ResourceKind.NETWORK_REQUIREMENT, ResourceKind.MODEL_RESIDENCY,
    ResourceKind.LOCALITY_CONSTRAINT, ResourceKind.EXECUTION_CONCURRENCY,
    ResourceKind.DEADLINE_SLO_CLASS, ResourceKind.MAX_RESTART_COUNT,
    ResourceKind.MAX_RECOVERY_DURATION, ResourceKind.CHECKPOINT_REQUIREMENT,
    ResourceKind.MIGRATION_ELIGIBILITY]"

definition kKind :: "string list" where
  "kKind = [
    ''ACCELERATOR_COUNT'', ''ACCELERATOR_CAPABILITY_CLASS'', ''DEVICE_MEMORY'', ''HOST_MEMORY'',
    ''PINNED_MEMORY'', ''CPU_CAPACITY'', ''STORAGE'', ''TRANSFER_BANDWIDTH'',
    ''NETWORK_REQUIREMENT'', ''MODEL_RESIDENCY'', ''LOCALITY_CONSTRAINT'',
    ''EXECUTION_CONCURRENCY'', ''DEADLINE_SLO_CLASS'', ''MAX_RESTART_COUNT'',
    ''MAX_RECOVERY_DURATION'', ''CHECKPOINT_REQUIREMENT'', ''MIGRATION_ELIGIBILITY'']"

definition resourceKindName :: "ResourceKind \<Rightarrow> string" where
  "resourceKindName s = name_of kKind (resourceKind_code s)"

interpretation resourceKind: named_enum resourceKind_values resourceKind_code kKind
proof
  show "map resourceKind_code resourceKind_values = [0..<length resourceKind_values]"
    by (simp add: resourceKind_values_def upt_rec)
  show "x \<in> set resourceKind_values" for x
    by (cases x) (simp_all add: resourceKind_values_def)
  show "length resourceKind_values \<le> 256"
    by (simp add: resourceKind_values_def)
  show "length kKind = length resourceKind_values"
    by (simp add: kKind_def resourceKind_values_def)
  show "distinct kKind"
    by (simp add: kKind_def)
qed

lemma resourceKind_max: "length resourceKind_values = 17"
  by (simp add: resourceKind_values_def)

datatype GrantStatus =
    REQUESTED | GRANTED | BOUND | RELEASED | STALE | EXPIRED

primrec grantStatus_code :: "GrantStatus \<Rightarrow> nat" where
  "grantStatus_code GrantStatus.REQUESTED = 0"
| "grantStatus_code GrantStatus.GRANTED = 1"
| "grantStatus_code GrantStatus.BOUND = 2"
| "grantStatus_code GrantStatus.RELEASED = 3"
| "grantStatus_code GrantStatus.STALE = 4"
| "grantStatus_code GrantStatus.EXPIRED = 5"

definition grantStatus_values :: "GrantStatus list" where
  "grantStatus_values = [
    GrantStatus.REQUESTED, GrantStatus.GRANTED, GrantStatus.BOUND, GrantStatus.RELEASED,
    GrantStatus.STALE, GrantStatus.EXPIRED]"

definition kGrant :: "string list" where
  "kGrant = [
    ''REQUESTED'', ''GRANTED'', ''BOUND'', ''RELEASED'', ''STALE'', ''EXPIRED'']"

definition grantStatusName :: "GrantStatus \<Rightarrow> string" where
  "grantStatusName s = name_of kGrant (grantStatus_code s)"

interpretation grantStatus: named_enum grantStatus_values grantStatus_code kGrant
proof
  show "map grantStatus_code grantStatus_values = [0..<length grantStatus_values]"
    by (simp add: grantStatus_values_def upt_rec)
  show "x \<in> set grantStatus_values" for x
    by (cases x) (simp_all add: grantStatus_values_def)
  show "length grantStatus_values \<le> 256"
    by (simp add: grantStatus_values_def)
  show "length kGrant = length grantStatus_values"
    by (simp add: kGrant_def grantStatus_values_def)
  show "distinct kGrant"
    by (simp add: kGrant_def)
qed

lemma grantStatus_max: "length grantStatus_values = 6"
  by (simp add: grantStatus_values_def)

section \<open>Requirements, bindings, grants and contracts\<close>

record ResourceRequirement =
  rr_kind :: ResourceKind
  rr_level :: NeedLevel
  rr_minValue :: f64
  rr_maxValue :: f64
  rr_spec :: string

definition satisfies :: "ResourceRequirement \<Rightarrow> f64 \<Rightarrow> bool" where
  "satisfies r v =
     (if rr_level r = NeedLevel.PROHIBITED then f64_eq v f64_zero
      else if f64_less v (rr_minValue r) then False
      else if f64_less f64_zero (rr_maxValue r) \<and> f64_less (rr_maxValue r) v then False
      else True)"

record ResourceBinding =
  rb_kind :: ResourceKind
  rb_amount :: f64
  rb_qualifier :: string

record ResourceGrant =
  rg_contractId :: ResourceContractId
  rg_contractGeneration :: ResourceContractGeneration
  rg_status :: GrantStatus
  rg_bindings :: "ResourceBinding list"
  rg_released :: bool

record ResourceContract =
  rc_id :: ResourceContractId
  rc_generation :: ResourceContractGeneration
  rc_reqs :: "ResourceRequirement list"
  rc_grant :: ResourceGrant

definition default_grant :: ResourceGrant where
  "default_grant = \<lparr>rg_contractId = no_value, rg_contractGeneration = no_value,
     rg_status = GrantStatus.REQUESTED, rg_bindings = [], rg_released = False\<rparr>"

definition new_contract :: "ResourceContractId \<Rightarrow> ResourceContractGeneration \<Rightarrow> ResourceContract" where
  "new_contract i g = \<lparr>rc_id = i, rc_generation = g, rc_reqs = [], rc_grant = default_grant\<rparr>"

section \<open>Operations\<close>

text \<open>The scan of \<open>add\<close> for an existing requirement of the same dimension.\<close>

fun same_dimension_in :: "ResourceRequirement \<Rightarrow> ResourceRequirement list \<Rightarrow> bool" where
  "same_dimension_in req [] = False"
| "same_dimension_in req (existing # rest) =
     (if rr_kind existing = rr_kind req \<and> rr_spec existing = rr_spec req then True
      else same_dimension_in req rest)"

definition add_requirement :: "ResourceRequirement \<Rightarrow> ResourceContract \<Rightarrow> Outcome \<times> ResourceContract" where
  "add_requirement req c =
     (let req = (if rr_level req = NeedLevel.PROHIBITED
                 then req\<lparr>rr_minValue := f64_zero, rr_maxValue := f64_zero\<rparr> else req)
      in if same_dimension_in req (rc_reqs c) then (Outcome.REJECT_IMMUTABLE_CONTRACT, c)
         else (Outcome.ALLOW,
               c\<lparr>rc_reqs := rc_reqs c @ [req], rc_generation := next_gen (rc_generation c)\<rparr>))"

definition known_level :: "NeedLevel \<Rightarrow> bool" where
  "known_level l \<longleftrightarrow> \<not> (l \<noteq> NeedLevel.REQUIRED \<and> l \<noteq> NeedLevel.PREFERRED \<and>
     l \<noteq> NeedLevel.OPTIONAL \<and> l \<noteq> NeedLevel.PROHIBITED)"

definition setRequirements :: "ResourceRequirement list \<Rightarrow> ResourceContract \<Rightarrow> Outcome \<times> ResourceContract" where
  "setRequirements reqs c =
     (if list_ex (\<lambda>r. \<not> known_level (rr_level r)) reqs then (Outcome.REJECT_IMMUTABLE_CONTRACT, c)
      else (Outcome.ALLOW, c\<lparr>rc_reqs := reqs, rc_generation := next_gen (rc_generation c)\<rparr>))"

definition applyGrant :: "ResourceGrant \<Rightarrow> ResourceContract \<Rightarrow> Outcome \<times> ResourceContract" where
  "applyGrant g c =
     (let g = g\<lparr>rg_status := (if rg_contractGeneration g = rc_generation c
                             then GrantStatus.GRANTED else GrantStatus.STALE)\<rparr>
      in (Outcome.ALLOW, c\<lparr>rc_grant := g\<rparr>))"

definition releaseGrant :: "ResourceContractGeneration \<Rightarrow> ResourceContract \<Rightarrow> Outcome \<times> ResourceContract" where
  "releaseGrant expecting c =
     (if expecting \<noteq> rc_generation c then (Outcome.REJECT_STALE_RESOURCE_CONTRACT, c)
      else if rg_released (rc_grant c) then (Outcome.REJECT_RESOURCE_DOUBLE_RELEASE, c)
      else (Outcome.ALLOW,
            c\<lparr>rc_grant := (rc_grant c)\<lparr>rg_released := True, rg_status := GrantStatus.RELEASED\<rparr>\<rparr>))"

definition advanceGeneration :: "ResourceContractGeneration \<Rightarrow> ResourceContract \<Rightarrow> Outcome \<times> ResourceContract" where
  "advanceGeneration expecting c =
     (if expecting \<noteq> rc_generation c then (Outcome.REJECT_STALE_RESOURCE_CONTRACT, c)
      else (Outcome.ALLOW, c\<lparr>rc_generation := next_gen (rc_generation c)\<rparr>))"

text \<open>The inner loop that looks for a binding that meets a requirement.\<close>

fun binding_found :: "ResourceRequirement \<Rightarrow> ResourceBinding list \<Rightarrow> bool" where
  "binding_found req [] = False"
| "binding_found req (b # bs) =
     (if rb_kind b = rr_kind req \<and> satisfies req (rb_amount b) then True else binding_found req bs)"

fun required_met :: "ResourceRequirement list \<Rightarrow> ResourceBinding list \<Rightarrow> bool" where
  "required_met [] bs = True"
| "required_met (req # reqs) bs =
     (if rr_level req \<noteq> NeedLevel.REQUIRED then required_met reqs bs
      else if \<not> binding_found req bs then False else required_met reqs bs)"

fun positive_binding :: "ResourceRequirement \<Rightarrow> ResourceBinding list \<Rightarrow> bool" where
  "positive_binding req [] = False"
| "positive_binding req (b # bs) =
     (if rb_kind b = rr_kind req \<and> f64_less f64_zero (rb_amount b) then True
      else positive_binding req bs)"

fun prohibited_absent :: "ResourceRequirement list \<Rightarrow> ResourceBinding list \<Rightarrow> bool" where
  "prohibited_absent [] bs = True"
| "prohibited_absent (req # reqs) bs =
     (if rr_level req \<noteq> NeedLevel.PROHIBITED then prohibited_absent reqs bs
      else if positive_binding req bs then False else prohibited_absent reqs bs)"

definition satisfied :: "ResourceContract \<Rightarrow> bool" where
  "satisfied c =
     (if rg_status (rc_grant c) \<noteq> GrantStatus.GRANTED \<or> rg_released (rc_grant c) then False
      else if \<not> required_met (rc_reqs c) (rg_bindings (rc_grant c)) then False
      else prohibited_absent (rc_reqs c) (rg_bindings (rc_grant c)))"

fun first_unmet :: "ResourceRequirement list \<Rightarrow> ResourceBinding list \<Rightarrow> ResourceRequirement option" where
  "first_unmet [] bs = None"
| "first_unmet (req # reqs) bs =
     (if rr_level req \<noteq> NeedLevel.REQUIRED then first_unmet reqs bs
      else if \<not> binding_found req bs then Some req else first_unmet reqs bs)"

definition firstUnsatisfiedRequired :: "ResourceContract \<Rightarrow> ResourceRequirement option" where
  "firstUnsatisfiedRequired c = first_unmet (rc_reqs c) (rg_bindings (rc_grant c))"

section \<open>Facts\<close>

lemma same_dimension_in_iff:
  "same_dimension_in req reqs \<longleftrightarrow> (\<exists>r\<in>set reqs. rr_kind r = rr_kind req \<and> rr_spec r = rr_spec req)"
  by (induction reqs) auto

lemma binding_found_iff:
  "binding_found req bs \<longleftrightarrow> (\<exists>b\<in>set bs. rb_kind b = rr_kind req \<and> satisfies req (rb_amount b))"
  by (induction bs) auto

lemma required_met_iff:
  "required_met reqs bs \<longleftrightarrow>
     (\<forall>r\<in>set reqs. rr_level r = NeedLevel.REQUIRED \<longrightarrow> binding_found r bs)"
  by (induction reqs) auto

lemma positive_binding_iff:
  "positive_binding req bs \<longleftrightarrow>
     (\<exists>b\<in>set bs. rb_kind b = rr_kind req \<and> f64_less f64_zero (rb_amount b))"
  by (induction bs) auto

lemma prohibited_absent_iff:
  "prohibited_absent reqs bs \<longleftrightarrow>
     (\<forall>r\<in>set reqs. rr_level r = NeedLevel.PROHIBITED \<longrightarrow> \<not> positive_binding r bs)"
  by (induction reqs) auto

lemma first_unmet_None: "first_unmet reqs bs = None \<longleftrightarrow> required_met reqs bs"
  by (induction reqs) auto

lemma first_unmet_Some:
  "first_unmet reqs bs = Some r \<Longrightarrow>
     \<exists>pre post. reqs = pre @ r # post \<and> required_met pre bs \<and>
       rr_level r = NeedLevel.REQUIRED \<and> \<not> binding_found r bs"
proof (induction reqs)
  case (Cons q reqs)
  show ?case
  proof (cases "rr_level q = NeedLevel.REQUIRED \<and> \<not> binding_found q bs")
    case True
    with Cons.prems have "q # reqs = [] @ r # reqs" "rr_level r = NeedLevel.REQUIRED" "\<not> binding_found r bs"
      by auto
    then show ?thesis by (metis required_met.simps(1))
  next
    case False
    with Cons.prems have "first_unmet reqs bs = Some r" by (auto split: if_splits)
    then obtain pre post where "reqs = pre @ r # post" "required_met pre bs"
      "rr_level r = NeedLevel.REQUIRED" "\<not> binding_found r bs"
      using Cons.IH by blast
    with False show ?thesis
      by (intro exI [of _ "q # pre"] exI [of _ post]) (auto simp: required_met_iff)
  qed
qed simp

lemma known_level_always [simp]: "known_level l"
  by (cases l) (simp_all add: known_level_def)

lemma setRequirements_allowed [simp]:
  "setRequirements reqs c =
     (Outcome.ALLOW, c\<lparr>rc_reqs := reqs, rc_generation := next_gen (rc_generation c)\<rparr>)"
  by (simp add: setRequirements_def list_ex_iff)

lemma satisfied_granted: "satisfied c \<Longrightarrow> rg_status (rc_grant c) = GrantStatus.GRANTED"
  by (auto simp: satisfied_def split: if_splits)

section \<open>Well-formed contracts\<close>

text \<open>
  No two requirements speak about the same dimension (kind and descriptor), and a prohibition
  carries no value.
\<close>

definition dimension :: "ResourceRequirement \<Rightarrow> ResourceKind \<times> string" where
  "dimension r = (rr_kind r, rr_spec r)"

definition contract_wf :: "ResourceContract \<Rightarrow> bool" where
  "contract_wf c \<longleftrightarrow>
     distinct (map dimension (rc_reqs c)) \<and>
     (\<forall>r\<in>set (rc_reqs c). rr_level r = NeedLevel.PROHIBITED \<longrightarrow>
        rr_minValue r = f64_zero \<and> rr_maxValue r = f64_zero)"

lemma contract_wf_new [simp]: "contract_wf (new_contract i g)"
  by (simp add: contract_wf_def new_contract_def)

lemma contract_wf_add: "contract_wf c \<Longrightarrow> contract_wf (snd (add_requirement r c))"
  by (auto simp: contract_wf_def add_requirement_def Let_def same_dimension_in_iff dimension_def
      split: if_splits)

lemma contract_wf_grant:
  "contract_wf c \<Longrightarrow> contract_wf (snd (applyGrant g c))"
  "contract_wf c \<Longrightarrow> contract_wf (snd (releaseGrant e c))"
  "contract_wf c \<Longrightarrow> contract_wf (snd (advanceGeneration e c))"
  by (simp_all add: contract_wf_def applyGrant_def releaseGrant_def advanceGeneration_def Let_def)

section \<open>Properties\<close>

text \<open>
  C36. A contract is satisfied exactly when its grant is current
  (\<open>GRANTED\<close>, not released), every \<open>REQUIRED\<close> requirement is met by some binding of
  its kind, and no \<open>PROHIBITED\<close> kind has a positive binding. \<open>PREFERRED\<close> and
  \<open>OPTIONAL\<close> requirements play no part.
\<close>

theorem satisfied_spec:
  "satisfied c \<longleftrightarrow>
     rg_status (rc_grant c) = GrantStatus.GRANTED \<and> \<not> rg_released (rc_grant c) \<and>
     (\<forall>r\<in>set (rc_reqs c). rr_level r = NeedLevel.REQUIRED \<longrightarrow>
        (\<exists>b\<in>set (rg_bindings (rc_grant c)). rb_kind b = rr_kind r \<and> satisfies r (rb_amount b))) \<and>
     (\<forall>r\<in>set (rc_reqs c). rr_level r = NeedLevel.PROHIBITED \<longrightarrow>
        (\<forall>b\<in>set (rg_bindings (rc_grant c)). rb_kind b = rr_kind r \<longrightarrow>
           \<not> f64_less f64_zero (rb_amount b)))"
  by (auto simp: satisfied_def required_met_iff binding_found_iff prohibited_absent_iff
      positive_binding_iff)

definition example_requirement :: "NeedLevel \<Rightarrow> ResourceKind \<Rightarrow> u64 \<Rightarrow> ResourceRequirement" where
  "example_requirement l k bits =
     \<lparr>rr_kind = k, rr_level = l, rr_minValue = F64 bits, rr_maxValue = f64_zero, rr_spec = []\<rparr>"

text \<open>One accelerator required and granted, in generation 1. \<open>0x3FF0...\<close> is 1.0.\<close>

definition example_grant :: "u64 \<Rightarrow> ResourceGrant" where
  "example_grant gen = \<lparr>rg_contractId = UniqueValue 10, rg_contractGeneration = UniqueValue gen,
     rg_status = GrantStatus.GRANTED,
     rg_bindings = [\<lparr>rb_kind = ResourceKind.ACCELERATOR_COUNT, rb_amount = F64 0x3FF0000000000000,
       rb_qualifier = ''g''\<rparr>], rg_released = False\<rparr>"

definition example_contract :: ResourceContract where
  "example_contract = \<lparr>rc_id = UniqueValue 10, rc_generation = UniqueValue 1,
     rc_reqs = [example_requirement NeedLevel.REQUIRED ResourceKind.ACCELERATOR_COUNT 0x3FF0000000000000],
     rc_grant = example_grant 1\<rparr>"

lemmas example_defs = example_requirement_def example_grant_def example_contract_def

lemma example_satisfied: "satisfied example_contract"
  by (simp add: example_defs satisfied_def satisfies_def f64_less_def f64_key_def)

theorem satisfied_spec_witness: "satisfied example_contract"
  by (subst satisfied_spec) (simp add: example_defs satisfies_def f64_less_def f64_key_def)

text \<open>
  \<open>satisfied\<close> tests the status recorded when the
  grant was applied, not the generation: adding a \<open>PREFERRED\<close> or \<open>OPTIONAL\<close>
  requirement to a satisfied contract advances the contract generation past that of the grant,
  and the contract still counts as satisfied by the now outdated grant.
\<close>

theorem satisfied_ignores_contract_generation:
  assumes "satisfied c"
    and "rg_contractGeneration (rc_grant c) = rc_generation c"
    and "rr_level r = NeedLevel.PREFERRED \<or> rr_level r = NeedLevel.OPTIONAL"
    and "add_requirement r c = (Outcome.ALLOW, c')"
  shows "satisfied c' \<and> rg_contractGeneration (rc_grant c') \<noteq> rc_generation c'"
proof -
  from assms(3,4) have c': "c' = c\<lparr>rc_reqs := rc_reqs c @ [r], rc_generation := next_gen (rc_generation c)\<rparr>"
    by (auto simp: add_requirement_def Let_def split: if_splits)
  have "satisfied c'"
    using assms(1,3) by (auto simp: c' satisfied_def required_met_iff prohibited_absent_iff split: if_splits)
  moreover have "rg_contractGeneration (rc_grant c') \<noteq> rc_generation c'"
    using assms(2) by (simp add: c')
  ultimately show ?thesis ..
qed

theorem satisfied_ignores_contract_generation_witness:
  "\<exists>c'. add_requirement (example_requirement NeedLevel.OPTIONAL ResourceKind.STORAGE 0) example_contract
          = (Outcome.ALLOW, c') \<and>
        satisfied c' \<and> rg_contractGeneration (rc_grant c') \<noteq> rc_generation c'"
proof -
  let ?r = "example_requirement NeedLevel.OPTIONAL ResourceKind.STORAGE 0"
  obtain c' where c': "add_requirement ?r example_contract = (Outcome.ALLOW, c')"
    by (simp add: add_requirement_def example_defs)
  have "satisfied c' \<and> rg_contractGeneration (rc_grant c') \<noteq> rc_generation c'"
    by (rule satisfied_ignores_contract_generation [OF example_satisfied _ _ c'])
      (simp_all add: example_defs)
  with c' show ?thesis by blast
qed

text \<open>
  Adding a requirement either rejects it, because its dimension is
  already constrained, and changes nothing, or appends it (a prohibition with its bounds zeroed)
  and advances the generation; in both cases the requirements already there keep their place,
  their level and their bounds, and the contract stays well-formed.
\<close>

theorem add_requirement_spec:
  assumes "contract_wf c" and "add_requirement r c = (out, c')"
  shows "contract_wf c' \<and> rc_grant c' = rc_grant c \<and> rc_id c' = rc_id c \<and>
    (if \<exists>q\<in>set (rc_reqs c). dimension q = dimension r
     then out = Outcome.REJECT_IMMUTABLE_CONTRACT \<and> c' = c
     else out = Outcome.ALLOW \<and> rc_generation c' = next_gen (rc_generation c) \<and>
       (\<exists>q. rc_reqs c' = rc_reqs c @ [q] \<and> dimension q = dimension r \<and> rr_level q = rr_level r))"
proof -
  have "contract_wf c'" using contract_wf_add [OF assms(1), of r] assms(2) by simp
  then show ?thesis
    using assms(2)
    by (auto simp: add_requirement_def Let_def same_dimension_in_iff dimension_def split: if_splits)
qed

theorem add_requirement_spec_witness:
  "fst (add_requirement (example_requirement NeedLevel.PREFERRED ResourceKind.ACCELERATOR_COUNT 0)
     example_contract) = Outcome.REJECT_IMMUTABLE_CONTRACT"
proof -
  let ?r = "example_requirement NeedLevel.PREFERRED ResourceKind.ACCELERATOR_COUNT 0"
  have "contract_wf example_contract" by (simp add: contract_wf_def example_defs)
  then have "fst (add_requirement ?r example_contract) = Outcome.REJECT_IMMUTABLE_CONTRACT"
    using add_requirement_spec [of example_contract ?r "fst (add_requirement ?r example_contract)"
      "snd (add_requirement ?r example_contract)"]
    by (simp add: example_defs dimension_def split: if_splits)
  then show ?thesis .
qed

text \<open>
  A grant binds only for the contract generation it names: applying it makes
  it \<open>GRANTED\<close> exactly then and \<open>STALE\<close> (never satisfying) otherwise. A release
  presented with the current generation succeeds once; afterwards the contract is unsatisfied
  and a second release is rejected as a double release.
\<close>

theorem grant_lifecycle:
  "fst (applyGrant g c) = Outcome.ALLOW \<and>
   (rg_status (rc_grant (snd (applyGrant g c))) = GrantStatus.GRANTED
      \<longleftrightarrow> rg_contractGeneration g = rc_generation c) \<and>
   (rg_contractGeneration g \<noteq> rc_generation c \<longrightarrow> \<not> satisfied (snd (applyGrant g c))) \<and>
   (\<not> rg_released g \<longrightarrow>
      (let c1 = snd (applyGrant g c); r1 = releaseGrant (rc_generation c) c1; c2 = snd r1
       in fst r1 = Outcome.ALLOW \<and> \<not> satisfied c2 \<and>
          releaseGrant (rc_generation c) c2 = (Outcome.REJECT_RESOURCE_DOUBLE_RELEASE, c2)))"
  by (auto simp: applyGrant_def releaseGrant_def satisfied_def Let_def)

theorem grant_lifecycle_witness:
  "\<not> satisfied (snd (applyGrant (example_grant 7) example_contract)) \<and>
   fst (releaseGrant (UniqueValue 1) (snd (applyGrant (example_grant 1) example_contract))) = Outcome.ALLOW"
  using grant_lifecycle [of "example_grant 7" example_contract]
    grant_lifecycle [of "example_grant 1" example_contract]
  by (simp add: Let_def example_defs)

text \<open>
  A requirement whose \<open>maxValue\<close> is zero has no upper bound: every
  amount that is not below the minimum satisfies it.
\<close>

theorem satisfies_open_above:
  assumes "rr_level r \<noteq> NeedLevel.PROHIBITED" and "rr_maxValue r = f64_zero"
  shows "satisfies r v \<longleftrightarrow> \<not> f64_less v (rr_minValue r)"
  using assms by (simp add: satisfies_def)

theorem satisfies_open_above_witness:
  "satisfies (example_requirement NeedLevel.REQUIRED ResourceKind.CPU_CAPACITY 0x3FF0000000000000)
     (F64 0x4059000000000000)"
  by (subst satisfies_open_above) (simp_all add: example_defs f64_less_def f64_key_def)

text \<open>
  The reported requirement is the first \<open>REQUIRED\<close> one
  that no binding of the grant meets; none is reported exactly when all are met.
\<close>

theorem firstUnsatisfiedRequired_spec:
  "case firstUnsatisfiedRequired c of
     None \<Rightarrow> required_met (rc_reqs c) (rg_bindings (rc_grant c))
   | Some r \<Rightarrow> \<not> satisfied c \<and>
       (\<exists>pre post. rc_reqs c = pre @ r # post \<and> required_met pre (rg_bindings (rc_grant c)) \<and>
          rr_level r = NeedLevel.REQUIRED \<and> \<not> binding_found r (rg_bindings (rc_grant c)))"
proof (cases "firstUnsatisfiedRequired c")
  case None
  then have "required_met (rc_reqs c) (rg_bindings (rc_grant c))"
    by (simp add: firstUnsatisfiedRequired_def first_unmet_None)
  with None show ?thesis by simp
next
  case (Some r)
  then have f: "first_unmet (rc_reqs c) (rg_bindings (rc_grant c)) = Some r"
    by (simp add: firstUnsatisfiedRequired_def)
  then have "\<not> required_met (rc_reqs c) (rg_bindings (rc_grant c))"
    by (simp flip: first_unmet_None)
  then have "\<not> satisfied c" by (simp add: satisfied_def)
  with first_unmet_Some [OF f] Some show ?thesis by simp
qed

end
