(* ===== verification/Dependencies.thy ===== *)
theory Dependencies
  imports Identity Outcomes
begin

text \<open>
  Dependency sets (\<open>dependency.hpp\<close>, \<open>dependencies.cpp\<close>): edges to other workloads
  with their live status, the fenced status update and the readiness gate.
\<close>

section \<open>Vocabulary\<close>

datatype DependencyRequirement =
    REQUIRED | OPTIONAL

primrec dependencyRequirement_code :: "DependencyRequirement \<Rightarrow> nat" where
  "dependencyRequirement_code DependencyRequirement.REQUIRED = 0"
| "dependencyRequirement_code DependencyRequirement.OPTIONAL = 1"

definition dependencyRequirement_values :: "DependencyRequirement list" where
  "dependencyRequirement_values = [
    DependencyRequirement.REQUIRED, DependencyRequirement.OPTIONAL]"

definition kReq :: "string list" where
  "kReq = [
    ''REQUIRED'', ''OPTIONAL'']"

definition dependencyRequirementName :: "DependencyRequirement \<Rightarrow> string" where
  "dependencyRequirementName s = name_of kReq (dependencyRequirement_code s)"

interpretation dependencyRequirement: named_enum dependencyRequirement_values dependencyRequirement_code kReq
proof
  show "map dependencyRequirement_code dependencyRequirement_values = [0..<length dependencyRequirement_values]"
    by (simp add: dependencyRequirement_values_def upt_rec)
  show "x \<in> set dependencyRequirement_values" for x
    by (cases x) (simp_all add: dependencyRequirement_values_def)
  show "length dependencyRequirement_values \<le> 256"
    by (simp add: dependencyRequirement_values_def)
  show "length kReq = length dependencyRequirement_values"
    by (simp add: kReq_def dependencyRequirement_values_def)
  show "distinct kReq"
    by (simp add: kReq_def)
qed

lemma dependencyRequirement_max: "length dependencyRequirement_values = 2"
  by (simp add: dependencyRequirement_values_def)

datatype DependencyReady =
    COMPLETED | READY | ARTIFACT_READY

primrec dependencyReady_code :: "DependencyReady \<Rightarrow> nat" where
  "dependencyReady_code DependencyReady.COMPLETED = 0"
| "dependencyReady_code DependencyReady.READY = 1"
| "dependencyReady_code DependencyReady.ARTIFACT_READY = 2"

definition dependencyReady_values :: "DependencyReady list" where
  "dependencyReady_values = [
    DependencyReady.COMPLETED, DependencyReady.READY, DependencyReady.ARTIFACT_READY]"

definition kReady :: "string list" where
  "kReady = [
    ''COMPLETED'', ''READY'', ''ARTIFACT_READY'']"

definition dependencyReadyName :: "DependencyReady \<Rightarrow> string" where
  "dependencyReadyName s = name_of kReady (dependencyReady_code s)"

interpretation dependencyReady: named_enum dependencyReady_values dependencyReady_code kReady
proof
  show "map dependencyReady_code dependencyReady_values = [0..<length dependencyReady_values]"
    by (simp add: dependencyReady_values_def upt_rec)
  show "x \<in> set dependencyReady_values" for x
    by (cases x) (simp_all add: dependencyReady_values_def)
  show "length dependencyReady_values \<le> 256"
    by (simp add: dependencyReady_values_def)
  show "length kReady = length dependencyReady_values"
    by (simp add: kReady_def dependencyReady_values_def)
  show "distinct kReady"
    by (simp add: kReady_def)
qed

lemma dependencyReady_max: "length dependencyReady_values = 3"
  by (simp add: dependencyReady_values_def)

datatype DependencyStatus =
    PENDING | SATISFIED | FAILED | INVALIDATED | STALE

primrec dependencyStatus_code :: "DependencyStatus \<Rightarrow> nat" where
  "dependencyStatus_code DependencyStatus.PENDING = 0"
| "dependencyStatus_code DependencyStatus.SATISFIED = 1"
| "dependencyStatus_code DependencyStatus.FAILED = 2"
| "dependencyStatus_code DependencyStatus.INVALIDATED = 3"
| "dependencyStatus_code DependencyStatus.STALE = 4"

definition dependencyStatus_values :: "DependencyStatus list" where
  "dependencyStatus_values = [
    DependencyStatus.PENDING, DependencyStatus.SATISFIED, DependencyStatus.FAILED,
    DependencyStatus.INVALIDATED, DependencyStatus.STALE]"

definition kDepSt :: "string list" where
  "kDepSt = [
    ''PENDING'', ''SATISFIED'', ''FAILED'', ''INVALIDATED'', ''STALE'']"

definition dependencyStatusName :: "DependencyStatus \<Rightarrow> string" where
  "dependencyStatusName s = name_of kDepSt (dependencyStatus_code s)"

interpretation dependencyStatus: named_enum dependencyStatus_values dependencyStatus_code kDepSt
proof
  show "map dependencyStatus_code dependencyStatus_values = [0..<length dependencyStatus_values]"
    by (simp add: dependencyStatus_values_def upt_rec)
  show "x \<in> set dependencyStatus_values" for x
    by (cases x) (simp_all add: dependencyStatus_values_def)
  show "length dependencyStatus_values \<le> 256"
    by (simp add: dependencyStatus_values_def)
  show "length kDepSt = length dependencyStatus_values"
    by (simp add: kDepSt_def dependencyStatus_values_def)
  show "distinct kDepSt"
    by (simp add: kDepSt_def)
qed

lemma dependencyStatus_max: "length dependencyStatus_values = 5"
  by (simp add: dependencyStatus_values_def)

record DependencyDef =
  dd_dependsOn :: WorkloadId
  dd_requirement :: DependencyRequirement
  dd_readyWhen :: DependencyReady
  dd_artifactKey :: string

record DependencyState =
  ds_status :: DependencyStatus
  ds_observedGeneration :: DependencyGeneration
  ds_detail :: string

record DependencySet =
  dset_id :: DependencySetId
  dset_gen :: DependencyGeneration
  dset_defs :: "DependencyDef list"
  dset_states :: "DependencyState list"

definition default_dependency_state :: DependencyState where
  "default_dependency_state = \<lparr>ds_status = DependencyStatus.PENDING,
     ds_observedGeneration = no_value, ds_detail = []\<rparr>"

definition new_dependency_set :: "DependencySetId \<Rightarrow> DependencyGeneration \<Rightarrow> DependencySet" where
  "new_dependency_set i g = \<lparr>dset_id = i, dset_gen = g, dset_defs = [], dset_states = []\<rparr>"

section \<open>Operations\<close>

definition define_dependency :: "DependencyDef \<Rightarrow> DependencySet \<Rightarrow> Outcome \<times> DependencySet" where
  "define_dependency d s =
     (Outcome.ALLOW,
      s\<lparr>dset_defs := dset_defs s @ [d],
        dset_states := dset_states s @ [default_dependency_state],
        dset_gen := next_gen (dset_gen s)\<rparr>)"

definition clear_dependencies :: "DependencySet \<Rightarrow> Outcome \<times> DependencySet" where
  "clear_dependencies s =
     (Outcome.ALLOW, s\<lparr>dset_defs := [], dset_states := [], dset_gen := next_gen (dset_gen s)\<rparr>)"

definition setStatus ::
  "nat \<Rightarrow> DependencyStatus \<Rightarrow> DependencyGeneration \<Rightarrow> DependencySet \<Rightarrow> Outcome \<times> DependencySet" where
  "setStatus index status observed s =
     (if index \<ge> length (dset_states s) then (Outcome.REJECT_UNKNOWN_DEPENDENCY, s)
      else if toU64 observed < toU64 (ds_observedGeneration (dset_states s ! index))
      then (Outcome.REJECT_STALE_DEPENDENCY, s)
      else (Outcome.ALLOW,
            s\<lparr>dset_states := (dset_states s)[index :=
                 (dset_states s ! index)\<lparr>ds_status := status, ds_observedGeneration := observed\<rparr>]\<rparr>))"

text \<open>
  Both queries scan the indices of \<open>defs_\<close> and read \<open>states_[i]\<close>. The two vectors have
  the same length in every set the operations produce (\<open>dset_wf\<close>), so the reads are in range.
\<close>

definition unmet_at :: "DependencySet \<Rightarrow> nat \<Rightarrow> bool" where
  "unmet_at s i \<longleftrightarrow>
     dd_requirement (dset_defs s ! i) = DependencyRequirement.REQUIRED \<and>
     ds_status (dset_states s ! i) \<noteq> DependencyStatus.SATISFIED"

fun first_unmet_index :: "DependencySet \<Rightarrow> nat list \<Rightarrow> nat option" where
  "first_unmet_index s [] = None"
| "first_unmet_index s (i # is) = (if unmet_at s i then Some i else first_unmet_index s is)"

definition deps_ready :: "DependencySet \<Rightarrow> bool" where
  "deps_ready s = list_all (\<lambda>i. \<not> unmet_at s i) [0..<length (dset_defs s)]"

definition firstUnmetRequired :: "DependencySet \<Rightarrow> nat option" where
  "firstUnmetRequired s = first_unmet_index s [0..<length (dset_defs s)]"

definition dset_wf :: "DependencySet \<Rightarrow> bool" where
  "dset_wf s \<longleftrightarrow> length (dset_states s) = length (dset_defs s)"

section \<open>Facts\<close>

lemma first_unmet_index_None: "first_unmet_index s is = None \<longleftrightarrow> list_all (\<lambda>i. \<not> unmet_at s i) is"
  by (induction "is") auto

lemma first_unmet_index_Some:
  "first_unmet_index s [m..<n] = Some i \<Longrightarrow> m \<le> i \<and> i < n \<and> unmet_at s i \<and> (\<forall>j. m \<le> j \<and> j < i \<longrightarrow> \<not> unmet_at s j)"
proof (induction "n - m" arbitrary: m)
  case (Suc d)
  then have m: "m < n" by simp
  show ?case
  proof (cases "unmet_at s m")
    case True
    with Suc.prems m show ?thesis by (auto simp: upt_conv_Cons)
  next
    case False
    with Suc.prems m have "first_unmet_index s [Suc m..<n] = Some i" by (simp add: upt_conv_Cons)
    moreover have "d = n - Suc m" using Suc.hyps(2) by simp
    ultimately have IH: "Suc m \<le> i \<and> i < n \<and> unmet_at s i \<and> (\<forall>j. Suc m \<le> j \<and> j < i \<longrightarrow> \<not> unmet_at s j)"
      using Suc.hyps(1) by blast
    with False show ?thesis by (metis Suc_leI Suc_le_lessD le_neq_implies_less less_imp_le)
  qed
qed simp

lemma deps_ready_iff: "deps_ready s \<longleftrightarrow> (\<forall>i<length (dset_defs s). \<not> unmet_at s i)"
  by (auto simp: deps_ready_def list_all_iff)

lemma dset_wf_new [simp]: "dset_wf (new_dependency_set i g)"
  by (simp add: dset_wf_def new_dependency_set_def)

lemma dset_wf_ops:
  "dset_wf s \<Longrightarrow> dset_wf (snd (define_dependency d s))"
  "dset_wf (snd (clear_dependencies s))"
  "dset_wf s \<Longrightarrow> dset_wf (snd (setStatus i st g s))"
  by (simp_all add: dset_wf_def define_dependency_def clear_dependencies_def setStatus_def)

lemma deps_ready_define:
  assumes "dset_wf s"
  shows "deps_ready (snd (define_dependency d s)) \<longleftrightarrow>
    deps_ready s \<and> dd_requirement d = DependencyRequirement.OPTIONAL"
proof -
  let ?t = "snd (define_dependency d s)"
  have old: "unmet_at ?t j \<longleftrightarrow> unmet_at s j" if "j < length (dset_defs s)" for j
    using that assms by (simp add: unmet_at_def define_dependency_def nth_append dset_wf_def)
  have new: "unmet_at ?t (length (dset_defs s)) \<longleftrightarrow> dd_requirement d = DependencyRequirement.REQUIRED"
    using assms by (simp add: unmet_at_def define_dependency_def nth_append dset_wf_def
        default_dependency_state_def)
  have two: "dd_requirement d \<noteq> DependencyRequirement.REQUIRED \<longleftrightarrow>
      dd_requirement d = DependencyRequirement.OPTIONAL"
    by (cases "dd_requirement d") simp_all
  have len: "length (dset_defs ?t) = Suc (length (dset_defs s))"
    by (simp add: define_dependency_def)
  show ?thesis
    using old new two by (auto simp: deps_ready_iff len All_less_Suc)
qed

section \<open>Properties\<close>

text \<open>Neither query looks at a generation, that of the set or those the states were observed in.\<close>

definition observed_in :: "DependencyGeneration \<Rightarrow> DependencyGeneration \<Rightarrow> DependencySet \<Rightarrow> DependencySet" where
  "observed_in g h s =
     s\<lparr>dset_gen := g, dset_states := map (\<lambda>st. st\<lparr>ds_observedGeneration := h\<rparr>) (dset_states s)\<rparr>"

lemma unmet_at_observed: "dset_wf s \<Longrightarrow> i < length (dset_defs s) \<Longrightarrow> unmet_at (observed_in g h s) i = unmet_at s i"
  by (simp add: unmet_at_def observed_in_def dset_wf_def)

text \<open>
  C38. A well-formed set is ready exactly when every REQUIRED edge has the status SATISFIED,
  whatever the generation of the set is and whatever generation the statuses were observed in:
  giving the set any generation and its states any observed generation does not change the answer.
  \<open>firstUnmetRequired\<close> names the least index of a REQUIRED edge that is not SATISFIED, and
  none exactly when the set is ready. (The comment on \<open>ready\<close> asks for satisfaction in the
  current set generation, which the code does not check.)
\<close>

theorem deps_ready_spec:
  assumes "dset_wf s"
  shows "(deps_ready s \<longleftrightarrow>
      (\<forall>(d, st)\<in>set (zip (dset_defs s) (dset_states s)).
         dd_requirement d = DependencyRequirement.REQUIRED \<longrightarrow> ds_status st = DependencyStatus.SATISFIED)) \<and>
    (deps_ready (observed_in g h s) \<longleftrightarrow> deps_ready s) \<and>
    (firstUnmetRequired s = None \<longleftrightarrow> deps_ready s) \<and>
    (\<forall>i. firstUnmetRequired s = Some i \<longrightarrow>
       i < length (dset_states s) \<and> unmet_at s i \<and> (\<forall>j<i. \<not> unmet_at s j))"
proof (intro conjI allI impI)
  show "deps_ready s \<longleftrightarrow>
      (\<forall>(d, st)\<in>set (zip (dset_defs s) (dset_states s)).
         dd_requirement d = DependencyRequirement.REQUIRED \<longrightarrow> ds_status st = DependencyStatus.SATISFIED)"
    using assms by (auto simp: deps_ready_iff unmet_at_def set_zip dset_wf_def)
  show "deps_ready (observed_in g h s) \<longleftrightarrow> deps_ready s"
  proof -
    have "dset_defs (observed_in g h s) = dset_defs s" by (simp add: observed_in_def)
    then show ?thesis using unmet_at_observed [OF assms] by (simp add: deps_ready_iff)
  qed
  show "firstUnmetRequired s = None \<longleftrightarrow> deps_ready s"
    by (simp add: firstUnmetRequired_def first_unmet_index_None deps_ready_def)
next
  fix i assume "firstUnmetRequired s = Some i"
  then have "i < length (dset_defs s) \<and> unmet_at s i \<and> (\<forall>j<i. \<not> unmet_at s j)"
    using first_unmet_index_Some [of s 0 "length (dset_defs s)" i]
    by (simp add: firstUnmetRequired_def)
  with assms show "i < length (dset_states s)" "unmet_at s i" "\<And>j. j < i \<Longrightarrow> \<not> unmet_at s j"
    by (simp_all add: dset_wf_def)
qed

definition example_dependency :: "DependencyRequirement \<Rightarrow> DependencyDef" where
  "example_dependency r = \<lparr>dd_dependsOn = UniqueValue 2, dd_requirement = r,
     dd_readyWhen = DependencyReady.COMPLETED, dd_artifactKey = []\<rparr>"

definition example_deps :: DependencySet where
  "example_deps = snd (define_dependency (example_dependency DependencyRequirement.REQUIRED)
     (snd (define_dependency (example_dependency DependencyRequirement.OPTIONAL)
        (new_dependency_set (UniqueValue 1) (UniqueValue 1)))))"

theorem deps_ready_spec_witness: "\<not> deps_ready example_deps \<and> firstUnmetRequired example_deps = Some 1"
proof -
  have wf: "dset_wf example_deps" by (simp add: example_deps_def dset_wf_ops)
  have f: "firstUnmetRequired example_deps = Some 1"
    by (simp add: firstUnmetRequired_def example_deps_def define_dependency_def new_dependency_set_def
        unmet_at_def example_dependency_def default_dependency_state_def upt_rec)
  with deps_ready_spec [OF wf, of "UniqueValue 9" "UniqueValue 1"] show ?thesis by (metis option.distinct(1))
qed

text \<open>
  C40. An observation older than the one recorded for an edge is rejected and
  changes nothing, so a late observer can neither unblock nor re-block a workload; an accepted
  observation changes exactly its edge, never lowers the recorded generation and keeps the set
  well-formed, with its identity, its definitions and its own generation.
\<close>

theorem setStatus_fenced:
  assumes "dset_wf s" and "setStatus i st g s = (out, s')"
  shows "dset_wf s' \<and> dset_defs s' = dset_defs s \<and> dset_id s' = dset_id s \<and> dset_gen s' = dset_gen s \<and>
    (out \<noteq> Outcome.ALLOW \<longrightarrow> s' = s) \<and>
    (out = Outcome.ALLOW \<longleftrightarrow>
       i < length (dset_defs s) \<and> toU64 (ds_observedGeneration (dset_states s ! i)) \<le> toU64 g) \<and>
    (out = Outcome.ALLOW \<longrightarrow> ds_status (dset_states s' ! i) = st \<and>
       ds_observedGeneration (dset_states s' ! i) = g) \<and>
    (\<forall>j<length (dset_defs s).
       ds_observedGeneration (dset_states s ! j) \<le> ds_observedGeneration (dset_states s' ! j) \<and>
       (j \<noteq> i \<longrightarrow> dset_states s' ! j = dset_states s ! j))"
  using assms
  by (auto simp: setStatus_def dset_wf_def nth_list_update less_eq_unique_value_def not_less
      split: if_splits)

theorem setStatus_fenced_witness:
  "\<exists>s'. setStatus 1 DependencyStatus.SATISFIED (UniqueValue 3) example_deps = (Outcome.ALLOW, s') \<and>
        dset_wf s' \<and> ds_status (dset_states s' ! 1) = DependencyStatus.SATISFIED"
proof -
  have wf: "dset_wf example_deps" by (simp add: example_deps_def dset_wf_ops)
  obtain s' where s': "setStatus 1 DependencyStatus.SATISFIED (UniqueValue 3) example_deps = (Outcome.ALLOW, s')"
    by (simp add: setStatus_def example_deps_def define_dependency_def new_dependency_set_def
        default_dependency_state_def)
  from setStatus_fenced [OF wf s'] s' show ?thesis by blast
qed

text \<open>
  Defining an \<open>OPTIONAL\<close> edge, or changing its status to
  anything at all, never changes whether a set is ready; defining a \<open>REQUIRED\<close> edge
  always makes it not ready until that edge is observed.
\<close>

theorem optional_never_blocks:
  assumes "dset_wf s"
  shows "(deps_ready (snd (define_dependency d s)) \<longleftrightarrow>
      deps_ready s \<and> dd_requirement d = DependencyRequirement.OPTIONAL) \<and>
    (i < length (dset_defs s) \<and> dd_requirement (dset_defs s ! i) = DependencyRequirement.OPTIONAL \<longrightarrow>
      (deps_ready (snd (setStatus i st g s)) \<longleftrightarrow> deps_ready s))"
proof (intro conjI impI)
  show "deps_ready (snd (define_dependency d s)) \<longleftrightarrow>
      deps_ready s \<and> dd_requirement d = DependencyRequirement.OPTIONAL"
    using assms by (rule deps_ready_define)
next
  assume "i < length (dset_defs s) \<and> dd_requirement (dset_defs s ! i) = DependencyRequirement.OPTIONAL"
  then have "unmet_at (snd (setStatus i st g s)) j \<longleftrightarrow> unmet_at s j" for j
    by (cases "j = i") (simp_all add: unmet_at_def setStatus_def nth_list_update)
  then show "deps_ready (snd (setStatus i st g s)) \<longleftrightarrow> deps_ready s"
    by (simp add: deps_ready_iff setStatus_def)
qed

theorem optional_never_blocks_witness:
  "\<not> deps_ready (snd (define_dependency (example_dependency DependencyRequirement.REQUIRED)
      (new_dependency_set (UniqueValue 1) (UniqueValue 1)))) \<and>
   (deps_ready (snd (setStatus 0 DependencyStatus.FAILED (UniqueValue 5) example_deps)) \<longleftrightarrow> deps_ready example_deps)"
proof -
  have wf: "dset_wf example_deps" by (simp add: example_deps_def dset_wf_ops)
  have "deps_ready (snd (setStatus 0 DependencyStatus.FAILED (UniqueValue 5) example_deps)) \<longleftrightarrow> deps_ready example_deps"
    using optional_never_blocks [OF wf, of "example_dependency DependencyRequirement.REQUIRED" 0
        DependencyStatus.FAILED "UniqueValue 5"]
    by (simp add: example_deps_def define_dependency_def new_dependency_set_def example_dependency_def)
  moreover have "\<not> deps_ready (snd (define_dependency (example_dependency DependencyRequirement.REQUIRED)
      (new_dependency_set (UniqueValue 1) (UniqueValue 1))))"
    using optional_never_blocks [of "new_dependency_set (UniqueValue 1) (UniqueValue 1)"
        "example_dependency DependencyRequirement.REQUIRED"]
    by (simp add: example_dependency_def)
  ultimately show ?thesis by simp
qed

end
