(* ===== verification/Priorities.thy ===== *)
theory Priorities
  imports Identity
begin

text \<open>
  Workload priority (\<open>priority.hpp\<close>, \<open>priority.cpp\<close>). The \<open>int\<close> fields are 32-bit
  words read with \<open>sint\<close>; an addition that overflows is undefined behaviour and gives
  \<open>None\<close>.
\<close>

section \<open>Vocabulary and state\<close>

datatype PriorityTier =
    LOWEST | LOW | NORMAL | HIGH | CRITICAL | SYSTEM

primrec priorityTier_code :: "PriorityTier \<Rightarrow> nat" where
  "priorityTier_code PriorityTier.LOWEST = 0"
| "priorityTier_code PriorityTier.LOW = 1"
| "priorityTier_code PriorityTier.NORMAL = 2"
| "priorityTier_code PriorityTier.HIGH = 3"
| "priorityTier_code PriorityTier.CRITICAL = 4"
| "priorityTier_code PriorityTier.SYSTEM = 5"

definition priorityTier_values :: "PriorityTier list" where
  "priorityTier_values = [
    PriorityTier.LOWEST, PriorityTier.LOW, PriorityTier.NORMAL, PriorityTier.HIGH,
    PriorityTier.CRITICAL, PriorityTier.SYSTEM]"

definition kTier :: "string list" where
  "kTier = [
    ''LOWEST'', ''LOW'', ''NORMAL'', ''HIGH'', ''CRITICAL'', ''SYSTEM'']"

definition priorityTierName :: "PriorityTier \<Rightarrow> string" where
  "priorityTierName s = name_of kTier (priorityTier_code s)"

interpretation priorityTier: named_enum priorityTier_values priorityTier_code kTier
proof
  show "map priorityTier_code priorityTier_values = [0..<length priorityTier_values]"
    by (simp add: priorityTier_values_def upt_rec)
  show "x \<in> set priorityTier_values" for x
    by (cases x) (simp_all add: priorityTier_values_def)
  show "length priorityTier_values \<le> 256"
    by (simp add: priorityTier_values_def)
  show "length kTier = length priorityTier_values"
    by (simp add: kTier_def priorityTier_values_def)
  show "distinct kTier"
    by (simp add: kTier_def)
qed

lemma priorityTier_max: "length priorityTier_values = 6"
  by (simp add: priorityTier_values_def)

definition tierRank :: "PriorityTier \<Rightarrow> int" where
  "tierRank t = int (priorityTier_code t)"

record Priority =
  pr_cls :: PriorityClass
  pr_gen :: PriorityGeneration
  pr_baseTier :: PriorityTier
  pr_baseValue :: i32
  pr_promotion :: i32
  pr_starved :: bool
  pr_preemptible :: bool
  pr_protected :: bool

definition default_priority :: Priority where
  "default_priority = \<lparr>pr_cls = no_value, pr_gen = no_value, pr_baseTier = PriorityTier.NORMAL,
     pr_baseValue = 0, pr_promotion = 0, pr_starved = False, pr_preemptible = True,
     pr_protected = False\<rparr>"

section \<open>Operations\<close>

definition setBase :: "PriorityClass \<Rightarrow> PriorityTier \<Rightarrow> i32 \<Rightarrow> Priority \<Rightarrow> Priority" where
  "setBase cls tier priority p =
     p\<lparr>pr_cls := cls, pr_baseTier := tier, pr_baseValue := priority, pr_gen := next_gen (pr_gen p)\<rparr>"

definition promote :: "i32 \<Rightarrow> Priority \<Rightarrow> Priority option" where
  "promote delta p =
     (if sint delta \<le> 0 then Some p
      else case add_i32 (pr_promotion p) delta of
             None \<Rightarrow> None
           | Some v \<Rightarrow> Some (p\<lparr>pr_promotion := v, pr_gen := next_gen (pr_gen p)\<rparr>))"

definition demote :: "i32 \<Rightarrow> Priority \<Rightarrow> Priority option" where
  "demote delta p =
     (if sint delta \<le> 0 then Some p
      else case sub_i32 (pr_promotion p) delta of
             None \<Rightarrow> None
           | Some v \<Rightarrow> Some (p\<lparr>pr_promotion := v, pr_gen := next_gen (pr_gen p)\<rparr>))"

definition markStarved :: "Priority \<Rightarrow> Priority" where
  "markStarved p = p\<lparr>pr_starved := True, pr_gen := next_gen (pr_gen p)\<rparr>"

definition effectiveValue :: "Priority \<Rightarrow> i32 option" where
  "effectiveValue p =
     (case add_i32 (pr_baseValue p) (pr_promotion p) of
        None \<Rightarrow> None
      | Some v \<Rightarrow> if pr_starved p then add_i32 v 1000 else Some v)"

definition mayBePreempted :: "Priority \<Rightarrow> bool" where
  "mayBePreempted p \<longleftrightarrow> pr_preemptible p \<and> \<not> pr_protected p"

definition setProtected :: "bool \<Rightarrow> Priority \<Rightarrow> Priority" where
  "setProtected b p = p\<lparr>pr_protected := b\<rparr>"

section \<open>Facts\<close>

lemma effectiveValue_sint:
  "effectiveValue p = Some v \<Longrightarrow>
     sint v = sint (pr_baseValue p) + sint (pr_promotion p) + (if pr_starved p then 1000 else 0)"
  by (auto simp: effectiveValue_def add_i32_Some split: option.splits if_splits)

lemma promote_effective:
  assumes "promote d p = Some q" "effectiveValue p = Some v" "effectiveValue q = Some w"
  shows "sint w = sint v + max 0 (sint d)"
  using assms
  by (auto simp: promote_def add_i32_Some dest!: effectiveValue_sint split: if_splits option.splits)

text \<open>
  The tier has no part in the decision: a CRITICAL or SYSTEM workload may be preempted as long as
  nobody has protected it.
\<close>

lemma tier_does_not_protect: "mayBePreempted (setBase cls tier v p) \<longleftrightarrow> mayBePreempted p"
  by (simp add: mayBePreempted_def setBase_def)

lemma critical_may_be_preempted: "mayBePreempted (setBase cls PriorityTier.CRITICAL v default_priority)"
  by (simp add: mayBePreempted_def setBase_def default_priority_def)

end
