(* ===== verification/Progress.thy ===== *)
theory Progress
  imports Identity
begin

text \<open>
  Workload progress (\<open>progress.hpp\<close>, \<open>progress.cpp\<close>): 64-bit counters with the overflow
  guard of \<open>advance\<close> and the regression guard of \<open>reconcile\<close>.
\<close>

section \<open>Vocabulary and state\<close>

datatype TotalKind =
    KNOWN | UNKNOWN

primrec totalKind_code :: "TotalKind \<Rightarrow> nat" where
  "totalKind_code TotalKind.KNOWN = 0"
| "totalKind_code TotalKind.UNKNOWN = 1"

definition totalKind_values :: "TotalKind list" where
  "totalKind_values = [
    TotalKind.KNOWN, TotalKind.UNKNOWN]"

definition kTotal :: "string list" where
  "kTotal = [
    ''KNOWN'', ''UNKNOWN'']"

definition totalKindName :: "TotalKind \<Rightarrow> string" where
  "totalKindName s = name_of kTotal (totalKind_code s)"

interpretation totalKind: named_enum totalKind_values totalKind_code kTotal
proof
  show "map totalKind_code totalKind_values = [0..<length totalKind_values]"
    by (simp add: totalKind_values_def upt_rec)
  show "x \<in> set totalKind_values" for x
    by (cases x) (simp_all add: totalKind_values_def)
  show "length totalKind_values \<le> 256"
    by (simp add: totalKind_values_def)
  show "length kTotal = length totalKind_values"
    by (simp add: kTotal_def totalKind_values_def)
  show "distinct kTotal"
    by (simp add: kTotal_def)
qed

lemma totalKind_max: "length totalKind_values = 2"
  by (simp add: totalKind_values_def)

datatype ProgressProvenance =
    DURABLE_KNOWN | RECONSTRUCTED | ESTIMATED | UNAVAILABLE

primrec progressProvenance_code :: "ProgressProvenance \<Rightarrow> nat" where
  "progressProvenance_code ProgressProvenance.DURABLE_KNOWN = 0"
| "progressProvenance_code ProgressProvenance.RECONSTRUCTED = 1"
| "progressProvenance_code ProgressProvenance.ESTIMATED = 2"
| "progressProvenance_code ProgressProvenance.UNAVAILABLE = 3"

definition progressProvenance_values :: "ProgressProvenance list" where
  "progressProvenance_values = [
    ProgressProvenance.DURABLE_KNOWN, ProgressProvenance.RECONSTRUCTED,
    ProgressProvenance.ESTIMATED, ProgressProvenance.UNAVAILABLE]"

definition kProv :: "string list" where
  "kProv = [
    ''DURABLE_KNOWN'', ''RECONSTRUCTED'', ''ESTIMATED'', ''UNAVAILABLE'']"

definition progressProvenanceName :: "ProgressProvenance \<Rightarrow> string" where
  "progressProvenanceName s = name_of kProv (progressProvenance_code s)"

interpretation progressProvenance: named_enum progressProvenance_values progressProvenance_code kProv
proof
  show "map progressProvenance_code progressProvenance_values = [0..<length progressProvenance_values]"
    by (simp add: progressProvenance_values_def upt_rec)
  show "x \<in> set progressProvenance_values" for x
    by (cases x) (simp_all add: progressProvenance_values_def)
  show "length progressProvenance_values \<le> 256"
    by (simp add: progressProvenance_values_def)
  show "length kProv = length progressProvenance_values"
    by (simp add: kProv_def progressProvenance_values_def)
  show "distinct kProv"
    by (simp add: kProv_def)
qed

lemma progressProvenance_max: "length progressProvenance_values = 4"
  by (simp add: progressProvenance_values_def)

record Progress =
  pg_completed :: u64
  pg_totalKind :: TotalKind
  pg_total :: u64
  pg_checkpointed :: u64
  pg_provenance :: ProgressProvenance
  pg_lastAuthoritativeGeneration :: u64
  pg_monotonic :: bool

definition default_progress :: Progress where
  "default_progress = \<lparr>pg_completed = 0, pg_totalKind = TotalKind.UNKNOWN, pg_total = 0,
     pg_checkpointed = 0, pg_provenance = ProgressProvenance.DURABLE_KNOWN,
     pg_lastAuthoritativeGeneration = 0, pg_monotonic = True\<rparr>"

section \<open>Operations\<close>

definition advance :: "u64 \<Rightarrow> bool \<Rightarrow> Progress \<Rightarrow> bool \<times> Progress" where
  "advance delta durable p =
     (if (- 1) - pg_completed p < delta then (False, p)
      else
        let p = p\<lparr>pg_completed := pg_completed p + delta\<rparr>;
            p = (if durable
                 then p\<lparr>pg_checkpointed := pg_completed p,
                        pg_provenance := ProgressProvenance.DURABLE_KNOWN\<rparr>
                 else p)
        in (True, p\<lparr>pg_lastAuthoritativeGeneration := pg_lastAuthoritativeGeneration p + 1\<rparr>))"

definition reconcile :: "u64 \<Rightarrow> bool \<Rightarrow> ProgressProvenance \<Rightarrow> Progress \<Rightarrow> bool \<times> Progress" where
  "reconcile recovered durable prov p =
     (if pg_monotonic p \<and> recovered < pg_completed p then (False, p)
      else
        let p = p\<lparr>pg_completed := recovered, pg_provenance := prov\<rparr>;
            p = (if durable then p\<lparr>pg_checkpointed := recovered\<rparr> else p)
        in (True, p\<lparr>pg_lastAuthoritativeGeneration := pg_lastAuthoritativeGeneration p + 1\<rparr>))"

definition progress_complete :: "Progress \<Rightarrow> bool" where
  "progress_complete p \<longleftrightarrow> pg_totalKind p = TotalKind.KNOWN \<and> pg_completed p \<ge> pg_total p"

section \<open>Facts\<close>

lemma advance_fails_iff: "\<not> fst (advance d b p) \<longleftrightarrow> 2 ^ 64 \<le> unat (pg_completed p) + unat d"
  by (simp add: advance_def Let_def overflow_guard_iff)

lemma advance_rejected [simp]: "fst (advance d b p) = False \<Longrightarrow> snd (advance d b p) = p"
  by (auto simp: advance_def Let_def)

lemma advance_completed:
  "fst (advance d b p) \<Longrightarrow> unat (pg_completed (snd (advance d b p))) = unat (pg_completed p) + unat d"
  using advance_fails_iff [of d b p] unat_add_no_wrap [of "pg_completed p" d]
  by (auto simp: advance_def Let_def split: if_splits)

lemma advance_mono: "pg_completed p \<le> pg_completed (snd (advance d b p))"
proof (cases "fst (advance d b p)")
  case True
  then show ?thesis by (simp add: word_le_nat_alt advance_completed)
qed simp

lemma advance_frame [frame]:
  "pg_totalKind (snd (advance d b p)) = pg_totalKind p"
  "pg_total (snd (advance d b p)) = pg_total p"
  "pg_monotonic (snd (advance d b p)) = pg_monotonic p"
  by (simp_all add: advance_def Let_def)

lemma reconcile_mono: "pg_monotonic p \<Longrightarrow> pg_completed p \<le> pg_completed (snd (reconcile r b v p))"
  by (auto simp: reconcile_def Let_def)

end
