(* ===== verification/Policies.thy ===== *)
theory Policies
  imports Identity
begin

text \<open>
  Lifecycle policies (\<open>policy.hpp\<close>, \<open>policy_names.cpp\<close>): the policy records with the
  defaults of the code, and the restart-limit predicate.
\<close>

section \<open>Vocabulary\<close>

datatype RestartKind =
    NEVER | ON_KNOWN_FAILURE | ON_WORKER_LOSS | ON_INFRASTRUCTURE_FAILURE | ON_AMBIGUOUS_EXECUTION |
    ALWAYS_WITH_LIMIT | MANUAL_ONLY

primrec restartKind_code :: "RestartKind \<Rightarrow> nat" where
  "restartKind_code RestartKind.NEVER = 0"
| "restartKind_code RestartKind.ON_KNOWN_FAILURE = 1"
| "restartKind_code RestartKind.ON_WORKER_LOSS = 2"
| "restartKind_code RestartKind.ON_INFRASTRUCTURE_FAILURE = 3"
| "restartKind_code RestartKind.ON_AMBIGUOUS_EXECUTION = 4"
| "restartKind_code RestartKind.ALWAYS_WITH_LIMIT = 5"
| "restartKind_code RestartKind.MANUAL_ONLY = 6"

definition restartKind_values :: "RestartKind list" where
  "restartKind_values = [
    RestartKind.NEVER, RestartKind.ON_KNOWN_FAILURE, RestartKind.ON_WORKER_LOSS,
    RestartKind.ON_INFRASTRUCTURE_FAILURE, RestartKind.ON_AMBIGUOUS_EXECUTION,
    RestartKind.ALWAYS_WITH_LIMIT, RestartKind.MANUAL_ONLY]"

definition kRestart :: "string list" where
  "kRestart = [
    ''NEVER'', ''ON_KNOWN_FAILURE'', ''ON_WORKER_LOSS'', ''ON_INFRASTRUCTURE_FAILURE'',
    ''ON_AMBIGUOUS_EXECUTION'', ''ALWAYS_WITH_LIMIT'', ''MANUAL_ONLY'']"

definition restartKindName :: "RestartKind \<Rightarrow> string" where
  "restartKindName s = name_of kRestart (restartKind_code s)"

interpretation restartKind: named_enum restartKind_values restartKind_code kRestart
proof
  show "map restartKind_code restartKind_values = [0..<length restartKind_values]"
    by (simp add: restartKind_values_def upt_rec)
  show "x \<in> set restartKind_values" for x
    by (cases x) (simp_all add: restartKind_values_def)
  show "length restartKind_values \<le> 256"
    by (simp add: restartKind_values_def)
  show "length kRestart = length restartKind_values"
    by (simp add: kRestart_def restartKind_values_def)
  show "distinct kRestart"
    by (simp add: kRestart_def)
qed

lemma restartKind_max: "length restartKind_values = 7"
  by (simp add: restartKind_values_def)

datatype CompletionKind =
    SINGLE_RESULT | ALL_PHASES | REQUIRED_UNITS | EXPLICIT_FINALIZE

primrec completionKind_code :: "CompletionKind \<Rightarrow> nat" where
  "completionKind_code CompletionKind.SINGLE_RESULT = 0"
| "completionKind_code CompletionKind.ALL_PHASES = 1"
| "completionKind_code CompletionKind.REQUIRED_UNITS = 2"
| "completionKind_code CompletionKind.EXPLICIT_FINALIZE = 3"

definition completionKind_values :: "CompletionKind list" where
  "completionKind_values = [
    CompletionKind.SINGLE_RESULT, CompletionKind.ALL_PHASES, CompletionKind.REQUIRED_UNITS,
    CompletionKind.EXPLICIT_FINALIZE]"

definition kCompletion :: "string list" where
  "kCompletion = [
    ''SINGLE_RESULT'', ''ALL_PHASES'', ''REQUIRED_UNITS'', ''EXPLICIT_FINALIZE'']"

definition completionKindName :: "CompletionKind \<Rightarrow> string" where
  "completionKindName s = name_of kCompletion (completionKind_code s)"

interpretation completionKind: named_enum completionKind_values completionKind_code kCompletion
proof
  show "map completionKind_code completionKind_values = [0..<length completionKind_values]"
    by (simp add: completionKind_values_def upt_rec)
  show "x \<in> set completionKind_values" for x
    by (cases x) (simp_all add: completionKind_values_def)
  show "length completionKind_values \<le> 256"
    by (simp add: completionKind_values_def)
  show "length kCompletion = length completionKind_values"
    by (simp add: kCompletion_def completionKind_values_def)
  show "distinct kCompletion"
    by (simp add: kCompletion_def)
qed

lemma completionKind_max: "length completionKind_values = 4"
  by (simp add: completionKind_values_def)

datatype MigrationEligibility =
    NONE | PLAN_ONLY | CHECKPOINT_AND_RESUME

primrec migrationEligibility_code :: "MigrationEligibility \<Rightarrow> nat" where
  "migrationEligibility_code MigrationEligibility.NONE = 0"
| "migrationEligibility_code MigrationEligibility.PLAN_ONLY = 1"
| "migrationEligibility_code MigrationEligibility.CHECKPOINT_AND_RESUME = 2"

definition migrationEligibility_values :: "MigrationEligibility list" where
  "migrationEligibility_values = [
    MigrationEligibility.NONE, MigrationEligibility.PLAN_ONLY,
    MigrationEligibility.CHECKPOINT_AND_RESUME]"

definition kMig :: "string list" where
  "kMig = [
    ''NONE'', ''PLAN_ONLY'', ''CHECKPOINT_AND_RESUME'']"

definition migrationEligibilityName :: "MigrationEligibility \<Rightarrow> string" where
  "migrationEligibilityName s = name_of kMig (migrationEligibility_code s)"

interpretation migrationEligibility: named_enum migrationEligibility_values migrationEligibility_code kMig
proof
  show "map migrationEligibility_code migrationEligibility_values = [0..<length migrationEligibility_values]"
    by (simp add: migrationEligibility_values_def upt_rec)
  show "x \<in> set migrationEligibility_values" for x
    by (cases x) (simp_all add: migrationEligibility_values_def)
  show "length migrationEligibility_values \<le> 256"
    by (simp add: migrationEligibility_values_def)
  show "length kMig = length migrationEligibility_values"
    by (simp add: kMig_def migrationEligibility_values_def)
  show "distinct kMig"
    by (simp add: kMig_def)
qed

lemma migrationEligibility_max: "length migrationEligibility_values = 3"
  by (simp add: migrationEligibility_values_def)

datatype CancelRaceSemantics =
    CANCEL_FIRST | COMPLETION_FIRST

primrec cancelRaceSemantics_code :: "CancelRaceSemantics \<Rightarrow> nat" where
  "cancelRaceSemantics_code CancelRaceSemantics.CANCEL_FIRST = 0"
| "cancelRaceSemantics_code CancelRaceSemantics.COMPLETION_FIRST = 1"

definition cancelRaceSemantics_values :: "CancelRaceSemantics list" where
  "cancelRaceSemantics_values = [
    CancelRaceSemantics.CANCEL_FIRST, CancelRaceSemantics.COMPLETION_FIRST]"

definition kCancelRace :: "string list" where
  "kCancelRace = [
    ''CANCEL_FIRST'', ''COMPLETION_FIRST'']"

definition cancelRaceSemanticsName :: "CancelRaceSemantics \<Rightarrow> string" where
  "cancelRaceSemanticsName s = name_of kCancelRace (cancelRaceSemantics_code s)"

interpretation cancelRaceSemantics: named_enum cancelRaceSemantics_values cancelRaceSemantics_code kCancelRace
proof
  show "map cancelRaceSemantics_code cancelRaceSemantics_values = [0..<length cancelRaceSemantics_values]"
    by (simp add: cancelRaceSemantics_values_def upt_rec)
  show "x \<in> set cancelRaceSemantics_values" for x
    by (cases x) (simp_all add: cancelRaceSemantics_values_def)
  show "length cancelRaceSemantics_values \<le> 256"
    by (simp add: cancelRaceSemantics_values_def)
  show "length kCancelRace = length cancelRaceSemantics_values"
    by (simp add: kCancelRace_def cancelRaceSemantics_values_def)
  show "distinct kCancelRace"
    by (simp add: kCancelRace_def)
qed

lemma cancelRaceSemantics_max: "length cancelRaceSemantics_values = 2"
  by (simp add: cancelRaceSemantics_values_def)

section \<open>Policies\<close>

record RestartPolicy =
  rp_kind :: RestartKind
  rp_maxRestarts :: u32
  rp_maxRecoverySeconds :: u32
  rp_carryProgressForward :: bool
  rp_carryCheckpoint :: bool

record CompletionPolicy =
  cp_kind :: CompletionKind
  cp_requiredUnits :: u32
  cp_requireDurableArtifact :: bool
  cp_allowZeroWorkCompletion :: bool

record MigrationPolicy =
  mp_eligibility :: MigrationEligibility
  mp_requireCheckpoint :: bool
  mp_requireQuiescence :: bool
  mp_allowLossy :: bool

record SuspensionPolicy =
  sp_allowed :: bool
  sp_requireDurableState :: bool
  sp_maxSuspendedSeconds :: u32
  sp_releaseResourcesWhileSuspended :: bool

record Policy =
  po_restart :: RestartPolicy
  po_completion :: CompletionPolicy
  po_migration :: MigrationPolicy
  po_suspension :: SuspensionPolicy
  po_cancelRace :: CancelRaceSemantics
  po_generation :: PolicyGeneration

definition default_policy :: Policy where
  "default_policy = \<lparr>
     po_restart = \<lparr>rp_kind = RestartKind.NEVER, rp_maxRestarts = 0, rp_maxRecoverySeconds = 0,
       rp_carryProgressForward = True, rp_carryCheckpoint = True\<rparr>,
     po_completion = \<lparr>cp_kind = CompletionKind.SINGLE_RESULT, cp_requiredUnits = 0,
       cp_requireDurableArtifact = True, cp_allowZeroWorkCompletion = False\<rparr>,
     po_migration = \<lparr>mp_eligibility = MigrationEligibility.NONE, mp_requireCheckpoint = True,
       mp_requireQuiescence = True, mp_allowLossy = False\<rparr>,
     po_suspension = \<lparr>sp_allowed = True, sp_requireDurableState = True,
       sp_maxSuspendedSeconds = 0, sp_releaseResourcesWhileSuspended = True\<rparr>,
     po_cancelRace = CancelRaceSemantics.COMPLETION_FIRST,
     po_generation = no_value\<rparr>"

definition restartAllowed :: "u32 \<Rightarrow> u32 \<Rightarrow> bool" where
  "restartAllowed count maxRestarts \<longleftrightarrow> count < maxRestarts"

lemma restartAllowed_succ:
  "restartAllowed c m \<Longrightarrow> unat (c + 1) = Suc (unat c) \<and> c + 1 \<le> m"
proof -
  assume "restartAllowed c m"
  then have lt: "c < m" by (simp add: restartAllowed_def)
  have "unat m < 2 ^ LENGTH(32)" by (rule unsigned_less)
  with lt have "unat c + 1 < 2 ^ 32" by (simp add: word_less_nat_alt)
  then have "unat (c + 1) = Suc (unat c)"
    by (simp add: unat_word_ariths)
  with lt show ?thesis by (simp add: word_le_nat_alt word_less_nat_alt)
qed

end
