(* ===== verification/Lifecycle.thy ===== *)
theory Lifecycle
  imports Prelude
begin

text \<open>
  The lifecycle state machine (\<open>state.hpp\<close>, \<open>state.cpp\<close>): workload and episode
  states with their codes and names, the state classes, the transition table and the two
  queries on it, and the facts about the table that the aggregate's proofs rest on.
\<close>

section \<open>States\<close>

datatype WorkloadState =
    CREATED | VALIDATING | BLOCKED | WAITING_FOR_DEPENDENCIES | WAITING_FOR_RESOURCES | READY |
    STARTING | RUNNING | DEGRADED | SUSPEND_REQUESTED | SUSPENDING | SUSPENDED |
    PREEMPTION_REQUESTED | PREEMPTED | MIGRATION_PENDING | MIGRATING | RECOVERING |
    RESTART_PENDING | CANCELLATION_REQUESTED | CANCELLING | COMPLETING | COMPLETED |
    FAILED_RECOVERABLE | FAILED_TERMINAL | CANCELLED | SUPERSEDED

primrec workloadState_code :: "WorkloadState \<Rightarrow> nat" where
  "workloadState_code WorkloadState.CREATED = 0"
| "workloadState_code WorkloadState.VALIDATING = 1"
| "workloadState_code WorkloadState.BLOCKED = 2"
| "workloadState_code WorkloadState.WAITING_FOR_DEPENDENCIES = 3"
| "workloadState_code WorkloadState.WAITING_FOR_RESOURCES = 4"
| "workloadState_code WorkloadState.READY = 5"
| "workloadState_code WorkloadState.STARTING = 6"
| "workloadState_code WorkloadState.RUNNING = 7"
| "workloadState_code WorkloadState.DEGRADED = 8"
| "workloadState_code WorkloadState.SUSPEND_REQUESTED = 9"
| "workloadState_code WorkloadState.SUSPENDING = 10"
| "workloadState_code WorkloadState.SUSPENDED = 11"
| "workloadState_code WorkloadState.PREEMPTION_REQUESTED = 12"
| "workloadState_code WorkloadState.PREEMPTED = 13"
| "workloadState_code WorkloadState.MIGRATION_PENDING = 14"
| "workloadState_code WorkloadState.MIGRATING = 15"
| "workloadState_code WorkloadState.RECOVERING = 16"
| "workloadState_code WorkloadState.RESTART_PENDING = 17"
| "workloadState_code WorkloadState.CANCELLATION_REQUESTED = 18"
| "workloadState_code WorkloadState.CANCELLING = 19"
| "workloadState_code WorkloadState.COMPLETING = 20"
| "workloadState_code WorkloadState.COMPLETED = 21"
| "workloadState_code WorkloadState.FAILED_RECOVERABLE = 22"
| "workloadState_code WorkloadState.FAILED_TERMINAL = 23"
| "workloadState_code WorkloadState.CANCELLED = 24"
| "workloadState_code WorkloadState.SUPERSEDED = 25"

definition workloadState_values :: "WorkloadState list" where
  "workloadState_values = [
    WorkloadState.CREATED, WorkloadState.VALIDATING, WorkloadState.BLOCKED,
    WorkloadState.WAITING_FOR_DEPENDENCIES, WorkloadState.WAITING_FOR_RESOURCES,
    WorkloadState.READY, WorkloadState.STARTING, WorkloadState.RUNNING, WorkloadState.DEGRADED,
    WorkloadState.SUSPEND_REQUESTED, WorkloadState.SUSPENDING, WorkloadState.SUSPENDED,
    WorkloadState.PREEMPTION_REQUESTED, WorkloadState.PREEMPTED, WorkloadState.MIGRATION_PENDING,
    WorkloadState.MIGRATING, WorkloadState.RECOVERING, WorkloadState.RESTART_PENDING,
    WorkloadState.CANCELLATION_REQUESTED, WorkloadState.CANCELLING, WorkloadState.COMPLETING,
    WorkloadState.COMPLETED, WorkloadState.FAILED_RECOVERABLE, WorkloadState.FAILED_TERMINAL,
    WorkloadState.CANCELLED, WorkloadState.SUPERSEDED]"

definition kWs :: "string list" where
  "kWs = [
    ''CREATED'', ''VALIDATING'', ''BLOCKED'', ''WAITING_FOR_DEPENDENCIES'',
    ''WAITING_FOR_RESOURCES'', ''READY'', ''STARTING'', ''RUNNING'', ''DEGRADED'',
    ''SUSPEND_REQUESTED'', ''SUSPENDING'', ''SUSPENDED'', ''PREEMPTION_REQUESTED'', ''PREEMPTED'',
    ''MIGRATION_PENDING'', ''MIGRATING'', ''RECOVERING'', ''RESTART_PENDING'',
    ''CANCELLATION_REQUESTED'', ''CANCELLING'', ''COMPLETING'', ''COMPLETED'',
    ''FAILED_RECOVERABLE'', ''FAILED_TERMINAL'', ''CANCELLED'', ''SUPERSEDED'']"

definition workloadStateName :: "WorkloadState \<Rightarrow> string" where
  "workloadStateName s = name_of kWs (workloadState_code s)"

interpretation workloadState: named_enum workloadState_values workloadState_code kWs
proof
  show "map workloadState_code workloadState_values = [0..<length workloadState_values]"
    by (simp add: workloadState_values_def upt_rec)
  show "x \<in> set workloadState_values" for x
    by (cases x) (simp_all add: workloadState_values_def)
  show "length workloadState_values \<le> 256"
    by (simp add: workloadState_values_def)
  show "length kWs = length workloadState_values"
    by (simp add: kWs_def workloadState_values_def)
  show "distinct kWs"
    by (simp add: kWs_def)
qed

lemma workloadState_max: "length workloadState_values = 26"
  by (simp add: workloadState_values_def)

datatype EpisodeState =
    PENDING | ADMITTED | RUNNING | SUSPENDED | PREEMPTED | MIGRATING | LOST | CANCELLED |
    COMPLETED | FAILED

primrec episodeState_code :: "EpisodeState \<Rightarrow> nat" where
  "episodeState_code EpisodeState.PENDING = 0"
| "episodeState_code EpisodeState.ADMITTED = 1"
| "episodeState_code EpisodeState.RUNNING = 2"
| "episodeState_code EpisodeState.SUSPENDED = 3"
| "episodeState_code EpisodeState.PREEMPTED = 4"
| "episodeState_code EpisodeState.MIGRATING = 5"
| "episodeState_code EpisodeState.LOST = 6"
| "episodeState_code EpisodeState.CANCELLED = 7"
| "episodeState_code EpisodeState.COMPLETED = 8"
| "episodeState_code EpisodeState.FAILED = 9"

definition episodeState_values :: "EpisodeState list" where
  "episodeState_values = [
    EpisodeState.PENDING, EpisodeState.ADMITTED, EpisodeState.RUNNING, EpisodeState.SUSPENDED,
    EpisodeState.PREEMPTED, EpisodeState.MIGRATING, EpisodeState.LOST, EpisodeState.CANCELLED,
    EpisodeState.COMPLETED, EpisodeState.FAILED]"

definition kEs :: "string list" where
  "kEs = [
    ''PENDING'', ''ADMITTED'', ''RUNNING'', ''SUSPENDED'', ''PREEMPTED'', ''MIGRATING'', ''LOST'',
    ''CANCELLED'', ''COMPLETED'', ''FAILED'']"

definition episodeStateName :: "EpisodeState \<Rightarrow> string" where
  "episodeStateName s = name_of kEs (episodeState_code s)"

interpretation episodeState: named_enum episodeState_values episodeState_code kEs
proof
  show "map episodeState_code episodeState_values = [0..<length episodeState_values]"
    by (simp add: episodeState_values_def upt_rec)
  show "x \<in> set episodeState_values" for x
    by (cases x) (simp_all add: episodeState_values_def)
  show "length episodeState_values \<le> 256"
    by (simp add: episodeState_values_def)
  show "length kEs = length episodeState_values"
    by (simp add: kEs_def episodeState_values_def)
  show "distinct kEs"
    by (simp add: kEs_def)
qed

lemma episodeState_max: "length episodeState_values = 10"
  by (simp add: episodeState_values_def)

section \<open>State classes\<close>

primrec isTerminal :: "WorkloadState \<Rightarrow> bool" where
  "isTerminal WorkloadState.CREATED = False"
| "isTerminal WorkloadState.VALIDATING = False"
| "isTerminal WorkloadState.BLOCKED = False"
| "isTerminal WorkloadState.WAITING_FOR_DEPENDENCIES = False"
| "isTerminal WorkloadState.WAITING_FOR_RESOURCES = False"
| "isTerminal WorkloadState.READY = False"
| "isTerminal WorkloadState.STARTING = False"
| "isTerminal WorkloadState.RUNNING = False"
| "isTerminal WorkloadState.DEGRADED = False"
| "isTerminal WorkloadState.SUSPEND_REQUESTED = False"
| "isTerminal WorkloadState.SUSPENDING = False"
| "isTerminal WorkloadState.SUSPENDED = False"
| "isTerminal WorkloadState.PREEMPTION_REQUESTED = False"
| "isTerminal WorkloadState.PREEMPTED = False"
| "isTerminal WorkloadState.MIGRATION_PENDING = False"
| "isTerminal WorkloadState.MIGRATING = False"
| "isTerminal WorkloadState.RECOVERING = False"
| "isTerminal WorkloadState.RESTART_PENDING = False"
| "isTerminal WorkloadState.CANCELLATION_REQUESTED = False"
| "isTerminal WorkloadState.CANCELLING = False"
| "isTerminal WorkloadState.COMPLETING = False"
| "isTerminal WorkloadState.COMPLETED = True"
| "isTerminal WorkloadState.FAILED_RECOVERABLE = False"
| "isTerminal WorkloadState.FAILED_TERMINAL = True"
| "isTerminal WorkloadState.CANCELLED = True"
| "isTerminal WorkloadState.SUPERSEDED = True"

definition isCancelling :: "WorkloadState \<Rightarrow> bool" where
  "isCancelling s \<longleftrightarrow>
     s = WorkloadState.CANCELLATION_REQUESTED \<or> s = WorkloadState.CANCELLING"

definition isActivelyRunning :: "WorkloadState \<Rightarrow> bool" where
  "isActivelyRunning s \<longleftrightarrow>
     s = WorkloadState.RUNNING \<or> s = WorkloadState.DEGRADED \<or> s = WorkloadState.STARTING"

definition isSuspended :: "WorkloadState \<Rightarrow> bool" where
  "isSuspended s \<longleftrightarrow> s = WorkloadState.SUSPENDED \<or> s = WorkloadState.PREEMPTED"

section \<open>The transition table\<close>

definition kTransitionTable :: "(WorkloadState \<times> WorkloadState) list" where
  "kTransitionTable = [
    (WorkloadState.CREATED, WorkloadState.VALIDATING),
    (WorkloadState.CREATED, WorkloadState.BLOCKED),
    (WorkloadState.CREATED, WorkloadState.WAITING_FOR_DEPENDENCIES),
    (WorkloadState.CREATED, WorkloadState.CANCELLED),
    (WorkloadState.CREATED, WorkloadState.COMPLETED),
    (WorkloadState.VALIDATING, WorkloadState.CREATED),
    (WorkloadState.VALIDATING, WorkloadState.BLOCKED),
    (WorkloadState.VALIDATING, WorkloadState.WAITING_FOR_DEPENDENCIES),
    (WorkloadState.VALIDATING, WorkloadState.WAITING_FOR_RESOURCES),
    (WorkloadState.VALIDATING, WorkloadState.READY),
    (WorkloadState.VALIDATING, WorkloadState.FAILED_TERMINAL),
    (WorkloadState.VALIDATING, WorkloadState.CANCELLED),
    (WorkloadState.BLOCKED, WorkloadState.VALIDATING),
    (WorkloadState.BLOCKED, WorkloadState.WAITING_FOR_DEPENDENCIES),
    (WorkloadState.BLOCKED, WorkloadState.WAITING_FOR_RESOURCES),
    (WorkloadState.BLOCKED, WorkloadState.READY),
    (WorkloadState.BLOCKED, WorkloadState.CANCELLED),
    (WorkloadState.WAITING_FOR_DEPENDENCIES, WorkloadState.VALIDATING),
    (WorkloadState.WAITING_FOR_DEPENDENCIES, WorkloadState.BLOCKED),
    (WorkloadState.WAITING_FOR_DEPENDENCIES, WorkloadState.WAITING_FOR_RESOURCES),
    (WorkloadState.WAITING_FOR_DEPENDENCIES, WorkloadState.READY),
    (WorkloadState.WAITING_FOR_DEPENDENCIES, WorkloadState.CANCELLED),
    (WorkloadState.WAITING_FOR_RESOURCES, WorkloadState.VALIDATING),
    (WorkloadState.WAITING_FOR_RESOURCES, WorkloadState.BLOCKED),
    (WorkloadState.WAITING_FOR_RESOURCES, WorkloadState.WAITING_FOR_DEPENDENCIES),
    (WorkloadState.WAITING_FOR_RESOURCES, WorkloadState.READY),
    (WorkloadState.WAITING_FOR_RESOURCES, WorkloadState.CANCELLED),
    (WorkloadState.READY, WorkloadState.STARTING),
    (WorkloadState.READY, WorkloadState.WAITING_FOR_RESOURCES),
    (WorkloadState.READY, WorkloadState.WAITING_FOR_DEPENDENCIES),
    (WorkloadState.READY, WorkloadState.CANCELLED),
    (WorkloadState.STARTING, WorkloadState.RUNNING),
    (WorkloadState.STARTING, WorkloadState.READY),
    (WorkloadState.STARTING, WorkloadState.RESTART_PENDING),
    (WorkloadState.STARTING, WorkloadState.FAILED_RECOVERABLE),
    (WorkloadState.STARTING, WorkloadState.CANCELLATION_REQUESTED),
    (WorkloadState.RUNNING, WorkloadState.DEGRADED),
    (WorkloadState.RUNNING, WorkloadState.COMPLETING),
    (WorkloadState.RUNNING, WorkloadState.SUSPEND_REQUESTED),
    (WorkloadState.RUNNING, WorkloadState.PREEMPTION_REQUESTED),
    (WorkloadState.RUNNING, WorkloadState.MIGRATION_PENDING),
    (WorkloadState.RUNNING, WorkloadState.CANCELLATION_REQUESTED),
    (WorkloadState.RUNNING, WorkloadState.RECOVERING),
    (WorkloadState.RUNNING, WorkloadState.FAILED_RECOVERABLE),
    (WorkloadState.RUNNING, WorkloadState.FAILED_TERMINAL),
    (WorkloadState.DEGRADED, WorkloadState.RUNNING),
    (WorkloadState.DEGRADED, WorkloadState.COMPLETING),
    (WorkloadState.DEGRADED, WorkloadState.SUSPEND_REQUESTED),
    (WorkloadState.DEGRADED, WorkloadState.PREEMPTION_REQUESTED),
    (WorkloadState.DEGRADED, WorkloadState.MIGRATION_PENDING),
    (WorkloadState.DEGRADED, WorkloadState.CANCELLATION_REQUESTED),
    (WorkloadState.DEGRADED, WorkloadState.RECOVERING),
    (WorkloadState.DEGRADED, WorkloadState.FAILED_RECOVERABLE),
    (WorkloadState.SUSPEND_REQUESTED, WorkloadState.SUSPENDING),
    (WorkloadState.SUSPEND_REQUESTED, WorkloadState.RUNNING),
    (WorkloadState.SUSPEND_REQUESTED, WorkloadState.CANCELLATION_REQUESTED),
    (WorkloadState.SUSPEND_REQUESTED, WorkloadState.FAILED_RECOVERABLE),
    (WorkloadState.SUSPENDING, WorkloadState.SUSPENDED),
    (WorkloadState.SUSPENDING, WorkloadState.RUNNING),
    (WorkloadState.SUSPENDING, WorkloadState.CANCELLATION_REQUESTED),
    (WorkloadState.SUSPENDING, WorkloadState.FAILED_RECOVERABLE),
    (WorkloadState.SUSPENDED, WorkloadState.READY),
    (WorkloadState.SUSPENDED, WorkloadState.RUNNING),
    (WorkloadState.SUSPENDED, WorkloadState.CANCELLATION_REQUESTED),
    (WorkloadState.SUSPENDED, WorkloadState.SUPERSEDED),
    (WorkloadState.SUSPENDED, WorkloadState.FAILED_RECOVERABLE),
    (WorkloadState.PREEMPTION_REQUESTED, WorkloadState.PREEMPTED),
    (WorkloadState.PREEMPTION_REQUESTED, WorkloadState.RUNNING),
    (WorkloadState.PREEMPTION_REQUESTED, WorkloadState.SUSPEND_REQUESTED),
    (WorkloadState.PREEMPTION_REQUESTED, WorkloadState.CANCELLATION_REQUESTED),
    (WorkloadState.PREEMPTED, WorkloadState.RUNNING),
    (WorkloadState.PREEMPTED, WorkloadState.READY),
    (WorkloadState.PREEMPTED, WorkloadState.RESTART_PENDING),
    (WorkloadState.PREEMPTED, WorkloadState.SUPERSEDED),
    (WorkloadState.PREEMPTED, WorkloadState.CANCELLATION_REQUESTED),
    (WorkloadState.MIGRATION_PENDING, WorkloadState.MIGRATING),
    (WorkloadState.MIGRATION_PENDING, WorkloadState.RUNNING),
    (WorkloadState.MIGRATION_PENDING, WorkloadState.SUSPEND_REQUESTED),
    (WorkloadState.MIGRATION_PENDING, WorkloadState.CANCELLATION_REQUESTED),
    (WorkloadState.MIGRATION_PENDING, WorkloadState.FAILED_RECOVERABLE),
    (WorkloadState.MIGRATING, WorkloadState.RUNNING),
    (WorkloadState.MIGRATING, WorkloadState.RECOVERING),
    (WorkloadState.MIGRATING, WorkloadState.READY),
    (WorkloadState.MIGRATING, WorkloadState.RESTART_PENDING),
    (WorkloadState.MIGRATING, WorkloadState.SUPERSEDED),
    (WorkloadState.MIGRATING, WorkloadState.CANCELLATION_REQUESTED),
    (WorkloadState.RECOVERING, WorkloadState.RUNNING),
    (WorkloadState.RECOVERING, WorkloadState.RESTART_PENDING),
    (WorkloadState.RECOVERING, WorkloadState.READY),
    (WorkloadState.RECOVERING, WorkloadState.FAILED_RECOVERABLE),
    (WorkloadState.RECOVERING, WorkloadState.FAILED_TERMINAL),
    (WorkloadState.RECOVERING, WorkloadState.CANCELLATION_REQUESTED),
    (WorkloadState.RESTART_PENDING, WorkloadState.READY),
    (WorkloadState.RESTART_PENDING, WorkloadState.RUNNING),
    (WorkloadState.RESTART_PENDING, WorkloadState.FAILED_TERMINAL),
    (WorkloadState.RESTART_PENDING, WorkloadState.CANCELLATION_REQUESTED),
    (WorkloadState.CANCELLATION_REQUESTED, WorkloadState.CANCELLING),
    (WorkloadState.CANCELLATION_REQUESTED, WorkloadState.CANCELLED),
    (WorkloadState.CANCELLATION_REQUESTED, WorkloadState.COMPLETING),
    (WorkloadState.CANCELLING, WorkloadState.CANCELLED),
    (WorkloadState.CANCELLING, WorkloadState.COMPLETED),
    (WorkloadState.COMPLETING, WorkloadState.COMPLETED),
    (WorkloadState.COMPLETING, WorkloadState.FAILED_RECOVERABLE),
    (WorkloadState.COMPLETING, WorkloadState.FAILED_TERMINAL),
    (WorkloadState.COMPLETING, WorkloadState.CANCELLED)]"

text \<open>\<open>canTransition\<close> scans the table for the edge, \<open>allowedFrom\<close> collects successors.\<close>

fun edge_in :: "WorkloadState \<Rightarrow> WorkloadState \<Rightarrow> (WorkloadState \<times> WorkloadState) list \<Rightarrow> bool" where
  "edge_in from_st to [] = False"
| "edge_in from_st to (e # es) = (if fst e = from_st \<and> snd e = to then True else edge_in from_st to es)"

definition canTransition :: "WorkloadState \<Rightarrow> WorkloadState \<Rightarrow> bool" where
  "canTransition from_st to = edge_in from_st to kTransitionTable"

fun successors_in :: "WorkloadState \<Rightarrow> (WorkloadState \<times> WorkloadState) list \<Rightarrow> WorkloadState list" where
  "successors_in from_st [] = []"
| "successors_in from_st (e # es) =
     (if fst e = from_st then snd e # successors_in from_st es else successors_in from_st es)"

definition allowedFrom :: "WorkloadState \<Rightarrow> WorkloadState list" where
  "allowedFrom from_st = successors_in from_st kTransitionTable"

section \<open>Facts about the table\<close>

lemma edge_in_iff: "edge_in f t es \<longleftrightarrow> (f, t) \<in> set es"
proof (induction es)
  case (Cons e es)
  then show ?case by (cases "e = (f, t)") (simp_all add: prod_eq_iff, blast)
qed simp

lemma set_successors_in: "t \<in> set (successors_in f es) \<longleftrightarrow> (f, t) \<in> set es"
proof (induction es)
  case (Cons e es)
  obtain a b where "e = (a, b)" by (cases e)
  with Cons show ?case by (cases "a = f") simp_all
qed simp

lemma allowedFrom_simps [simp]:
  "allowedFrom WorkloadState.CREATED = [WorkloadState.VALIDATING, WorkloadState.BLOCKED, WorkloadState.WAITING_FOR_DEPENDENCIES,
     WorkloadState.CANCELLED, WorkloadState.COMPLETED]"
  "allowedFrom WorkloadState.VALIDATING = [WorkloadState.CREATED, WorkloadState.BLOCKED, WorkloadState.WAITING_FOR_DEPENDENCIES,
     WorkloadState.WAITING_FOR_RESOURCES, WorkloadState.READY, WorkloadState.FAILED_TERMINAL,
     WorkloadState.CANCELLED]"
  "allowedFrom WorkloadState.BLOCKED = [WorkloadState.VALIDATING, WorkloadState.WAITING_FOR_DEPENDENCIES,
     WorkloadState.WAITING_FOR_RESOURCES, WorkloadState.READY, WorkloadState.CANCELLED]"
  "allowedFrom WorkloadState.WAITING_FOR_DEPENDENCIES = [WorkloadState.VALIDATING, WorkloadState.BLOCKED, WorkloadState.WAITING_FOR_RESOURCES,
     WorkloadState.READY, WorkloadState.CANCELLED]"
  "allowedFrom WorkloadState.WAITING_FOR_RESOURCES = [WorkloadState.VALIDATING, WorkloadState.BLOCKED, WorkloadState.WAITING_FOR_DEPENDENCIES,
     WorkloadState.READY, WorkloadState.CANCELLED]"
  "allowedFrom WorkloadState.READY = [WorkloadState.STARTING, WorkloadState.WAITING_FOR_RESOURCES,
     WorkloadState.WAITING_FOR_DEPENDENCIES, WorkloadState.CANCELLED]"
  "allowedFrom WorkloadState.STARTING = [WorkloadState.RUNNING, WorkloadState.READY, WorkloadState.RESTART_PENDING,
     WorkloadState.FAILED_RECOVERABLE, WorkloadState.CANCELLATION_REQUESTED]"
  "allowedFrom WorkloadState.RUNNING = [WorkloadState.DEGRADED, WorkloadState.COMPLETING, WorkloadState.SUSPEND_REQUESTED,
     WorkloadState.PREEMPTION_REQUESTED, WorkloadState.MIGRATION_PENDING,
     WorkloadState.CANCELLATION_REQUESTED, WorkloadState.RECOVERING,
     WorkloadState.FAILED_RECOVERABLE, WorkloadState.FAILED_TERMINAL]"
  "allowedFrom WorkloadState.DEGRADED = [WorkloadState.RUNNING, WorkloadState.COMPLETING, WorkloadState.SUSPEND_REQUESTED,
     WorkloadState.PREEMPTION_REQUESTED, WorkloadState.MIGRATION_PENDING,
     WorkloadState.CANCELLATION_REQUESTED, WorkloadState.RECOVERING, WorkloadState.FAILED_RECOVERABLE]"
  "allowedFrom WorkloadState.SUSPEND_REQUESTED = [WorkloadState.SUSPENDING, WorkloadState.RUNNING, WorkloadState.CANCELLATION_REQUESTED,
     WorkloadState.FAILED_RECOVERABLE]"
  "allowedFrom WorkloadState.SUSPENDING = [WorkloadState.SUSPENDED, WorkloadState.RUNNING, WorkloadState.CANCELLATION_REQUESTED,
     WorkloadState.FAILED_RECOVERABLE]"
  "allowedFrom WorkloadState.SUSPENDED = [WorkloadState.READY, WorkloadState.RUNNING, WorkloadState.CANCELLATION_REQUESTED,
     WorkloadState.SUPERSEDED, WorkloadState.FAILED_RECOVERABLE]"
  "allowedFrom WorkloadState.PREEMPTION_REQUESTED = [WorkloadState.PREEMPTED, WorkloadState.RUNNING, WorkloadState.SUSPEND_REQUESTED,
     WorkloadState.CANCELLATION_REQUESTED]"
  "allowedFrom WorkloadState.PREEMPTED = [WorkloadState.RUNNING, WorkloadState.READY, WorkloadState.RESTART_PENDING,
     WorkloadState.SUPERSEDED, WorkloadState.CANCELLATION_REQUESTED]"
  "allowedFrom WorkloadState.MIGRATION_PENDING = [WorkloadState.MIGRATING, WorkloadState.RUNNING, WorkloadState.SUSPEND_REQUESTED,
     WorkloadState.CANCELLATION_REQUESTED, WorkloadState.FAILED_RECOVERABLE]"
  "allowedFrom WorkloadState.MIGRATING = [WorkloadState.RUNNING, WorkloadState.RECOVERING, WorkloadState.READY,
     WorkloadState.RESTART_PENDING, WorkloadState.SUPERSEDED, WorkloadState.CANCELLATION_REQUESTED]"
  "allowedFrom WorkloadState.RECOVERING = [WorkloadState.RUNNING, WorkloadState.RESTART_PENDING, WorkloadState.READY,
     WorkloadState.FAILED_RECOVERABLE, WorkloadState.FAILED_TERMINAL,
     WorkloadState.CANCELLATION_REQUESTED]"
  "allowedFrom WorkloadState.RESTART_PENDING = [WorkloadState.READY, WorkloadState.RUNNING, WorkloadState.FAILED_TERMINAL,
     WorkloadState.CANCELLATION_REQUESTED]"
  "allowedFrom WorkloadState.CANCELLATION_REQUESTED = [WorkloadState.CANCELLING, WorkloadState.CANCELLED, WorkloadState.COMPLETING]"
  "allowedFrom WorkloadState.CANCELLING = [WorkloadState.CANCELLED, WorkloadState.COMPLETED]"
  "allowedFrom WorkloadState.COMPLETING = [WorkloadState.COMPLETED, WorkloadState.FAILED_RECOVERABLE, WorkloadState.FAILED_TERMINAL,
     WorkloadState.CANCELLED]"
  "allowedFrom WorkloadState.COMPLETED = []"
  "allowedFrom WorkloadState.FAILED_RECOVERABLE = []"
  "allowedFrom WorkloadState.FAILED_TERMINAL = []"
  "allowedFrom WorkloadState.CANCELLED = []"
  "allowedFrom WorkloadState.SUPERSEDED = []"
  by (simp_all add: allowedFrom_def kTransitionTable_def)

lemma canTransition_iff: "canTransition f t \<longleftrightarrow> t \<in> set (allowedFrom f)"
  by (simp add: canTransition_def allowedFrom_def edge_in_iff set_successors_in)

lemma canTransition_irrefl [simp]: "\<not> canTransition s s"
  by (cases s) (simp_all add: canTransition_iff)

lemma terminal_no_successor: "isTerminal f \<Longrightarrow> \<not> canTransition f t"
  by (cases f) (simp_all add: canTransition_iff)

lemma isTerminal_iff:
  "isTerminal s \<longleftrightarrow> s = WorkloadState.COMPLETED \<or> s = WorkloadState.FAILED_TERMINAL \<or>
     s = WorkloadState.CANCELLED \<or> s = WorkloadState.SUPERSEDED"
  by (cases s) simp_all

lemma isCancelling_not_terminal: "isCancelling s \<Longrightarrow> \<not> isTerminal s"
  by (auto simp: isCancelling_def)

lemma isActivelyRunning_not_terminal: "isActivelyRunning s \<Longrightarrow> \<not> isTerminal s"
  by (auto simp: isActivelyRunning_def)

text \<open>The edges into a state, for the states the aggregate's guards single out.\<close>

lemma canTransition_to_COMPLETED:
  "canTransition f WorkloadState.COMPLETED \<longleftrightarrow>
     f = WorkloadState.CREATED \<or> f = WorkloadState.CANCELLING \<or> f = WorkloadState.COMPLETING"
  by (cases f) (simp_all add: canTransition_iff)

lemma canTransition_to_CANCELLATION_REQUESTED:
  "canTransition f WorkloadState.CANCELLATION_REQUESTED \<longleftrightarrow>
     f \<in> {WorkloadState.STARTING, WorkloadState.RUNNING, WorkloadState.DEGRADED,
          WorkloadState.SUSPEND_REQUESTED, WorkloadState.SUSPENDING, WorkloadState.SUSPENDED,
          WorkloadState.PREEMPTION_REQUESTED, WorkloadState.PREEMPTED,
          WorkloadState.MIGRATION_PENDING, WorkloadState.MIGRATING, WorkloadState.RECOVERING,
          WorkloadState.RESTART_PENDING}"
  by (cases f) (simp_all add: canTransition_iff)

lemma canTransition_to_READY:
  "canTransition f WorkloadState.READY \<longleftrightarrow>
     f \<in> {WorkloadState.VALIDATING, WorkloadState.BLOCKED, WorkloadState.WAITING_FOR_DEPENDENCIES,
          WorkloadState.WAITING_FOR_RESOURCES, WorkloadState.STARTING, WorkloadState.SUSPENDED,
          WorkloadState.PREEMPTED, WorkloadState.MIGRATING, WorkloadState.RECOVERING,
          WorkloadState.RESTART_PENDING}"
  by (cases f) (simp_all add: canTransition_iff)

lemma canTransition_to_COMPLETING:
  "canTransition f WorkloadState.COMPLETING \<longleftrightarrow>
     f \<in> {WorkloadState.RUNNING, WorkloadState.DEGRADED, WorkloadState.CANCELLATION_REQUESTED}"
  by (cases f) (simp_all add: canTransition_iff)

lemma canTransition_to_RESTART_PENDING:
  "canTransition f WorkloadState.RESTART_PENDING \<longleftrightarrow>
     f \<in> {WorkloadState.STARTING, WorkloadState.PREEMPTED, WorkloadState.MIGRATING,
          WorkloadState.RECOVERING}"
  by (cases f) (simp_all add: canTransition_iff)

section \<open>Paths\<close>

text \<open>The states a workload can be in after any number of permitted transitions.\<close>

inductive lifecycle_path :: "WorkloadState \<Rightarrow> WorkloadState \<Rightarrow> bool" where
  path_refl: "lifecycle_path s s"
| path_step: "lifecycle_path s t \<Longrightarrow> canTransition t u \<Longrightarrow> lifecycle_path s u"

lemma path_edge: "canTransition s t \<Longrightarrow> lifecycle_path s t"
  by (rule path_step [OF path_refl])

lemma path_trans:
  assumes "lifecycle_path s t" and "lifecycle_path t u"
  shows "lifecycle_path s u"
  using assms(2,1) by (induction rule: lifecycle_path.induct) (auto intro: path_step)

lemma path_from_terminal: "lifecycle_path s t \<Longrightarrow> isTerminal s \<Longrightarrow> t = s"
  by (induction rule: lifecycle_path.induct) (auto simp: terminal_no_successor)

lemma path_edge_then: "canTransition s t \<Longrightarrow> lifecycle_path t u \<Longrightarrow> lifecycle_path s u"
  by (blast intro: path_edge path_trans)

end
