(* ===== verification/Execution.thy ===== *)
theory Execution
  imports Identity Outcomes
begin

text \<open>
  The vocabulary shared with the execution layer (\<open>execution.hpp\<close>,
  \<open>execution/names.cpp\<close>): observable execution states and the opaque handle.
\<close>

datatype ExecutionState =
    DISPATCHED | RUNNING | SUSPENDED | PREEMPTED | CANCELLED | COMPLETED | FAILED | LOST | UNKNOWN

primrec executionState_code :: "ExecutionState \<Rightarrow> nat" where
  "executionState_code ExecutionState.DISPATCHED = 0"
| "executionState_code ExecutionState.RUNNING = 1"
| "executionState_code ExecutionState.SUSPENDED = 2"
| "executionState_code ExecutionState.PREEMPTED = 3"
| "executionState_code ExecutionState.CANCELLED = 4"
| "executionState_code ExecutionState.COMPLETED = 5"
| "executionState_code ExecutionState.FAILED = 6"
| "executionState_code ExecutionState.LOST = 7"
| "executionState_code ExecutionState.UNKNOWN = 8"

definition executionState_values :: "ExecutionState list" where
  "executionState_values = [
    ExecutionState.DISPATCHED, ExecutionState.RUNNING, ExecutionState.SUSPENDED,
    ExecutionState.PREEMPTED, ExecutionState.CANCELLED, ExecutionState.COMPLETED,
    ExecutionState.FAILED, ExecutionState.LOST, ExecutionState.UNKNOWN]"

definition kExSt :: "string list" where
  "kExSt = [
    ''DISPATCHED'', ''RUNNING'', ''SUSPENDED'', ''PREEMPTED'', ''CANCELLED'', ''COMPLETED'',
    ''FAILED'', ''LOST'', ''UNKNOWN'']"

definition executionStateName :: "ExecutionState \<Rightarrow> string" where
  "executionStateName s = name_of kExSt (executionState_code s)"

interpretation executionState: named_enum executionState_values executionState_code kExSt
proof
  show "map executionState_code executionState_values = [0..<length executionState_values]"
    by (simp add: executionState_values_def upt_rec)
  show "x \<in> set executionState_values" for x
    by (cases x) (simp_all add: executionState_values_def)
  show "length executionState_values \<le> 256"
    by (simp add: executionState_values_def)
  show "length kExSt = length executionState_values"
    by (simp add: kExSt_def executionState_values_def)
  show "distinct kExSt"
    by (simp add: kExSt_def)
qed

lemma executionState_max: "length executionState_values = 9"
  by (simp add: executionState_values_def)

record ExecutionHandle =
  eh_worker :: WorkerId
  eh_boot :: WorkerBootId
  eh_attemptGeneration :: u64
  eh_intent :: string

definition default_handle :: ExecutionHandle where
  "default_handle = \<lparr>eh_worker = no_value, eh_boot = no_value, eh_attemptGeneration = 0, eh_intent = []\<rparr>"

end
