(* ===== verification/Workloads.thy ===== *)
theory Workloads
  imports Lifecycle Resources Dependencies Priorities Progress Policies Execution
begin

text \<open>
  The durable workload aggregate (\<open>workload.hpp\<close>, \<open>workload.cpp\<close>): its state and
  every lifecycle operation, in the order of the source. An operation returns its outcome and
  the updated workload; rejected operations are returned with whatever state the code has
  written before it returns. What it writes to its optional \<open>Explanation*\<close> argument, which has no
  influence on the rest, is in \<open>Explanations\<close>; the engine always passes the null pointer.
\<close>

section \<open>State\<close>

record Episode =
  ep_id :: ExecutionEpisodeId
  ep_generation :: ExecutionEpisodeGeneration
  ep_state :: EpisodeState
  ep_owner :: OwnerId
  ep_ownerGeneration :: OwnerGeneration
  ep_worker :: WorkerId
  ep_boot :: WorkerBootId
  ep_handle :: ExecutionHandle
  ep_restartGeneration :: RestartGeneration
  ep_recoveryGeneration :: RecoveryGeneration
  ep_checkpoint :: CheckpointRef
  ep_checkpointGeneration :: CheckpointGeneration
  ep_migrationId :: MigrationId
  ep_migrationGeneration :: MigrationGeneration
  ep_progress :: Progress
  ep_intent :: string
  ep_authoritative :: bool
  ep_failed :: bool
  ep_cancelled :: bool
  ep_completed :: bool
  ep_workerLost :: bool

definition default_episode :: Episode where
  "default_episode = \<lparr>ep_id = no_value, ep_generation = no_value, ep_state = EpisodeState.PENDING,
     ep_owner = no_value, ep_ownerGeneration = no_value, ep_worker = no_value, ep_boot = no_value,
     ep_handle = default_handle, ep_restartGeneration = no_value, ep_recoveryGeneration = no_value,
     ep_checkpoint = no_value, ep_checkpointGeneration = no_value, ep_migrationId = no_value,
     ep_migrationGeneration = no_value, ep_progress = default_progress, ep_intent = [],
     ep_authoritative = True, ep_failed = False, ep_cancelled = False, ep_completed = False,
     ep_workerLost = False\<rparr>"

record TransitionRecord =
  tr_from :: WorkloadState
  tr_to :: WorkloadState
  tr_generation :: WorkloadGeneration
  tr_timestampMs :: u64
  tr_reason :: string
  tr_outcome :: Outcome

record Workload =
  wl_id :: WorkloadId
  wl_generation :: WorkloadGeneration
  wl_revision :: WorkloadRevision
  wl_state :: WorkloadState
  wl_name :: string
  wl_intent :: string
  wl_policy :: Policy
  wl_contract :: ResourceContract
  wl_deps :: DependencySet
  wl_priority :: Priority
  wl_progress :: Progress
  wl_owner :: OwnerId
  wl_ownerGeneration :: OwnerGeneration
  wl_epoch :: CoordinatorEpoch
  wl_restartCount :: u32
  wl_restartGen :: RestartGeneration
  wl_migrationId :: MigrationId
  wl_migrationGen :: MigrationGeneration
  wl_completionGen :: CompletionGeneration
  wl_cancellationRequested :: bool
  wl_cancelledFinal :: bool
  wl_cancellationWasRejected :: bool
  wl_lastRestartReason :: string
  wl_lastSourceEpisode :: ExecutionEpisodeId
  wl_episodeCounterForMigration :: u64
  wl_episodes :: "Episode list"
  wl_history :: "TransitionRecord list"

definition default_workload :: Workload where
  "default_workload = \<lparr>wl_id = no_value, wl_generation = no_value, wl_revision = no_value,
     wl_state = WorkloadState.CREATED, wl_name = [], wl_intent = [], wl_policy = default_policy,
     wl_contract = new_contract no_value no_value, wl_deps = new_dependency_set no_value no_value,
     wl_priority = default_priority, wl_progress = default_progress, wl_owner = no_value,
     wl_ownerGeneration = no_value, wl_epoch = no_value, wl_restartCount = 0,
     wl_restartGen = no_value, wl_migrationId = no_value, wl_migrationGen = no_value,
     wl_completionGen = no_value, wl_cancellationRequested = False, wl_cancelledFinal = False,
     wl_cancellationWasRejected = False, wl_lastRestartReason = [], wl_lastSourceEpisode = no_value,
     wl_episodeCounterForMigration = 2000, wl_episodes = [], wl_history = []\<rparr>"

definition create :: "WorkloadId \<Rightarrow> string \<Rightarrow> string \<Rightarrow> Workload" where
  "create i name intent = default_workload\<lparr>wl_id := i, wl_name := name, wl_intent := intent,
     wl_generation := fromU64 1, wl_revision := fromU64 1, wl_epoch := fromU64 1,
     wl_state := WorkloadState.CREATED,
     wl_policy := default_policy\<lparr>po_generation := fromU64 1\<rparr>\<rparr>"

section \<open>Recording and guarded transitions\<close>

definition record_transition ::
  "WorkloadState \<Rightarrow> WorkloadState \<Rightarrow> string \<Rightarrow> Outcome \<Rightarrow> Workload \<Rightarrow> Workload" where
  "record_transition from_st to reason out w =
     w\<lparr>wl_history := wl_history w @
          [\<lparr>tr_from = from_st, tr_to = to, tr_generation = wl_generation w, tr_timestampMs = 0,
            tr_reason = reason, tr_outcome = out\<rparr>],
       wl_revision := next_gen (wl_revision w)\<rparr>"

text \<open>The episode \<open>currentEpisode()\<close> points to, as an index into \<open>episodes_\<close>.\<close>

definition currentEpisode :: "Workload \<Rightarrow> nat option" where
  "currentEpisode w =
     (case find_index ep_authoritative (wl_episodes w) of
        Some i \<Rightarrow> Some i
      | None \<Rightarrow> if wl_episodes w = [] then None else Some (length (wl_episodes w) - 1))"

definition update_episode :: "nat \<Rightarrow> (Episode \<Rightarrow> Episode) \<Rightarrow> Workload \<Rightarrow> Workload" where
  "update_episode i f w = w\<lparr>wl_episodes := (wl_episodes w)[i := f (wl_episodes w ! i)]\<rparr>"

definition guardedTransition ::
  "WorkloadState \<Rightarrow> WorkloadGeneration \<Rightarrow> string \<Rightarrow> Workload \<Rightarrow> Outcome \<times> Workload" where
  "guardedTransition to expecting reason w =
     (if expecting \<noteq> wl_generation w then
        (Outcome.REJECT_STALE_WORKLOAD_GENERATION,
         record_transition (wl_state w) to reason Outcome.REJECT_STALE_WORKLOAD_GENERATION w)
      else if wl_state w = to then (Outcome.ALLOW, w)
      else if isTerminal (wl_state w) then
        (Outcome.REJECT_TERMINAL, record_transition (wl_state w) to reason Outcome.REJECT_TERMINAL w)
      else if \<not> canTransition (wl_state w) to then
        (Outcome.REJECT_INVALID_TRANSITION,
         record_transition (wl_state w) to reason Outcome.REJECT_INVALID_TRANSITION w)
      else if to = WorkloadState.COMPLETED \<and> \<not> cp_allowZeroWorkCompletion (po_completion (wl_policy w)) \<and>
          (wl_state w = WorkloadState.CREATED \<or> wl_state w = WorkloadState.VALIDATING \<or>
           wl_state w = WorkloadState.BLOCKED \<or> wl_state w = WorkloadState.WAITING_FOR_DEPENDENCIES \<or>
           wl_state w = WorkloadState.WAITING_FOR_RESOURCES) then
        (Outcome.REJECT_COMPLETION_POLICY,
         record_transition (wl_state w) to reason Outcome.REJECT_COMPLETION_POLICY w)
      else
        let from_st = wl_state w
        in (Outcome.ALLOW, record_transition from_st to reason Outcome.ALLOW (w\<lparr>wl_state := to\<rparr>)))"

definition transition ::
  "WorkloadState \<Rightarrow> WorkloadGeneration \<Rightarrow> string \<Rightarrow> Workload \<Rightarrow> Outcome \<times> Workload" where
  "transition to expecting reason w = guardedTransition to expecting reason w"

section \<open>Admission and episodes\<close>

definition settle :: "WorkloadGeneration \<Rightarrow> Workload \<Rightarrow> Outcome \<times> Workload" where
  "settle expecting w =
     (if expecting \<noteq> wl_generation w then (Outcome.REJECT_STALE_WORKLOAD_GENERATION, w)
      else
        let stopped = isTerminal (wl_state w) \<or> isCancelling (wl_state w);
            target = (if \<not> deps_ready (wl_deps w) then
                        (if stopped then None else Some WorkloadState.WAITING_FOR_DEPENDENCIES)
                      else if \<not> satisfied (wl_contract w) then
                        (if stopped then None else Some WorkloadState.WAITING_FOR_RESOURCES)
                      else Some WorkloadState.READY)
        in case target of
             None \<Rightarrow> (Outcome.REJECT_TERMINAL, w)
           | Some t \<Rightarrow> if wl_state w = t then (Outcome.ALLOW, w)
                       else guardedTransition t expecting ''settle'' w)"

definition resumeEligible :: "WorkloadState \<Rightarrow> bool" where
  "resumeEligible s \<longleftrightarrow> s = WorkloadState.READY \<or> s = WorkloadState.RESTART_PENDING \<or>
     s = WorkloadState.SUSPENDED \<or> s = WorkloadState.PREEMPTED \<or> s = WorkloadState.RECOVERING"

text \<open>Every episode loses authority, then the new one is appended.\<close>

definition append_authoritative :: "Episode \<Rightarrow> Workload \<Rightarrow> Workload" where
  "append_authoritative ep w =
     w\<lparr>wl_episodes := map (\<lambda>e. e\<lparr>ep_authoritative := False\<rparr>) (wl_episodes w) @ [ep]\<rparr>"

definition startEpisode ::
  "ExecutionEpisodeId \<Rightarrow> OwnerId \<Rightarrow> OwnerGeneration \<Rightarrow> bool \<Rightarrow> Workload \<Rightarrow> Outcome \<times> Workload" where
  "startEpisode i owner ownerGen advanceGen w =
     (if wl_cancelledFinal w \<or> isCancelling (wl_state w) then (Outcome.REJECT_CANCELLED, w)
      else if isTerminal (wl_state w) then (Outcome.REJECT_TERMINAL, w)
      else if \<not> resumeEligible (wl_state w) then (Outcome.REJECT_EPISODE_INELIGIBLE, w)
      else
        let pre = (if wl_state w \<noteq> WorkloadState.READY
                   then guardedTransition WorkloadState.READY (wl_generation w) ''resume eligible'' w
                   else (Outcome.ALLOW, w))
        in if \<not> isAllow (fst pre) then pre
           else
             let t = guardedTransition WorkloadState.STARTING (wl_generation (snd pre)) ''start episode'' (snd pre)
             in if \<not> isAllow (fst t) then t
                else
                  let w1 = snd t;
                      ep = default_episode\<lparr>ep_id := i, ep_generation := fromU64 1,
                             ep_state := EpisodeState.ADMITTED, ep_owner := owner,
                             ep_ownerGeneration := ownerGen, ep_intent := wl_intent w1,
                             ep_authoritative := True, ep_progress := wl_progress w1\<rparr>;
                      w2 = append_authoritative ep w1
                  in (Outcome.ALLOW,
                      if advanceGen then w2\<lparr>wl_generation := next_gen (wl_generation w2)\<rparr> else w2))"

definition episode_index :: "ExecutionEpisodeId \<Rightarrow> Workload \<Rightarrow> nat option" where
  "episode_index i w = find_index (\<lambda>e. ep_id e = i) (wl_episodes w)"

definition admitDispatch ::
  "ExecutionEpisodeId \<Rightarrow> WorkerId \<Rightarrow> WorkerBootId \<Rightarrow> Workload \<Rightarrow> Outcome \<times> Workload" where
  "admitDispatch episode worker boot w =
     (case episode_index episode w of
        None \<Rightarrow> (Outcome.REJECT_EPISODE_INELIGIBLE, w)
      | Some k \<Rightarrow>
          if ep_state (wl_episodes w ! k) \<noteq> EpisodeState.ADMITTED \<and>
             ep_state (wl_episodes w ! k) \<noteq> EpisodeState.PREEMPTED
          then (Outcome.REJECT_EPISODE_INELIGIBLE, w)
          else
            let w1 = update_episode k (\<lambda>e. e\<lparr>ep_worker := worker, ep_boot := boot,
                       ep_state := EpisodeState.RUNNING\<rparr>) w
            in if wl_state w1 = WorkloadState.STARTING
               then guardedTransition WorkloadState.RUNNING (wl_generation w1) ''dispatch'' w1
               else (Outcome.ALLOW, w1))"

definition reportProgress ::
  "ExecutionEpisodeId \<Rightarrow> ExecutionEpisodeGeneration \<Rightarrow> u64 \<Rightarrow> bool \<Rightarrow> Workload \<Rightarrow> Outcome \<times> Workload" where
  "reportProgress episode episodeGen delta durable w =
     (case episode_index episode w of
        None \<Rightarrow> (Outcome.REJECT_EPISODE_INELIGIBLE, w)
      | Some k \<Rightarrow>
          if episodeGen \<noteq> ep_generation (wl_episodes w ! k) then (Outcome.REJECT_STALE_EPISODE, w)
          else if \<not> ep_authoritative (wl_episodes w ! k) then (Outcome.REJECT_EPISODE_INELIGIBLE, w)
          else if wl_cancelledFinal w \<or> isCancelling (wl_state w) then (Outcome.REJECT_CANCELLED, w)
          else if isTerminal (wl_state w) then (Outcome.REJECT_TERMINAL, w)
          else if pg_totalKind (wl_progress w) = TotalKind.KNOWN \<and>
                  pg_completed (wl_progress w) + delta > pg_total (wl_progress w)
          then (Outcome.REJECT_PROGRESS_DOUBLE_COUNT, w)
          else
            let a = advance delta durable (wl_progress w)
            in if \<not> fst a then (Outcome.REJECT_UNKNOWN, w)
               else
                 let w1 = w\<lparr>wl_progress := snd a\<rparr>
                 in (Outcome.ALLOW,
                     update_episode k (\<lambda>e.
                       let p = (ep_progress e)\<lparr>pg_completed := pg_completed (ep_progress e) + delta\<rparr>
                       in e\<lparr>ep_progress := (if durable then p\<lparr>pg_checkpointed := pg_completed p\<rparr> else p)\<rparr>) w1))"

section \<open>Completion and cancellation\<close>

definition completion_criterion :: "Workload \<Rightarrow> bool" where
  "completion_criterion w =
     (let cur_completed = (case currentEpisode w of None \<Rightarrow> False
                           | Some k \<Rightarrow> ep_completed (wl_episodes w ! k))
      in case cp_kind (po_completion (wl_policy w)) of
           CompletionKind.SINGLE_RESULT \<Rightarrow> cur_completed
         | CompletionKind.ALL_PHASES \<Rightarrow> cur_completed \<and> progress_complete (wl_progress w)
         | CompletionKind.REQUIRED_UNITS \<Rightarrow>
             pg_totalKind (wl_progress w) = TotalKind.KNOWN \<and>
             pg_completed (wl_progress w) \<ge> pg_total (wl_progress w)
         | CompletionKind.EXPLICIT_FINALIZE \<Rightarrow> False)"

definition commitCompletion :: "WorkloadGeneration \<Rightarrow> Workload \<Rightarrow> Outcome \<times> Workload" where
  "commitCompletion expecting w =
     (if expecting \<noteq> wl_generation w then (Outcome.REJECT_STALE_WORKLOAD_GENERATION, w)
      else if isTerminal (wl_state w) then (Outcome.REJECT_TERMINAL, w)
      else if wl_cancellationRequested w \<and> po_cancelRace (wl_policy w) = CancelRaceSemantics.CANCEL_FIRST
      then (Outcome.REJECT_CANCELLED, w)
      else if \<not> completion_criterion w then (Outcome.REJECT_COMPLETION_POLICY, w)
      else
        let w1 = (case currentEpisode w of None \<Rightarrow> w
                  | Some k \<Rightarrow> update_episode k (\<lambda>e. e\<lparr>ep_completed := True\<rparr>) w);
            w2 = w1\<lparr>wl_cancellationRequested := False, wl_cancellationWasRejected := True,
                    wl_completionGen := next_gen (wl_completionGen w1)\<rparr>;
            a = guardedTransition WorkloadState.COMPLETING expecting ''completion criteria met'' w2
        in if \<not> isAllow (fst a) then a
           else guardedTransition WorkloadState.COMPLETED (wl_generation (snd a)) ''workload completed'' (snd a))"

definition finalize :: "WorkloadGeneration \<Rightarrow> Workload \<Rightarrow> Outcome \<times> Workload" where
  "finalize expecting w =
     (if expecting \<noteq> wl_generation w then (Outcome.REJECT_STALE_WORKLOAD_GENERATION, w)
      else if cp_kind (po_completion (wl_policy w)) \<noteq> CompletionKind.EXPLICIT_FINALIZE
      then (Outcome.REJECT_COMPLETION_POLICY, w)
      else if isTerminal (wl_state w) then (Outcome.REJECT_TERMINAL, w)
      else
        let w1 = w\<lparr>wl_completionGen := next_gen (wl_completionGen w)\<rparr>;
            a = guardedTransition WorkloadState.COMPLETING expecting ''explicit finalize'' w1
        in if \<not> isAllow (fst a) then a
           else guardedTransition WorkloadState.COMPLETED (wl_generation (snd a)) ''finalized'' (snd a))"

definition requestCancellationWorkloadScope :: "WorkloadGeneration \<Rightarrow> Workload \<Rightarrow> Outcome \<times> Workload" where
  "requestCancellationWorkloadScope expecting w =
     (if expecting \<noteq> wl_generation w then (Outcome.REJECT_STALE_WORKLOAD_GENERATION, w)
      else if isTerminal (wl_state w) then (Outcome.REJECT_TERMINAL, w)
      else
        let w1 = w\<lparr>wl_cancellationRequested := True\<rparr>
        in if wl_state w1 = WorkloadState.CANCELLATION_REQUESTED \<or> wl_state w1 = WorkloadState.CANCELLING
           then (Outcome.ALLOW, w1)
           else if wl_state w1 = WorkloadState.COMPLETED \<or> wl_state w1 = WorkloadState.CANCELLED \<or>
             wl_state w1 = WorkloadState.FAILED_TERMINAL \<or> wl_state w1 = WorkloadState.SUPERSEDED
           then (Outcome.REJECT_TERMINAL, w1)
           else guardedTransition WorkloadState.CANCELLATION_REQUESTED expecting ''cancellation requested'' w1)"

definition completeCancellation :: "WorkloadGeneration \<Rightarrow> Workload \<Rightarrow> Outcome \<times> Workload" where
  "completeCancellation expecting w =
     (if expecting \<noteq> wl_generation w then (Outcome.REJECT_STALE_WORKLOAD_GENERATION, w)
      else if wl_state w = WorkloadState.CANCELLED then (Outcome.ALLOW, w\<lparr>wl_cancelledFinal := True\<rparr>)
      else if isTerminal (wl_state w) then (Outcome.REJECT_TERMINAL, w)
      else
        let w1 = w\<lparr>wl_cancelledFinal := True, wl_cancellationRequested := True\<rparr>;
            a = guardedTransition WorkloadState.CANCELLATION_REQUESTED expecting ''cancelling'' w1
        in if \<not> isAllow (fst a) then a
           else
             let b = guardedTransition WorkloadState.CANCELLING (wl_generation (snd a)) ''cancelling'' (snd a)
             in if \<not> isAllow (fst b) then b
                else guardedTransition WorkloadState.CANCELLED (wl_generation (snd b)) ''cancelled'' (snd b))"

section \<open>Loss, failure and restart\<close>

definition onWorkerLost ::
  "WorkerId \<Rightarrow> WorkerBootId \<Rightarrow> WorkloadGeneration \<Rightarrow> Workload \<Rightarrow> Outcome \<times> Workload" where
  "onWorkerLost worker boot expecting w =
     (if expecting \<noteq> wl_generation w then (Outcome.REJECT_STALE_WORKLOAD_GENERATION, w)
      else case currentEpisode w of
        None \<Rightarrow> (Outcome.REJECT_EPISODE_INELIGIBLE, w)
      | Some k \<Rightarrow>
          if ep_worker (wl_episodes w ! k) \<noteq> worker \<or> ep_boot (wl_episodes w ! k) \<noteq> boot
          then (Outcome.REJECT_STALE_BOOT, w)
          else
            let w1 = update_episode k (\<lambda>e. e\<lparr>ep_workerLost := True, ep_state := EpisodeState.LOST\<rparr>) w
            in if wl_state w1 = WorkloadState.RUNNING \<or> wl_state w1 = WorkloadState.DEGRADED
               then guardedTransition WorkloadState.RECOVERING expecting ''worker lost'' w1
               else (Outcome.ALLOW, w1))"

definition markEpisodeCompleted :: "ExecutionEpisodeId \<Rightarrow> Workload \<Rightarrow> Outcome \<times> Workload" where
  "markEpisodeCompleted i w =
     (case episode_index i w of
        Some k \<Rightarrow> (Outcome.ALLOW,
          update_episode k (\<lambda>e. e\<lparr>ep_completed := True, ep_state := EpisodeState.COMPLETED\<rparr>) w)
      | None \<Rightarrow> (Outcome.REJECT_EPISODE_INELIGIBLE, w))"

definition markEpisodeFailed :: "ExecutionEpisodeId \<Rightarrow> Workload \<Rightarrow> Outcome \<times> Workload" where
  "markEpisodeFailed i w =
     (case episode_index i w of
        Some k \<Rightarrow> (Outcome.ALLOW,
          update_episode k (\<lambda>e. e\<lparr>ep_failed := True, ep_state := EpisodeState.FAILED\<rparr>) w)
      | None \<Rightarrow> (Outcome.REJECT_EPISODE_INELIGIBLE, w))"

definition currentEpisodeId :: "Workload \<Rightarrow> ExecutionEpisodeId" where
  "currentEpisodeId w =
     (case currentEpisode w of Some k \<Rightarrow> ep_id (wl_episodes w ! k) | None \<Rightarrow> no_value)"

text \<open>Whether a restart trigger is in the class a restart kind admits.\<close>

definition restart_class_allowed :: "RestartKind \<Rightarrow> string \<Rightarrow> bool" where
  "restart_class_allowed k reason =
     (case k of
        RestartKind.ALWAYS_WITH_LIMIT \<Rightarrow> True
      | RestartKind.ON_KNOWN_FAILURE \<Rightarrow> reason \<noteq> ''WORKER_LOSS''
      | RestartKind.ON_WORKER_LOSS \<Rightarrow> reason = ''WORKER_LOSS''
      | RestartKind.ON_INFRASTRUCTURE_FAILURE \<Rightarrow> reason = ''INFRASTRUCTURE_LOSS'' \<or> reason = ''WORKER_LOSS''
      | RestartKind.ON_AMBIGUOUS_EXECUTION \<Rightarrow> reason = ''AMBIGUOUS_EXECUTION''
      | RestartKind.NEVER \<Rightarrow> False
      | RestartKind.MANUAL_ONLY \<Rightarrow> False)"

definition planRestart :: "WorkloadGeneration \<Rightarrow> string \<Rightarrow> Workload \<Rightarrow> Outcome \<times> Workload" where
  "planRestart expecting reason w =
     (if expecting \<noteq> wl_generation w then (Outcome.REJECT_STALE_WORKLOAD_GENERATION, w)
      else if isTerminal (wl_state w) then (Outcome.REJECT_TERMINAL, w)
      else
        let rp = po_restart (wl_policy w);
            classAllowed = restart_class_allowed (rp_kind rp) reason
        in if \<not> classAllowed \<or> \<not> restartAllowed (wl_restartCount w) (rp_maxRestarts rp)
           then (Outcome.REJECT_RESTART_LIMIT, w)
           else
             let w1 = w\<lparr>wl_restartCount := wl_restartCount w + 1,
                        wl_restartGen := next_gen (wl_restartGen w),
                        wl_lastRestartReason := reason\<rparr>;
                 w2 = (case currentEpisode w1 of None \<Rightarrow> w1
                       | Some k \<Rightarrow> w1\<lparr>wl_lastSourceEpisode := ep_id (wl_episodes w1 ! k)\<rparr>)
             in if wl_state w2 = WorkloadState.RESTART_PENDING then (Outcome.ALLOW, w2)
                else guardedTransition WorkloadState.RESTART_PENDING expecting ''restart pending'' w2)"

section \<open>Suspension and migration\<close>

definition requestSuspend :: "WorkloadGeneration \<Rightarrow> Workload \<Rightarrow> Outcome \<times> Workload" where
  "requestSuspend expecting w =
     (if expecting \<noteq> wl_generation w then (Outcome.REJECT_STALE_WORKLOAD_GENERATION, w)
      else if \<not> sp_allowed (po_suspension (wl_policy w)) then (Outcome.REJECT_DEGRADED_POLICY, w)
      else if \<not> isActivelyRunning (wl_state w) then (Outcome.REJECT_NOT_SUSPENDED, w)
      else if wl_state w = WorkloadState.SUSPEND_REQUESTED then (Outcome.ALLOW, w)
      else guardedTransition WorkloadState.SUSPEND_REQUESTED expecting ''suspend requested'' w)"

definition completeSuspend :: "WorkloadGeneration \<Rightarrow> Workload \<Rightarrow> Outcome \<times> Workload" where
  "completeSuspend expecting w =
     (if expecting \<noteq> wl_generation w then (Outcome.REJECT_STALE_WORKLOAD_GENERATION, w)
      else if wl_state w = WorkloadState.SUSPENDED then (Outcome.ALLOW, w)
      else if wl_state w \<noteq> WorkloadState.SUSPEND_REQUESTED \<and> wl_state w \<noteq> WorkloadState.SUSPENDING
      then (Outcome.REJECT_NOT_RESUMABLE, w)
      else
        let w1 = (case currentEpisode w of None \<Rightarrow> w
                  | Some k \<Rightarrow> update_episode k (\<lambda>e. e\<lparr>ep_state := EpisodeState.SUSPENDED,
                                                    ep_workerLost := False\<rparr>) w)
        in if wl_state w1 = WorkloadState.SUSPEND_REQUESTED
           then
             let a = guardedTransition WorkloadState.SUSPENDING expecting ''suspending'' w1
             in if \<not> isAllow (fst a) then a
                else guardedTransition WorkloadState.SUSPENDED (wl_generation (snd a)) ''suspended'' (snd a)
           else guardedTransition WorkloadState.SUSPENDED expecting ''suspended'' w1)"

definition requestResume :: "WorkloadGeneration \<Rightarrow> Workload \<Rightarrow> Outcome \<times> Workload" where
  "requestResume expecting w =
     (if expecting \<noteq> wl_generation w then (Outcome.REJECT_STALE_WORKLOAD_GENERATION, w)
      else if wl_state w \<noteq> WorkloadState.SUSPENDED \<and> wl_state w \<noteq> WorkloadState.PREEMPTED
      then (Outcome.REJECT_NOT_SUSPENDED, w)
      else guardedTransition WorkloadState.READY expecting ''resume eligible'' w)"

definition requestMigration :: "WorkloadGeneration \<Rightarrow> Workload \<Rightarrow> Outcome \<times> Workload" where
  "requestMigration expecting w =
     (if expecting \<noteq> wl_generation w then (Outcome.REJECT_STALE_WORKLOAD_GENERATION, w)
      else if mp_eligibility (po_migration (wl_policy w)) = MigrationEligibility.NONE
      then (Outcome.REJECT_MIGRATION_INELIGIBLE, w)
      else if \<not> isActivelyRunning (wl_state w) \<and> wl_state w \<noteq> WorkloadState.MIGRATION_PENDING
      then (Outcome.REJECT_MIGRATION_INELIGIBLE, w)
      else
        let w1 = w\<lparr>wl_migrationId := fromU64 (toU64 (wl_migrationId w) + 1),
                   wl_migrationGen := next_gen (wl_migrationGen w)\<rparr>
        in if wl_state w1 = WorkloadState.MIGRATION_PENDING then (Outcome.ALLOW, w1)
           else if wl_state w1 = WorkloadState.MIGRATING then (Outcome.ALLOW, w1)
           else guardedTransition WorkloadState.MIGRATION_PENDING expecting ''migration requested'' w1)"

definition commitMigration ::
  "WorkloadGeneration \<Rightarrow> WorkerId \<Rightarrow> WorkerBootId \<Rightarrow> Workload \<Rightarrow> Outcome \<times> Workload" where
  "commitMigration expecting targetWorker targetBoot w =
     (if expecting \<noteq> wl_generation w then (Outcome.REJECT_STALE_WORKLOAD_GENERATION, w)
      else if wl_state w \<noteq> WorkloadState.MIGRATION_PENDING \<and> wl_state w \<noteq> WorkloadState.MIGRATING
      then (Outcome.REJECT_MIGRATION_INELIGIBLE, w)
      else
        let a = (if wl_state w = WorkloadState.MIGRATION_PENDING
                 then guardedTransition WorkloadState.MIGRATING expecting ''migrating'' w
                 else (Outcome.ALLOW, w))
        in if \<not> isAllow (fst a) then a
           else
             let w1 = snd a;
                 target = default_episode\<lparr>ep_id := fromU64 (wl_episodeCounterForMigration w1),
                   ep_generation := fromU64 1, ep_state := EpisodeState.RUNNING,
                   ep_worker := targetWorker, ep_boot := targetBoot, ep_owner := wl_owner w1,
                   ep_ownerGeneration := wl_ownerGeneration w1, ep_intent := wl_intent w1,
                   ep_authoritative := True, ep_progress := wl_progress w1\<rparr>;
                 w2 = append_authoritative target
                        (w1\<lparr>wl_episodeCounterForMigration := wl_episodeCounterForMigration w1 + 1\<rparr>);
                 w3 = w2\<lparr>wl_generation := next_gen (wl_generation w2)\<rparr>
             in guardedTransition WorkloadState.RUNNING (wl_generation w3) ''migration committed'' w3)"

end
