(* ===== verification/Workload_Steps.thy ===== *)
theory Workload_Steps
  imports Workloads
begin

text \<open>
  What every operation of the aggregate promises, as an interface. The locale
  \<open>lifecycle_operation\<close> states the laws one operation keeps (legal paths only, generations
  that stand or advance by one, monotone progress, one authority, bounded restarts, an append-only
  history); \<open>fenced_operation\<close> adds the rejection of stale generations. Each operation of
  \<open>workload.cpp\<close> is an instance, and what holds for one operation then holds for every
  sequence of them.
\<close>

section \<open>Guarded transitions\<close>

lemma record_transition_frame [frame, simp]:
  "wl_id (record_transition f t r out w) = wl_id w"
  "wl_generation (record_transition f t r out w) = wl_generation w"
  "wl_state (record_transition f t r out w) = wl_state w"
  "wl_name (record_transition f t r out w) = wl_name w"
  "wl_intent (record_transition f t r out w) = wl_intent w"
  "wl_policy (record_transition f t r out w) = wl_policy w"
  "wl_contract (record_transition f t r out w) = wl_contract w"
  "wl_deps (record_transition f t r out w) = wl_deps w"
  "wl_priority (record_transition f t r out w) = wl_priority w"
  "wl_progress (record_transition f t r out w) = wl_progress w"
  "wl_owner (record_transition f t r out w) = wl_owner w"
  "wl_ownerGeneration (record_transition f t r out w) = wl_ownerGeneration w"
  "wl_epoch (record_transition f t r out w) = wl_epoch w"
  "wl_restartCount (record_transition f t r out w) = wl_restartCount w"
  "wl_restartGen (record_transition f t r out w) = wl_restartGen w"
  "wl_migrationId (record_transition f t r out w) = wl_migrationId w"
  "wl_migrationGen (record_transition f t r out w) = wl_migrationGen w"
  "wl_completionGen (record_transition f t r out w) = wl_completionGen w"
  "wl_cancellationRequested (record_transition f t r out w) = wl_cancellationRequested w"
  "wl_cancelledFinal (record_transition f t r out w) = wl_cancelledFinal w"
  "wl_cancellationWasRejected (record_transition f t r out w) = wl_cancellationWasRejected w"
  "wl_lastRestartReason (record_transition f t r out w) = wl_lastRestartReason w"
  "wl_lastSourceEpisode (record_transition f t r out w) = wl_lastSourceEpisode w"
  "wl_episodeCounterForMigration (record_transition f t r out w) = wl_episodeCounterForMigration w"
  "wl_episodes (record_transition f t r out w) = wl_episodes w"
  by (simp_all add: record_transition_def)

lemma record_transition_history [simp]:
  "wl_revision (record_transition f t r out w) = next_gen (wl_revision w)"
  "wl_history (record_transition f t r out w) = wl_history w @
     [\<lparr>tr_from = f, tr_to = t, tr_generation = wl_generation w, tr_timestampMs = 0,
       tr_reason = r, tr_outcome = out\<rparr>]"
  by (simp_all add: record_transition_def)

lemma guardedTransition_frame [frame, simp]:
  "wl_id (snd (guardedTransition t e r w)) = wl_id w"
  "wl_generation (snd (guardedTransition t e r w)) = wl_generation w"
  "wl_name (snd (guardedTransition t e r w)) = wl_name w"
  "wl_intent (snd (guardedTransition t e r w)) = wl_intent w"
  "wl_policy (snd (guardedTransition t e r w)) = wl_policy w"
  "wl_contract (snd (guardedTransition t e r w)) = wl_contract w"
  "wl_deps (snd (guardedTransition t e r w)) = wl_deps w"
  "wl_priority (snd (guardedTransition t e r w)) = wl_priority w"
  "wl_progress (snd (guardedTransition t e r w)) = wl_progress w"
  "wl_owner (snd (guardedTransition t e r w)) = wl_owner w"
  "wl_ownerGeneration (snd (guardedTransition t e r w)) = wl_ownerGeneration w"
  "wl_epoch (snd (guardedTransition t e r w)) = wl_epoch w"
  "wl_restartCount (snd (guardedTransition t e r w)) = wl_restartCount w"
  "wl_restartGen (snd (guardedTransition t e r w)) = wl_restartGen w"
  "wl_migrationId (snd (guardedTransition t e r w)) = wl_migrationId w"
  "wl_migrationGen (snd (guardedTransition t e r w)) = wl_migrationGen w"
  "wl_completionGen (snd (guardedTransition t e r w)) = wl_completionGen w"
  "wl_cancellationRequested (snd (guardedTransition t e r w)) = wl_cancellationRequested w"
  "wl_cancelledFinal (snd (guardedTransition t e r w)) = wl_cancelledFinal w"
  "wl_cancellationWasRejected (snd (guardedTransition t e r w)) = wl_cancellationWasRejected w"
  "wl_lastRestartReason (snd (guardedTransition t e r w)) = wl_lastRestartReason w"
  "wl_lastSourceEpisode (snd (guardedTransition t e r w)) = wl_lastSourceEpisode w"
  "wl_episodeCounterForMigration (snd (guardedTransition t e r w)) = wl_episodeCounterForMigration w"
  "wl_episodes (snd (guardedTransition t e r w)) = wl_episodes w"
  by (simp_all add: guardedTransition_def Let_def)

text \<open>The gate on completion without execution.\<close>

definition zero_work_blocked :: "Workload \<Rightarrow> WorkloadState \<Rightarrow> bool" where
  "zero_work_blocked w t \<longleftrightarrow> t = WorkloadState.COMPLETED \<and> wl_state w = WorkloadState.CREATED \<and>
     \<not> cp_allowZeroWorkCompletion (po_completion (wl_policy w))"

lemma guardedTransition_cases:
  obtains (stale) "e \<noteq> wl_generation w"
      "guardedTransition t e r w = (Outcome.REJECT_STALE_WORKLOAD_GENERATION,
         record_transition (wl_state w) t r Outcome.REJECT_STALE_WORKLOAD_GENERATION w)"
  | (same) "e = wl_generation w" "wl_state w = t" "guardedTransition t e r w = (Outcome.ALLOW, w)"
  | (terminal) "e = wl_generation w" "wl_state w \<noteq> t" "isTerminal (wl_state w)"
      "guardedTransition t e r w = (Outcome.REJECT_TERMINAL,
         record_transition (wl_state w) t r Outcome.REJECT_TERMINAL w)"
  | (no_edge) "e = wl_generation w" "wl_state w \<noteq> t" "\<not> isTerminal (wl_state w)"
      "\<not> canTransition (wl_state w) t"
      "guardedTransition t e r w = (Outcome.REJECT_INVALID_TRANSITION,
         record_transition (wl_state w) t r Outcome.REJECT_INVALID_TRANSITION w)"
  | (zero_work) "e = wl_generation w" "canTransition (wl_state w) t" "zero_work_blocked w t"
      "guardedTransition t e r w = (Outcome.REJECT_COMPLETION_POLICY,
         record_transition (wl_state w) t r Outcome.REJECT_COMPLETION_POLICY w)"
  | (taken) "e = wl_generation w" "wl_state w \<noteq> t" "canTransition (wl_state w) t"
      "\<not> zero_work_blocked w t"
      "guardedTransition t e r w = (Outcome.ALLOW,
         record_transition (wl_state w) t r Outcome.ALLOW (w\<lparr>wl_state := t\<rparr>))"
proof -
  have gate: "zero_work_blocked w t \<longleftrightarrow> t = WorkloadState.COMPLETED \<and>
      \<not> cp_allowZeroWorkCompletion (po_completion (wl_policy w)) \<and>
      (wl_state w = WorkloadState.CREATED \<or> wl_state w = WorkloadState.VALIDATING \<or>
       wl_state w = WorkloadState.BLOCKED \<or> wl_state w = WorkloadState.WAITING_FOR_DEPENDENCIES \<or>
       wl_state w = WorkloadState.WAITING_FOR_RESOURCES)" if "canTransition (wl_state w) t"
    using that by (auto simp: zero_work_blocked_def canTransition_to_COMPLETED)
  show thesis
  proof (cases "e = wl_generation w")
    case False
    then show thesis by (intro stale) (simp_all add: guardedTransition_def)
  next
    case e: True
    show thesis
    proof (cases "wl_state w = t")
      case True
      with e show thesis by (intro same) (simp_all add: guardedTransition_def)
    next
      case ne: False
      show thesis
      proof (cases "canTransition (wl_state w) t")
        case True
        then have "\<not> isTerminal (wl_state w)" using terminal_no_successor by blast
        with e ne True gate show thesis
          by (cases "zero_work_blocked w t")
            (intro zero_work taken; simp add: guardedTransition_def Let_def; fail)+
      next
        case False
        with e ne show thesis
          by (cases "isTerminal (wl_state w)")
            (intro terminal no_edge; simp add: guardedTransition_def; fail)+
      qed
    qed
  qed
qed

lemma guardedTransition_allow_iff:
  "fst (guardedTransition t e r w) = Outcome.ALLOW \<longleftrightarrow>
     e = wl_generation w \<and> (wl_state w = t \<or> canTransition (wl_state w) t \<and> \<not> zero_work_blocked w t)"
  by (cases rule: guardedTransition_cases [of e w t r]) (auto simp: zero_work_blocked_def terminal_no_successor)

lemma guardedTransition_state:
  "wl_state (snd (guardedTransition t e r w)) =
     (if fst (guardedTransition t e r w) = Outcome.ALLOW then t else wl_state w)"
  by (cases rule: guardedTransition_cases [of e w t r]) simp_all

lemma guardedTransition_path:
  "lifecycle_path s (wl_state w) \<Longrightarrow> lifecycle_path s (wl_state (snd (guardedTransition t e r w)))"
  by (cases rule: guardedTransition_cases [of e w t r]) (auto intro: path_step)

section \<open>Authority, episodes, history\<close>

definition authorities :: "Episode list \<Rightarrow> nat" where
  "authorities es = length (filter ep_authoritative es)"

definition episodes_extend :: "Episode list \<Rightarrow> Episode list \<Rightarrow> bool" where
  "episodes_extend es es' \<longleftrightarrow> length es \<le> length es' \<and>
     (\<forall>k<length es. ep_id (es' ! k) = ep_id (es ! k) \<and>
        (ep_authoritative (es' ! k) \<longrightarrow> ep_authoritative (es ! k)))"

text \<open>
  An episode keeps its place and its identity, and authority it has lost is not given back.
\<close>

lemma episodes_extendD:
  assumes "episodes_extend es es'" and "k < length es"
  shows "k < length es'" "ep_id (es' ! k) = ep_id (es ! k)"
    "ep_authoritative (es' ! k) \<Longrightarrow> ep_authoritative (es ! k)"
  using assms by (auto simp: episodes_extend_def)

text \<open>
  \<open>replays p s hs t\<close>: the granted entries of the audit trail \<open>hs\<close> lead from state
  \<open>s\<close> to state \<open>t\<close>, each along an edge of the transition table that the zero-work gate of
  policy \<open>p\<close> leaves open; rejected entries were recorded in the state they leave unchanged.
\<close>

definition edge_open :: "Policy \<Rightarrow> WorkloadState \<Rightarrow> WorkloadState \<Rightarrow> bool" where
  "edge_open p s t \<longleftrightarrow> canTransition s t \<and>
     (cp_allowZeroWorkCompletion (po_completion p) \<or> s \<noteq> WorkloadState.CREATED \<or> t \<noteq> WorkloadState.COMPLETED)"

fun replays :: "Policy \<Rightarrow> WorkloadState \<Rightarrow> TransitionRecord list \<Rightarrow> WorkloadState \<Rightarrow> bool" where
  "replays p s [] t \<longleftrightarrow> s = t"
| "replays p s (h # hs) t \<longleftrightarrow> tr_from h = s \<and>
     (if tr_outcome h = Outcome.ALLOW then edge_open p s (tr_to h) \<and> replays p (tr_to h) hs t
      else replays p s hs t)"

definition audited :: "Workload \<Rightarrow> Workload \<Rightarrow> bool" where
  "audited w w' \<longleftrightarrow> wl_policy w' = wl_policy w \<and> (\<exists>new. wl_history w' = wl_history w @ new \<and>
     wl_revision w' = (next_gen ^^ length new) (wl_revision w) \<and>
     replays (wl_policy w) (wl_state w) new (wl_state w'))"

definition restart_step :: "Policy \<Rightarrow> u32 \<Rightarrow> u32 \<Rightarrow> bool" where
  "restart_step p n n' \<longleftrightarrow>
     n' = n \<or> restartAllowed n (rp_maxRestarts (po_restart p)) \<and> n' = n + 1"

lemma map_list_update_same: "(\<And>e. g (f e) = g e) \<Longrightarrow> map g (xs[k := f (xs ! k)]) = map g xs"
  by (cases "k < length xs") (simp_all add: map_update list_update_same_conv list_update_beyond)

lemma authorities_update [simp]:
  assumes "\<And>e. ep_authoritative (f e) = ep_authoritative e"
  shows "authorities (es[k := f (es ! k)]) = authorities es"
proof -
  have count: "authorities xs = length (filter id (map ep_authoritative xs))" for xs
    by (simp add: authorities_def filter_map comp_def)
  have "map ep_authoritative (es[k := f (es ! k)]) = map ep_authoritative es"
    using assms by (rule map_list_update_same)
  then show ?thesis by (simp only: count)
qed

lemma episodes_extend_refl [simp]: "episodes_extend es es"
  by (simp add: episodes_extend_def)

lemma episodes_extend_update [simp]:
  "(\<And>e. ep_id (f e) = ep_id e) \<Longrightarrow> (\<And>e. ep_authoritative (f e) = ep_authoritative e) \<Longrightarrow>
   episodes_extend es (es[k := f (es ! k)])"
  by (cases "k < length es") (auto simp: episodes_extend_def nth_list_update list_update_beyond)

lemma episodes_extend_trans:
  "episodes_extend a b \<Longrightarrow> episodes_extend b c \<Longrightarrow> episodes_extend a c"
  by (auto simp: episodes_extend_def intro: order_trans)

lemma append_authoritative_episodes [simp]:
  "episodes_extend (wl_episodes w) (wl_episodes (append_authoritative ep w))"
  "ep_authoritative ep \<Longrightarrow> authorities (wl_episodes (append_authoritative ep w)) = Suc 0"
  by (simp_all add: append_authoritative_def authorities_def episodes_extend_def comp_def filter_map nth_append)

lemma append_authoritative_frame [frame, simp]:
  "wl_id (append_authoritative ep w) = wl_id w"
  "wl_generation (append_authoritative ep w) = wl_generation w"
  "wl_revision (append_authoritative ep w) = wl_revision w"
  "wl_state (append_authoritative ep w) = wl_state w"
  "wl_policy (append_authoritative ep w) = wl_policy w"
  "wl_contract (append_authoritative ep w) = wl_contract w"
  "wl_deps (append_authoritative ep w) = wl_deps w"
  "wl_progress (append_authoritative ep w) = wl_progress w"
  "wl_restartCount (append_authoritative ep w) = wl_restartCount w"
  "wl_cancelledFinal (append_authoritative ep w) = wl_cancelledFinal w"
  "wl_history (append_authoritative ep w) = wl_history w"
  by (simp_all add: append_authoritative_def)

lemma replays_append: "replays p s hs t \<Longrightarrow> replays p t hs' u \<Longrightarrow> replays p s (hs @ hs') u"
  by (induction hs arbitrary: s) (auto split: if_splits)

lemma replays_path: "replays p s hs t \<Longrightarrow> lifecycle_path s t"
  by (induction hs arbitrary: s) (auto simp: edge_open_def intro: path_refl path_edge_then split: if_splits)

lemma audited_refl: "audited w w"
  by (simp add: audited_def)

lemma audited_trans:
  assumes "audited u v" and "audited v w"
  shows "audited u w"
proof -
  from assms obtain a b where
    a: "wl_history v = wl_history u @ a" "wl_revision v = (next_gen ^^ length a) (wl_revision u)"
      "replays (wl_policy u) (wl_state u) a (wl_state v)" "wl_policy v = wl_policy u" and
    b: "wl_history w = wl_history v @ b" "wl_revision w = (next_gen ^^ length b) (wl_revision v)"
      "replays (wl_policy v) (wl_state v) b (wl_state w)" "wl_policy w = wl_policy v"
    unfolding audited_def by blast
  from a b have "wl_history w = wl_history u @ (a @ b)"
    "wl_revision w = (next_gen ^^ length (a @ b)) (wl_revision u)"
    "replays (wl_policy u) (wl_state u) (a @ b) (wl_state w)" "wl_policy w = wl_policy u"
    by (simp_all add: funpow_add add.commute [of "length a"] replays_append)
  then show ?thesis unfolding audited_def by blast
qed

lemma audited_cong:
  "wl_history v' = wl_history v \<Longrightarrow> wl_revision v' = wl_revision v \<Longrightarrow> wl_state v' = wl_state v \<Longrightarrow>
   wl_policy v' = wl_policy v \<Longrightarrow> audited w v' = audited w v"
  by (simp add: audited_def)

lemma guardedTransition_audited: "audited w (snd (guardedTransition t e r w))"
  by (cases rule: guardedTransition_cases [of e w t r])
    (auto simp: audited_def edge_open_def zero_work_blocked_def)

lemma restart_step_refl [simp]: "restart_step p n n"
  by (simp add: restart_step_def)

lemma advance_le [simp]: "pg_completed p \<le> pg_completed (snd (advance d b p))"
  by (rule advance_mono)

section \<open>The contract of one operation\<close>

locale lifecycle_operation =
  fixes op :: "Workload \<Rightarrow> Outcome \<times> Workload"
  assumes same_id: "wl_id (snd (op w)) = wl_id w"
    and same_policy: "wl_policy (snd (op w)) = wl_policy w"
    and audit: "audited w (snd (op w))"
    and generation: "wl_generation (snd (op w)) = wl_generation w \<or>
      wl_generation (snd (op w)) = next_gen (wl_generation w)"
    and progress: "pg_completed (wl_progress w) \<le> pg_completed (wl_progress (snd (op w)))"
    and authority: "authorities (wl_episodes w) \<le> Suc 0 \<Longrightarrow> authorities (wl_episodes (snd (op w))) \<le> Suc 0"
    and restarts: "restart_step (wl_policy w) (wl_restartCount w) (wl_restartCount (snd (op w)))"
    and episodes: "episodes_extend (wl_episodes w) (wl_episodes (snd (op w)))"
    and deps_wf: "dset_wf (wl_deps w) \<Longrightarrow> dset_wf (wl_deps (snd (op w)))"
    and contract: "contract_wf (wl_contract w) \<Longrightarrow> contract_wf (wl_contract (snd (op w)))"
begin

lemma path: "lifecycle_path (wl_state w) (wl_state (snd (op w)))"
  using audit [of w] replays_path by (auto simp: audited_def)

lemma terminal_absorbing: "isTerminal (wl_state w) \<Longrightarrow> wl_state (snd (op w)) = wl_state w"
  using path [of w] by (rule path_from_terminal)

lemma restart_limit:
  assumes "wl_restartCount w \<le> rp_maxRestarts (po_restart (wl_policy w))"
  shows "wl_restartCount (snd (op w)) \<le> rp_maxRestarts (po_restart (wl_policy (snd (op w))))"
  using restarts [of w] assms restartAllowed_succ [of "wl_restartCount w"]
  by (auto simp: restart_step_def same_policy)

lemma generation_mono: "toU64 (wl_generation w) \<noteq> - 1 \<Longrightarrow> wl_generation w \<le> wl_generation (snd (op w))"
  using generation [of w] next_gen_greater [of "wl_generation w"] by auto

end

locale fenced_operation = lifecycle_operation op for op +
  fixes expecting :: WorkloadGeneration
  assumes stale: "expecting \<noteq> wl_generation w \<Longrightarrow>
    op w = (Outcome.REJECT_STALE_WORKLOAD_GENERATION, w)"
begin

lemma allowed_current: "fst (op w) = Outcome.ALLOW \<Longrightarrow> expecting = wl_generation w"
  by (cases "expecting = wl_generation w") (simp_all add: stale)

lemma stale_unchanged: "expecting \<noteq> wl_generation w \<Longrightarrow> snd (op w) = w"
  by (simp add: stale)

end

section \<open>The contract as a relation between two states\<close>

text \<open>
  The laws of the locale for one pair of states. The rules below follow an operation through its
  assignments; each of them extends the relation by one assignment.
\<close>

definition step_ok :: "Workload \<Rightarrow> Workload \<Rightarrow> bool" where
  "step_ok w w' \<longleftrightarrow> wl_id w' = wl_id w \<and> wl_policy w' = wl_policy w \<and> audited w w' \<and>
     (wl_generation w' = wl_generation w \<or> wl_generation w' = next_gen (wl_generation w)) \<and>
     pg_completed (wl_progress w) \<le> pg_completed (wl_progress w') \<and>
     (authorities (wl_episodes w) \<le> Suc 0 \<longrightarrow> authorities (wl_episodes w') \<le> Suc 0) \<and>
     restart_step (wl_policy w) (wl_restartCount w) (wl_restartCount w') \<and>
     episodes_extend (wl_episodes w) (wl_episodes w') \<and>
     (dset_wf (wl_deps w) \<longrightarrow> dset_wf (wl_deps w')) \<and>
     (contract_wf (wl_contract w) \<longrightarrow> contract_wf (wl_contract w'))"

lemma lifecycle_operationI: "(\<And>w. step_ok w (snd (op w))) \<Longrightarrow> lifecycle_operation op"
  unfolding lifecycle_operation_def step_ok_def by blast

lemma fenced_operationI:
  "(\<And>w. step_ok w (snd (op w))) \<Longrightarrow>
   (\<And>w. e \<noteq> wl_generation w \<Longrightarrow> op w = (Outcome.REJECT_STALE_WORKLOAD_GENERATION, w)) \<Longrightarrow>
   fenced_operation op e"
  by (intro fenced_operation.intro fenced_operation_axioms.intro lifecycle_operationI)

lemma step_ok_refl [simp]: "step_ok w w"
  by (simp add: step_ok_def audited_refl)

lemma step_ok_guarded: "step_ok w v \<Longrightarrow> step_ok w (snd (guardedTransition t e r v))"
  by (auto simp: step_ok_def intro: audited_trans guardedTransition_audited)

lemma step_ok_episode:
  "step_ok w v \<Longrightarrow> (\<And>e. ep_id (f e) = ep_id e) \<Longrightarrow> (\<And>e. ep_authoritative (f e) = ep_authoritative e) \<Longrightarrow>
   step_ok w (update_episode k f v)"
  by (auto simp: step_ok_def update_episode_def audited_def intro: episodes_extend_trans)

lemma step_ok_append: "step_ok w v \<Longrightarrow> ep_authoritative ep \<Longrightarrow> step_ok w (append_authoritative ep v)"
  by (auto simp: step_ok_def audited_def intro: episodes_extend_trans)

lemma step_ok_generation:
  "step_ok w v \<Longrightarrow> wl_generation v = wl_generation w \<Longrightarrow> g = next_gen (wl_generation w) \<Longrightarrow>
   step_ok w (v\<lparr>wl_generation := g\<rparr>)"
  by (simp add: step_ok_def audited_def)

lemma step_ok_progress:
  "step_ok w v \<Longrightarrow> step_ok w (v\<lparr>wl_progress := snd (advance d b (wl_progress v))\<rparr>)"
  using advance_mono [of "wl_progress v" d b] by (auto simp: step_ok_def audited_def intro: order_trans)

lemma step_ok_restart:
  "step_ok w v \<Longrightarrow> restartAllowed (wl_restartCount w) (rp_maxRestarts (po_restart (wl_policy w))) \<Longrightarrow>
   n = wl_restartCount w + 1 \<Longrightarrow> step_ok w (v\<lparr>wl_restartCount := n\<rparr>)"
  by (simp add: step_ok_def restart_step_def audited_def)

lemma step_ok_contract:
  "step_ok w v \<Longrightarrow> (contract_wf (wl_contract v) \<Longrightarrow> contract_wf c) \<Longrightarrow> step_ok w (v\<lparr>wl_contract := c\<rparr>)"
  by (simp add: step_ok_def audited_def)

lemma step_ok_deps:
  "step_ok w v \<Longrightarrow> (dset_wf (wl_deps v) \<Longrightarrow> dset_wf d) \<Longrightarrow> step_ok w (v\<lparr>wl_deps := d\<rparr>)"
  by (simp add: step_ok_def audited_def)

text \<open>Assignments to the other fields do not matter.\<close>

lemma step_ok_irrelevant [simp]:
  "step_ok w (v\<lparr>wl_cancelledFinal := x2\<rparr>) = step_ok w v"
  "step_ok w (v\<lparr>wl_cancellationRequested := x2\<rparr>) = step_ok w v"
  "step_ok w (v\<lparr>wl_cancellationWasRejected := x2\<rparr>) = step_ok w v"
  "step_ok w (v\<lparr>wl_completionGen := x3\<rparr>) = step_ok w v"
  "step_ok w (v\<lparr>wl_restartGen := x4\<rparr>) = step_ok w v"
  "step_ok w (v\<lparr>wl_lastRestartReason := x5\<rparr>) = step_ok w v"
  "step_ok w (v\<lparr>wl_lastSourceEpisode := x6\<rparr>) = step_ok w v"
  "step_ok w (v\<lparr>wl_migrationId := x7\<rparr>) = step_ok w v"
  "step_ok w (v\<lparr>wl_migrationGen := x8\<rparr>) = step_ok w v"
  "step_ok w (v\<lparr>wl_episodeCounterForMigration := x9\<rparr>) = step_ok w v"
  by (simp_all add: step_ok_def audited_def)

lemmas step_ok_intros = step_ok_guarded step_ok_episode step_ok_append step_ok_generation
  step_ok_progress step_ok_restart step_ok_contract step_ok_deps

section \<open>Every operation keeps the contract\<close>

lemma settle_ok: "step_ok w (snd (settle e w))"
  by (simp add: settle_def Let_def step_ok_intros split: option.split)

lemma startEpisode_ok: "step_ok w (snd (startEpisode i ow og adv w))"
  by (simp add: startEpisode_def Let_def step_ok_intros)

lemma admitDispatch_ok: "step_ok w (snd (admitDispatch ep wk b w))"
  by (simp add: admitDispatch_def Let_def step_ok_intros split: option.split)

lemma reportProgress_ok: "step_ok w (snd (reportProgress ep eg d dur w))"
  by (simp add: reportProgress_def Let_def step_ok_intros split: option.split)

lemma commitCompletion_ok: "step_ok w (snd (commitCompletion e w))"
  by (simp add: commitCompletion_def Let_def step_ok_intros split: option.split)

lemma finalize_ok: "step_ok w (snd (finalize e w))"
  by (simp add: finalize_def Let_def step_ok_intros)

lemma requestCancellation_ok: "step_ok w (snd (requestCancellationWorkloadScope e w))"
  by (simp add: requestCancellationWorkloadScope_def Let_def step_ok_intros)

lemma completeCancellation_ok: "step_ok w (snd (completeCancellation e w))"
  by (simp add: completeCancellation_def Let_def step_ok_intros)

lemma onWorkerLost_ok: "step_ok w (snd (onWorkerLost wk b e w))"
  by (simp add: onWorkerLost_def Let_def step_ok_intros split: option.split)

lemma markEpisode_ok:
  "step_ok w (snd (markEpisodeCompleted i w))" "step_ok w (snd (markEpisodeFailed i w))"
  by (simp_all add: markEpisodeCompleted_def markEpisodeFailed_def step_ok_intros split: option.split)

lemma planRestart_ok: "step_ok w (snd (planRestart e r w))"
  by (simp add: planRestart_def Let_def step_ok_intros split: option.split)

lemma suspend_ok:
  "step_ok w (snd (requestSuspend e w))" "step_ok w (snd (completeSuspend e w))"
  "step_ok w (snd (requestResume e w))"
  by (simp_all add: requestSuspend_def completeSuspend_def requestResume_def Let_def step_ok_intros
      split: option.split)

lemma migration_ok:
  "step_ok w (snd (requestMigration e w))" "step_ok w (snd (commitMigration e wk b w))"
  by (simp_all add: requestMigration_def commitMigration_def Let_def step_ok_intros)

lemma transition_ok: "step_ok w (snd (transition t e r w))"
  by (simp add: transition_def step_ok_intros)

interpretation op_transition: lifecycle_operation "transition t e r" for t e r
  by (intro lifecycle_operationI transition_ok)

interpretation op_settle: fenced_operation "settle e" e for e
  by (intro fenced_operationI settle_ok) (simp add: settle_def)

interpretation op_startEpisode: lifecycle_operation "startEpisode i ow og adv" for i ow og adv
  by (intro lifecycle_operationI startEpisode_ok)

interpretation op_admitDispatch: lifecycle_operation "admitDispatch ep wk b" for ep wk b
  by (intro lifecycle_operationI admitDispatch_ok)

interpretation op_reportProgress: lifecycle_operation "reportProgress ep eg d dur" for ep eg d dur
  by (intro lifecycle_operationI reportProgress_ok)

interpretation op_commitCompletion: fenced_operation "commitCompletion e" e for e
  by (intro fenced_operationI commitCompletion_ok) (simp add: commitCompletion_def)

interpretation op_finalize: fenced_operation "finalize e" e for e
  by (intro fenced_operationI finalize_ok) (simp add: finalize_def)

interpretation op_requestCancellation: fenced_operation "requestCancellationWorkloadScope e" e for e
  by (intro fenced_operationI requestCancellation_ok) (simp add: requestCancellationWorkloadScope_def)

interpretation op_completeCancellation: fenced_operation "completeCancellation e" e for e
  by (intro fenced_operationI completeCancellation_ok) (simp add: completeCancellation_def)

interpretation op_onWorkerLost: fenced_operation "onWorkerLost wk b e" e for wk b e
  by (intro fenced_operationI onWorkerLost_ok) (simp add: onWorkerLost_def)

interpretation op_markEpisodeCompleted: lifecycle_operation "markEpisodeCompleted i" for i
  by (intro lifecycle_operationI markEpisode_ok)

interpretation op_markEpisodeFailed: lifecycle_operation "markEpisodeFailed i" for i
  by (intro lifecycle_operationI markEpisode_ok)

interpretation op_planRestart: fenced_operation "planRestart e r" e for e r
  by (intro fenced_operationI planRestart_ok) (simp add: planRestart_def)

interpretation op_requestSuspend: fenced_operation "requestSuspend e" e for e
  by (intro fenced_operationI suspend_ok) (simp add: requestSuspend_def)

interpretation op_completeSuspend: fenced_operation "completeSuspend e" e for e
  by (intro fenced_operationI suspend_ok) (simp add: completeSuspend_def)

interpretation op_requestResume: fenced_operation "requestResume e" e for e
  by (intro fenced_operationI suspend_ok) (simp add: requestResume_def)

interpretation op_requestMigration: fenced_operation "requestMigration e" e for e
  by (intro fenced_operationI migration_ok) (simp add: requestMigration_def)

interpretation op_commitMigration: fenced_operation "commitMigration e wk b" e for e wk b
  by (intro fenced_operationI migration_ok) (simp add: commitMigration_def)

section \<open>Sequences of operations\<close>

text \<open>
  Calls a client can make on a workload, the component operations behind the accessors
  \<open>contract()\<close> and \<open>dependencies()\<close> included. A mutex serializes the calls, so
  concurrent clients produce some sequence of them.
\<close>

datatype workload_call =
    Transition WorkloadState WorkloadGeneration string
  | Settle WorkloadGeneration
  | StartEpisode ExecutionEpisodeId OwnerId OwnerGeneration bool
  | AdmitDispatch ExecutionEpisodeId WorkerId WorkerBootId
  | ReportProgress ExecutionEpisodeId ExecutionEpisodeGeneration u64 bool
  | CommitCompletion WorkloadGeneration
  | Finalize WorkloadGeneration
  | RequestCancellation WorkloadGeneration
  | CompleteCancellation WorkloadGeneration
  | OnWorkerLost WorkerId WorkerBootId WorkloadGeneration
  | MarkEpisodeCompleted ExecutionEpisodeId
  | MarkEpisodeFailed ExecutionEpisodeId
  | PlanRestart WorkloadGeneration string
  | RequestSuspend WorkloadGeneration
  | CompleteSuspend WorkloadGeneration
  | RequestResume WorkloadGeneration
  | RequestMigration WorkloadGeneration
  | CommitMigration WorkloadGeneration WorkerId WorkerBootId
  | DefineDependency DependencyDef
  | SetDependencyStatus nat DependencyStatus DependencyGeneration
  | AddRequirement ResourceRequirement
  | ApplyGrant ResourceGrant
  | ReleaseGrant ResourceContractGeneration

definition on_contract :: "(ResourceContract \<Rightarrow> Outcome \<times> ResourceContract) \<Rightarrow> Workload \<Rightarrow> Outcome \<times> Workload" where
  "on_contract f w = (let r = f (wl_contract w) in (fst r, w\<lparr>wl_contract := snd r\<rparr>))"

definition on_deps :: "(DependencySet \<Rightarrow> Outcome \<times> DependencySet) \<Rightarrow> Workload \<Rightarrow> Outcome \<times> Workload" where
  "on_deps f w = (let r = f (wl_deps w) in (fst r, w\<lparr>wl_deps := snd r\<rparr>))"

primrec call :: "workload_call \<Rightarrow> Workload \<Rightarrow> Outcome \<times> Workload" where
  "call (Transition t e r) = transition t e r"
| "call (Settle e) = settle e"
| "call (StartEpisode i ow og adv) = startEpisode i ow og adv"
| "call (AdmitDispatch ep wk b) = admitDispatch ep wk b"
| "call (ReportProgress ep eg d dur) = reportProgress ep eg d dur"
| "call (CommitCompletion e) = commitCompletion e"
| "call (Finalize e) = finalize e"
| "call (RequestCancellation e) = requestCancellationWorkloadScope e"
| "call (CompleteCancellation e) = completeCancellation e"
| "call (OnWorkerLost wk b e) = onWorkerLost wk b e"
| "call (MarkEpisodeCompleted i) = markEpisodeCompleted i"
| "call (MarkEpisodeFailed i) = markEpisodeFailed i"
| "call (PlanRestart e r) = planRestart e r"
| "call (RequestSuspend e) = requestSuspend e"
| "call (CompleteSuspend e) = completeSuspend e"
| "call (RequestResume e) = requestResume e"
| "call (RequestMigration e) = requestMigration e"
| "call (CommitMigration e wk b) = commitMigration e wk b"
| "call (DefineDependency d) = on_deps (define_dependency d)"
| "call (SetDependencyStatus i st g) = on_deps (setStatus i st g)"
| "call (AddRequirement r) = on_contract (add_requirement r)"
| "call (ApplyGrant g) = on_contract (applyGrant g)"
| "call (ReleaseGrant g) = on_contract (releaseGrant g)"

interpretation op_on_deps: lifecycle_operation "on_deps (define_dependency d)" for d
  by (intro lifecycle_operationI) (simp add: on_deps_def Let_def step_ok_deps dset_wf_ops)

interpretation op_on_deps_status: lifecycle_operation "on_deps (setStatus i st g)" for i st g
  by (intro lifecycle_operationI) (simp add: on_deps_def Let_def step_ok_deps dset_wf_ops)

interpretation op_on_contract_add: lifecycle_operation "on_contract (add_requirement r)" for r
  by (intro lifecycle_operationI) (simp add: on_contract_def Let_def step_ok_contract contract_wf_add)

interpretation op_on_contract_grant: lifecycle_operation "on_contract (applyGrant g)" for g
  by (intro lifecycle_operationI) (simp add: on_contract_def Let_def step_ok_contract contract_wf_grant)

interpretation op_on_contract_release: lifecycle_operation "on_contract (releaseGrant g)" for g
  by (intro lifecycle_operationI) (simp add: on_contract_def Let_def step_ok_contract contract_wf_grant)

lemma call_contract: "lifecycle_operation (call c)"
  by (cases c)
    (simp_all add: op_transition.lifecycle_operation_axioms op_settle.lifecycle_operation_axioms
      op_startEpisode.lifecycle_operation_axioms op_admitDispatch.lifecycle_operation_axioms
      op_reportProgress.lifecycle_operation_axioms op_commitCompletion.lifecycle_operation_axioms
      op_finalize.lifecycle_operation_axioms op_requestCancellation.lifecycle_operation_axioms
      op_completeCancellation.lifecycle_operation_axioms op_onWorkerLost.lifecycle_operation_axioms
      op_markEpisodeCompleted.lifecycle_operation_axioms op_markEpisodeFailed.lifecycle_operation_axioms
      op_planRestart.lifecycle_operation_axioms op_requestSuspend.lifecycle_operation_axioms
      op_completeSuspend.lifecycle_operation_axioms op_requestResume.lifecycle_operation_axioms
      op_requestMigration.lifecycle_operation_axioms op_commitMigration.lifecycle_operation_axioms
      op_on_deps.lifecycle_operation_axioms op_on_deps_status.lifecycle_operation_axioms
      op_on_contract_add.lifecycle_operation_axioms op_on_contract_grant.lifecycle_operation_axioms
      op_on_contract_release.lifecycle_operation_axioms)

interpretation call: lifecycle_operation "call c" for c
  by (rule call_contract)

fun run_calls :: "workload_call list \<Rightarrow> Workload \<Rightarrow> Workload" where
  "run_calls [] w = w"
| "run_calls (c # cs) w = run_calls cs (snd (call c w))"

lemma run_calls_append: "run_calls (cs @ ds) w = run_calls ds (run_calls cs w)"
  by (induction cs arbitrary: w) auto

lemma same_episodes:
  assumes "wl_episodes v = wl_episodes w"
  shows "episode_index ep v = episode_index ep w" and "currentEpisode v = currentEpisode w"
  using assms by (simp_all only: episode_index_def currentEpisode_def)

end
