(* ===== verification/Workload_Safety.thy ===== *)
theory Workload_Safety
  imports Workload_Steps
begin

text \<open>
  What holds of a workload along every sequence of calls: terminal states are final, one
  episode has authority, the audit trail replays, generations, restarts and progress stay in
  their bounds, and superseded episodes and generations stay superseded.
\<close>

section \<open>A sample workload\<close>

text \<open>Inputs on which the witnesses evaluate the operations.\<close>

definition sample_policy :: Policy where
  "sample_policy = default_policy\<lparr>
     po_restart := (po_restart default_policy)\<lparr>rp_kind := RestartKind.ALWAYS_WITH_LIMIT, rp_maxRestarts := 2\<rparr>,
     po_migration := (po_migration default_policy)\<lparr>mp_eligibility := MigrationEligibility.CHECKPOINT_AND_RESUME\<rparr>,
     po_generation := UniqueValue 1\<rparr>"

definition sample_created :: Workload where
  "sample_created = (create (UniqueValue 7) ''w'' ''job'')\<lparr>wl_policy := sample_policy,
     wl_progress := default_progress\<lparr>pg_totalKind := TotalKind.KNOWN, pg_total := 100\<rparr>\<rparr>"

definition sample_setup :: "workload_call list" where
  "sample_setup = [
     AddRequirement (example_requirement NeedLevel.REQUIRED ResourceKind.ACCELERATOR_COUNT 0x3FF0000000000000),
     ApplyGrant (example_grant 1),
     Transition WorkloadState.VALIDATING (UniqueValue 1) ''validate'',
     Settle (UniqueValue 1)]"

text \<open>The same workload made READY without a direct transition.\<close>

definition ungated_setup :: "workload_call list" where
  "ungated_setup = [
     AddRequirement (example_requirement NeedLevel.REQUIRED ResourceKind.ACCELERATOR_COUNT 0x3FF0000000000000),
     ApplyGrant (example_grant 1),
     DefineDependency (example_dependency DependencyRequirement.REQUIRED),
     Settle (UniqueValue 1),
     SetDependencyStatus 0 DependencyStatus.SATISFIED (UniqueValue 1),
     Settle (UniqueValue 1)]"

definition sample_dispatch :: "workload_call list" where
  "sample_dispatch = [
     StartEpisode (UniqueValue 1000) (UniqueValue 1) (UniqueValue 1) True,
     AdmitDispatch (UniqueValue 1000) (UniqueValue 5) (UniqueValue 50),
     ReportProgress (UniqueValue 1000) (UniqueValue 1) 8 True]"

definition sample_complete :: "workload_call list" where
  "sample_complete = [MarkEpisodeCompleted (UniqueValue 1000), CommitCompletion (UniqueValue 2)]"

definition sample_ready :: Workload where
  "sample_ready = run_calls sample_setup sample_created"

definition sample_running :: Workload where
  "sample_running = run_calls sample_dispatch sample_ready"

definition sample_completed :: Workload where
  "sample_completed = run_calls sample_complete sample_running"

section \<open>Lifting one call to a sequence\<close>

lemma run_calls_invariant:
  assumes step: "\<And>c v. I v \<Longrightarrow> I (snd (call c v))" and "I w"
  shows "I (run_calls cs w)"
  using \<open>I w\<close> by (induction cs arbitrary: w) (auto intro: step)

lemma run_calls_id [simp]: "wl_id (run_calls cs w) = wl_id w"
  by (rule run_calls_invariant [where I = "\<lambda>v. wl_id v = wl_id w"]) (simp_all add: call.same_id)

lemma run_calls_policy [simp]: "wl_policy (run_calls cs w) = wl_policy w"
  by (rule run_calls_invariant [where I = "\<lambda>v. wl_policy v = wl_policy w"]) (simp_all add: call.same_policy)

lemma run_calls_audited: "audited w (run_calls cs w)"
proof (induction cs arbitrary: w)
  case Nil
  then show ?case by (simp add: audited_refl)
next
  case (Cons c cs)
  then show ?case using audited_trans [OF call.audit [of w c]] by simp
qed

section \<open>Terminal states\<close>

text \<open>The part of a workload a terminal state freezes.\<close>

definition frozen_part :: "Workload \<Rightarrow> WorkloadState \<times> WorkloadGeneration \<times> Progress \<times> u32 \<times>
    RestartGeneration \<times> CompletionGeneration \<times> MigrationId \<times> MigrationGeneration \<times>
    ExecutionEpisodeId list \<times> bool list" where
  "frozen_part w = (wl_state w, wl_generation w, wl_progress w, wl_restartCount w, wl_restartGen w,
     wl_completionGen w, wl_migrationId w, wl_migrationGen w, map ep_id (wl_episodes w),
     map ep_authoritative (wl_episodes w))"

lemma frozen_part_update_episode:
  "(\<And>e. ep_id (f e) = ep_id e) \<Longrightarrow> (\<And>e. ep_authoritative (f e) = ep_authoritative e) \<Longrightarrow>
   frozen_part (update_episode k f w) = frozen_part w"
  by (simp add: frozen_part_def update_episode_def map_list_update_same)

lemma frozen_part_fields [simp]:
  "frozen_part (w\<lparr>wl_cancelledFinal := b\<rparr>) = frozen_part w"
  "frozen_part (w\<lparr>wl_deps := d\<rparr>) = frozen_part w"
  "frozen_part (w\<lparr>wl_contract := c\<rparr>) = frozen_part w"
  by (simp_all add: frozen_part_def)

lemma update_episode_state [simp]: "wl_state (update_episode k f w) = wl_state w"
  by (simp add: update_episode_def)

lemma frozen_part_guarded: "isTerminal (wl_state w) \<Longrightarrow> frozen_part (snd (guardedTransition t e r w)) = frozen_part w"
  by (cases rule: guardedTransition_cases [of e w t r]) (auto simp: frozen_part_def terminal_no_successor)

lemma frozen_part_call: "isTerminal (wl_state w) \<Longrightarrow> frozen_part (snd (call c w)) = frozen_part w"
  by (cases c)
    (auto simp: transition_def settle_def startEpisode_def admitDispatch_def reportProgress_def
      commitCompletion_def finalize_def requestCancellationWorkloadScope_def completeCancellation_def
      onWorkerLost_def markEpisodeCompleted_def markEpisodeFailed_def planRestart_def requestSuspend_def
      completeSuspend_def requestResume_def requestMigration_def commitMigration_def
      on_deps_def on_contract_def Let_def frozen_part_guarded frozen_part_update_episode
      update_episode_state isActivelyRunning_def isTerminal_iff frozen_part_fields
      split: option.split)

lemma run_calls_terminal: "isTerminal (wl_state w) \<Longrightarrow> frozen_part (run_calls cs w) = frozen_part w"
proof -
  assume *: "isTerminal (wl_state w)"
  have "frozen_part (run_calls cs w) = frozen_part w \<and> isTerminal (wl_state (run_calls cs w))"
  proof (rule run_calls_invariant [where I = "\<lambda>v. frozen_part v = frozen_part w \<and> isTerminal (wl_state v)"])
    show "frozen_part (snd (call c v)) = frozen_part w \<and> isTerminal (wl_state (snd (call c v)))"
      if "frozen_part v = frozen_part w \<and> isTerminal (wl_state v)" for c v
      using that frozen_part_call [of v c] call.terminal_absorbing [of v c] by simp
  qed (simp add: *)
  then show ?thesis by simp
qed

text \<open>
  What no call changes on a workload in a terminal state. Of the fields of an episode, only
  the worker and boot it was dispatched to, its state and the three outcome flags may still be
  written; of the workload, the component operations behind its accessors and
  the audit entries of rejected transitions stay possible.
\<close>

definition episode_core :: "Episode \<Rightarrow> Episode" where
  "episode_core e = e\<lparr>ep_worker := no_value, ep_boot := no_value, ep_state := EpisodeState.PENDING,
     ep_failed := False, ep_completed := False, ep_workerLost := False\<rparr>"

definition terminal_core :: "Workload \<Rightarrow> Workload" where
  "terminal_core w = w\<lparr>wl_history := [], wl_revision := no_value, wl_cancelledFinal := False,
     wl_deps := new_dependency_set no_value no_value, wl_contract := new_contract no_value no_value,
     wl_episodes := map episode_core (wl_episodes w)\<rparr>"

text \<open>The calls a workload in a terminal state may still answer with ALLOW.\<close>

definition terminal_accepts :: "WorkloadState \<Rightarrow> workload_call \<Rightarrow> bool" where
  "terminal_accepts s c \<longleftrightarrow>
     (case c of
        Transition t e r \<Rightarrow> t = s
      | CompleteCancellation e \<Rightarrow> s = WorkloadState.CANCELLED
      | AdmitDispatch i wk b \<Rightarrow> True
      | OnWorkerLost wk b e \<Rightarrow> True
      | MarkEpisodeCompleted i \<Rightarrow> True
      | MarkEpisodeFailed i \<Rightarrow> True
      | DefineDependency d \<Rightarrow> True
      | SetDependencyStatus k st g \<Rightarrow> True
      | AddRequirement r \<Rightarrow> True
      | ApplyGrant g \<Rightarrow> True
      | ReleaseGrant g \<Rightarrow> True
      | _ \<Rightarrow> False)"

definition only_rejected :: "TransitionRecord list \<Rightarrow> TransitionRecord list \<Rightarrow> bool" where
  "only_rejected hs hs' \<longleftrightarrow> (\<exists>new. hs' = hs @ new \<and> (\<forall>h\<in>set new. tr_outcome h \<noteq> Outcome.ALLOW))"

lemma only_rejected_refl [simp]: "only_rejected hs hs"
  by (simp add: only_rejected_def)

lemma only_rejected_trans: "only_rejected a b \<Longrightarrow> only_rejected b c \<Longrightarrow> only_rejected a c"
  unfolding only_rejected_def by (metis append.assoc Un_iff set_append)

definition stays_terminal :: "Workload \<Rightarrow> Workload \<Rightarrow> bool" where
  "stays_terminal w v \<longleftrightarrow> terminal_core v = terminal_core w \<and> only_rejected (wl_history w) (wl_history v) \<and>
     (wl_cancelledFinal v = wl_cancelledFinal w \<or> wl_state w = WorkloadState.CANCELLED)"

lemma terminal_core_state: "terminal_core v = terminal_core w \<Longrightarrow> wl_state v = wl_state w"
  by (drule arg_cong [where f = wl_state]) (simp add: terminal_core_def)

lemma stays_terminal_refl [simp]: "stays_terminal w w"
  by (simp add: stays_terminal_def)

lemma stays_terminal_trans: "stays_terminal u v \<Longrightarrow> stays_terminal v w \<Longrightarrow> stays_terminal u w"
  using terminal_core_state [of v u] by (auto simp: stays_terminal_def intro: only_rejected_trans)

lemma stays_terminal_guarded:
  "isTerminal (wl_state w) \<Longrightarrow> stays_terminal w (snd (guardedTransition t e r w))"
  by (cases rule: guardedTransition_cases [of e w t r])
    (auto simp: stays_terminal_def terminal_core_def only_rejected_def terminal_no_successor record_transition_def)

lemma stays_terminal_update:
  "(\<And>e. episode_core (f e) = episode_core e) \<Longrightarrow> stays_terminal w (update_episode k f w)"
  by (simp add: stays_terminal_def terminal_core_def update_episode_def map_list_update_same)

lemma stays_terminal_fields [simp]:
  "stays_terminal w (w\<lparr>wl_deps := d\<rparr>)" "stays_terminal w (w\<lparr>wl_contract := c\<rparr>)"
  "wl_state w = WorkloadState.CANCELLED \<Longrightarrow> stays_terminal w (w\<lparr>wl_cancelledFinal := b\<rparr>)"
  by (simp_all add: stays_terminal_def terminal_core_def)

lemma stays_terminal_call: "isTerminal (wl_state w) \<Longrightarrow> stays_terminal w (snd (call c w))"
  by (cases c)
    (auto simp: transition_def settle_def startEpisode_def admitDispatch_def reportProgress_def
      commitCompletion_def finalize_def requestCancellationWorkloadScope_def completeCancellation_def
      onWorkerLost_def markEpisodeCompleted_def markEpisodeFailed_def planRestart_def requestSuspend_def
      completeSuspend_def requestResume_def requestMigration_def commitMigration_def
      on_deps_def on_contract_def Let_def isActivelyRunning_def isTerminal_iff
      intro!: stays_terminal_guarded stays_terminal_update simp: episode_core_def
      split: option.split)

lemma terminal_accepts_call:
  "isTerminal (wl_state w) \<Longrightarrow> fst (call c w) = Outcome.ALLOW \<Longrightarrow> terminal_accepts (wl_state w) c"
  by (cases c)
    (auto simp: terminal_accepts_def transition_def settle_def startEpisode_def reportProgress_def
      commitCompletion_def finalize_def requestCancellationWorkloadScope_def completeCancellation_def
      planRestart_def requestSuspend_def guardedTransition_allow_iff terminal_no_successor
      completeSuspend_def requestResume_def requestMigration_def commitMigration_def
      Let_def isActivelyRunning_def isTerminal_iff
      split: option.splits if_splits)

lemma run_calls_stays_terminal: "isTerminal (wl_state w) \<Longrightarrow> stays_terminal w (run_calls cs w)"
proof (induction cs arbitrary: w)
  case (Cons c cs)
  have "stays_terminal w (snd (call c w))" "stays_terminal (snd (call c w)) (run_calls cs (snd (call c w)))"
    using Cons.prems call.terminal_absorbing [of w c] by (simp_all add: stays_terminal_call Cons.IH)
  then show ?case using stays_terminal_trans [of w "snd (call c w)"] by simp
qed simp

text \<open>
  C1. A workload in a terminal state (COMPLETED, FAILED_TERMINAL, CANCELLED, SUPERSEDED), after
  any sequence of calls on it, is the same in every field but these: its audit trail and revision,
  which grow by rejected entries only, the final-cancellation flag, which changes in CANCELLED
  only, its dependencies and resource contract, and in its episodes the worker and boot, the
  episode state and the outcome flags. The identity, generation, authority, progress and owner of
  every episode and every counter of the workload stay. Of the calls that follow, only those
  episode reports, the component operations, a transition to the state it is in and, in CANCELLED,
  the completion of a cancellation can be allowed.
\<close>

theorem terminal_is_final:
  assumes "isTerminal (wl_state w)"
  shows "let v = run_calls cs w in
    terminal_core v = terminal_core w \<and> wl_state v = wl_state w \<and>
    only_rejected (wl_history w) (wl_history v) \<and>
    (wl_cancelledFinal v = wl_cancelledFinal w \<or> wl_state w = WorkloadState.CANCELLED) \<and>
    (fst (call c v) = Outcome.ALLOW \<longrightarrow> terminal_accepts (wl_state w) c)"
proof -
  define v where "v = run_calls cs w"
  have sealed: "stays_terminal w v"
    unfolding v_def using assms by (rule run_calls_stays_terminal)
  then have "wl_state v = wl_state w"
    unfolding stays_terminal_def by (blast intro: terminal_core_state)
  then have "wl_state v = wl_state w \<and> (fst (call c v) = Outcome.ALLOW \<longrightarrow> terminal_accepts (wl_state w) c)"
    using terminal_accepts_call [of v c] assms by (simp only:) blast
  with sealed show ?thesis
    unfolding Let_def stays_terminal_def v_def by blast
qed

theorem terminal_is_final_witness:
  "let v = run_calls [Settle (UniqueValue 2), OnWorkerLost (UniqueValue 5) (UniqueValue 50) (UniqueValue 2),
       Transition WorkloadState.RUNNING (UniqueValue 2) ''reopen''] sample_completed
   in terminal_core v = terminal_core sample_completed \<and> wl_state v = WorkloadState.COMPLETED \<and>
      only_rejected (wl_history sample_completed) (wl_history v) \<and>
      fst (call (PlanRestart (UniqueValue 2) ''WORKER_LOSS'') v) \<noteq> Outcome.ALLOW"
proof -
  have "isTerminal (wl_state sample_completed)" and s: "wl_state sample_completed = WorkloadState.COMPLETED"
    by code_simp+
  from terminal_is_final [OF this(1), of "[Settle (UniqueValue 2),
      OnWorkerLost (UniqueValue 5) (UniqueValue 50) (UniqueValue 2),
      Transition WorkloadState.RUNNING (UniqueValue 2) ''reopen'']" "PlanRestart (UniqueValue 2) ''WORKER_LOSS''"] s
  show ?thesis unfolding Let_def by (auto simp: terminal_accepts_def)
qed

section \<open>Authority\<close>

text \<open>
  C2. At most one episode of a workload has authority to advance progress,
  after any sequence of calls on a created workload.
\<close>

theorem single_authority:
  "authorities (wl_episodes (run_calls cs (create i name intent))) \<le> 1"
proof -
  have "authorities (wl_episodes (create i name intent)) = 0"
    by (simp add: create_def default_workload_def authorities_def)
  then have "authorities (wl_episodes (run_calls cs (create i name intent))) \<le> Suc 0"
    by (intro run_calls_invariant [where I = "\<lambda>v. authorities (wl_episodes v) \<le> Suc 0"])
      (simp_all add: call.authority)
  then show ?thesis by simp
qed

section \<open>The audit trail\<close>

text \<open>
  C3. The recorded history of a created workload replays: its granted entries
  lead from CREATED to the current state, each along an edge of the transition table that the
  zero-work gate leaves open, every rejected entry was recorded in the state it left unchanged,
  and the revision has been advanced once per entry.
\<close>

theorem audit_trail_replays:
  "let w = run_calls cs (create i name intent)
   in replays (wl_policy w) WorkloadState.CREATED (wl_history w) (wl_state w) \<and>
      wl_revision w = (next_gen ^^ length (wl_history w)) (UniqueValue 1)"
  using run_calls_audited [of "create i name intent" cs]
  by (auto simp: Let_def audited_def create_def default_workload_def fromU64_def)

text \<open>
  States a workload can be in without having started an episode.
\<close>

definition unstarted :: "WorkloadState \<Rightarrow> bool" where
  "unstarted s \<longleftrightarrow> s \<in> {WorkloadState.CREATED, WorkloadState.VALIDATING, WorkloadState.BLOCKED,
     WorkloadState.WAITING_FOR_DEPENDENCIES, WorkloadState.WAITING_FOR_RESOURCES, WorkloadState.READY,
     WorkloadState.CANCELLED, WorkloadState.FAILED_TERMINAL}"

lemma edge_from_unstarted:
  "unstarted s \<Longrightarrow> edge_open p s t \<Longrightarrow> \<not> cp_allowZeroWorkCompletion (po_completion p) \<Longrightarrow>
   t = WorkloadState.STARTING \<or> unstarted t"
  by (cases s) (auto simp: unstarted_def edge_open_def canTransition_iff)

lemma replays_started:
  "replays p s hs t \<Longrightarrow> unstarted s \<Longrightarrow> \<not> unstarted t \<Longrightarrow>
   \<not> cp_allowZeroWorkCompletion (po_completion p) \<Longrightarrow>
   \<exists>h\<in>set hs. tr_outcome h = Outcome.ALLOW \<and> tr_to h = WorkloadState.STARTING"
proof (induction hs arbitrary: s)
  case (Cons h hs)
  show ?case
  proof (cases "tr_outcome h = Outcome.ALLOW")
    case True
    with Cons.prems have step: "edge_open p s (tr_to h)" "replays p (tr_to h) hs t" by auto
    from edge_from_unstarted [OF \<open>unstarted s\<close> step(1)] Cons.prems(4)
    consider "tr_to h = WorkloadState.STARTING" | "unstarted (tr_to h)" by blast
    then show ?thesis
      using True Cons.IH [OF step(2)] Cons.prems by cases auto
  next
    case False
    with Cons show ?thesis by auto
  qed
qed simp

text \<open>
  The public \<open>transition\<close> follows every edge of the table, without an episode to show for
  it; the engine does not offer it. Without it a workload leaves the states before execution only
  by starting an episode.
\<close>

definition is_transition :: "workload_call \<Rightarrow> bool" where
  "is_transition c \<longleftrightarrow> (case c of Transition t e r \<Rightarrow> True | _ \<Rightarrow> False)"

definition pre_execution :: "WorkloadState \<Rightarrow> bool" where
  "pre_execution s \<longleftrightarrow> s \<in> {WorkloadState.CREATED, WorkloadState.VALIDATING, WorkloadState.BLOCKED,
     WorkloadState.WAITING_FOR_DEPENDENCIES, WorkloadState.WAITING_FOR_RESOURCES, WorkloadState.READY}"

lemma pre_execution_edges:
  "pre_execution s \<Longrightarrow> \<not> canTransition s WorkloadState.COMPLETING"
  "pre_execution s \<Longrightarrow> \<not> canTransition s WorkloadState.CANCELLATION_REQUESTED"
  "pre_execution s \<Longrightarrow> \<not> canTransition s WorkloadState.RESTART_PENDING"
  "pre_execution s \<Longrightarrow> \<not> isActivelyRunning s"
  "pre_execution s \<Longrightarrow> \<not> isTerminal s"
  "pre_execution s \<Longrightarrow> \<not> isCancelling s"
  by (auto simp: pre_execution_def canTransition_iff isActivelyRunning_def isCancelling_def)

lemma pre_execution_not [simp]:
  "\<not> pre_execution WorkloadState.CANCELLING" "\<not> pre_execution WorkloadState.COMPLETING" "\<not> pre_execution WorkloadState.CANCELLATION_REQUESTED"
  "\<not> pre_execution WorkloadState.RESTART_PENDING" "\<not> pre_execution WorkloadState.SUSPEND_REQUESTED"
  "\<not> pre_execution WorkloadState.MIGRATION_PENDING" "\<not> pre_execution WorkloadState.MIGRATING"
  "\<not> pre_execution WorkloadState.SUSPENDED" "\<not> pre_execution WorkloadState.PREEMPTED"
  "\<not> pre_execution WorkloadState.SUSPENDING" "\<not> pre_execution WorkloadState.STARTING"
  "\<not> pre_execution WorkloadState.RUNNING" "\<not> pre_execution WorkloadState.DEGRADED"
  "\<not> pre_execution WorkloadState.COMPLETED" "\<not> pre_execution WorkloadState.CANCELLED"
  by (simp_all add: pre_execution_def)

text \<open>Every call but \<open>transition\<close> keeps a workload in those states, unless it starts an episode.\<close>

definition lineage :: "Episode \<Rightarrow> ExecutionEpisodeId \<times> bool" where
  "lineage e = (ep_id e, ep_authoritative e)"

definition same_lineage :: "Workload \<Rightarrow> Workload \<Rightarrow> bool" where
  "same_lineage w v \<longleftrightarrow> map lineage (wl_episodes v) = map lineage (wl_episodes w)"

lemma lineage_update [simp]:
  "lineage (e\<lparr>ep_completed := b\<rparr>) = lineage e" "lineage (e\<lparr>ep_failed := b\<rparr>) = lineage e"
  "lineage (e\<lparr>ep_workerLost := b\<rparr>) = lineage e" "lineage (e\<lparr>ep_state := s\<rparr>) = lineage e"
  "lineage (e\<lparr>ep_worker := wk\<rparr>) = lineage e" "lineage (e\<lparr>ep_boot := bt\<rparr>) = lineage e"
  "lineage (e\<lparr>ep_progress := p\<rparr>) = lineage e"
  by (simp_all add: lineage_def)

lemma same_lineage_simps [simp]:
  "wl_episodes v = wl_episodes w \<Longrightarrow> same_lineage w v"
  "(\<And>e. lineage (f e) = lineage e) \<Longrightarrow> same_lineage w (update_episode k f v) = same_lineage w v"
  "same_lineage w (snd (guardedTransition t e r v)) = same_lineage w v"
  "same_lineage w (v\<lparr>wl_cancellationRequested := b1\<rparr>) = same_lineage w v"
  "same_lineage w (v\<lparr>wl_cancellationWasRejected := b2\<rparr>) = same_lineage w v"
  "same_lineage w (v\<lparr>wl_completionGen := b3\<rparr>) = same_lineage w v"
  "same_lineage w (v\<lparr>wl_cancelledFinal := b4\<rparr>) = same_lineage w v"
  by (simp_all add: same_lineage_def update_episode_def map_list_update_same)

lemma pre_execution_settle:
  "pre_execution (wl_state w) \<Longrightarrow>
   pre_execution (wl_state (snd (settle e w))) \<and> same_lineage w (snd (settle e w))"
  by (auto simp: settle_def Let_def guardedTransition_state pre_execution_def split: option.split)

lemma startEpisode_appends:
  "fst (startEpisode i ow og adv w) = Outcome.ALLOW \<or>
   wl_state (snd (startEpisode i ow og adv w)) \<in> {wl_state w, WorkloadState.READY} \<and>
   wl_episodes (snd (startEpisode i ow og adv w)) = wl_episodes w"
  by (auto simp: startEpisode_def Let_def isAllow_def guardedTransition_state split: if_splits)

lemma pre_execution_call:
  assumes "pre_execution (wl_state w)" and "\<not> is_transition c"
  shows "(\<exists>i ow og adv. c = StartEpisode i ow og adv \<and> fst (call c w) = Outcome.ALLOW) \<or>
    pre_execution (wl_state (snd (call c w))) \<and> same_lineage w (snd (call c w))"
proof -
  note edges = pre_execution_edges [OF assms(1)]
  have active: "wl_state w \<noteq> s" if "\<not> pre_execution s" for s using assms(1) that by blast
  note facts = assms(1) edges active Let_def isAllow_def guardedTransition_allow_iff guardedTransition_state
  have ready: "pre_execution WorkloadState.READY" by (simp add: pre_execution_def)
  show ?thesis
  proof (cases c)
    case (StartEpisode i ow og adv)
    then show ?thesis using startEpisode_appends [of i ow og adv w] ready assms(1) by auto
  next
    case (OnWorkerLost wk b e)
    then show ?thesis by (simp add: facts onWorkerLost_def split: option.split)
  next
    case (PlanRestart e r)
    then show ?thesis by (simp add: facts planRestart_def split: option.split)
  next
    case (CommitCompletion e)
    then show ?thesis by (simp add: facts commitCompletion_def split: option.split)
  qed (use assms in \<open>simp_all add: is_transition_def pre_execution_settle facts
      admitDispatch_def reportProgress_def finalize_def
      requestCancellationWorkloadScope_def completeCancellation_def
      markEpisodeCompleted_def markEpisodeFailed_def requestSuspend_def
      completeSuspend_def requestResume_def requestMigration_def commitMigration_def
      on_deps_def on_contract_def split: option.split\<close>)
qed

text \<open>So a workload has an episode, or is still in a state before execution.\<close>

definition executed :: "Workload \<Rightarrow> bool" where
  "executed w \<longleftrightarrow> wl_episodes w \<noteq> [] \<or> pre_execution (wl_state w)"

lemma executed_call: "executed w \<Longrightarrow> \<not> is_transition c \<Longrightarrow> executed (snd (call c w))"
proof -
  assume w: "executed w" and c: "\<not> is_transition c"
  show ?thesis
  proof (cases "wl_episodes w = []")
    case True
    with w have pre: "pre_execution (wl_state w)" by (simp add: executed_def)
    then have free: "\<not> isCancelling (wl_state w)" by (rule pre_execution_edges)
    from pre_execution_call [OF pre c] consider
        i ow og adv where "c = StartEpisode i ow og adv" "fst (startEpisode i ow og adv w) = Outcome.ALLOW"
      | "pre_execution (wl_state (snd (call c w)))" by fastforce
    then show ?thesis
    proof cases
      case 1
      then have "wl_episodes (snd (call c w)) \<noteq> []"
        by (auto simp: startEpisode_def Let_def append_authoritative_def isAllow_def split: if_splits)
      then show ?thesis by (simp add: executed_def)
    qed (simp add: executed_def)
  next
    case False
    with call.episodes [of w c] show ?thesis by (auto simp: executed_def episodes_extend_def)
  qed
qed

lemma run_calls_executed: "executed w \<Longrightarrow> \<forall>c\<in>set cs. \<not> is_transition c \<Longrightarrow> executed (run_calls cs w)"
  by (induction cs arbitrary: w) (simp_all add: executed_call)

text \<open>
  C20. Under a policy that does not allow zero-work completion, a workload that reaches COMPLETED
  by any sequence of calls after its creation has an allowed entry to STARTING in its history:
  the zero-work gate cannot be bypassed by another path through the table. If none of the calls
  is a direct \<open>transition\<close>, it also has an episode.
\<close>

theorem no_completion_without_start:
  assumes "w = run_calls cs ((create i name intent)\<lparr>wl_policy := p\<rparr>)"
    and "\<not> cp_allowZeroWorkCompletion (po_completion p)"
    and "wl_state w = WorkloadState.COMPLETED"
  shows "(\<exists>h\<in>set (wl_history w). tr_outcome h = Outcome.ALLOW \<and> tr_to h = WorkloadState.STARTING) \<and>
    ((\<forall>c\<in>set cs. \<not> is_transition c) \<longrightarrow> wl_episodes w \<noteq> [])"
proof -
  let ?w = "(create i name intent)\<lparr>wl_policy := p\<rparr>"
  have "replays p WorkloadState.CREATED (wl_history w) (wl_state w)"
    using run_calls_audited [of ?w cs] assms(1) by (auto simp: audited_def create_def default_workload_def)
  then have "\<exists>h\<in>set (wl_history w). tr_outcome h = Outcome.ALLOW \<and> tr_to h = WorkloadState.STARTING"
    by (rule replays_started) (simp_all add: assms(2,3) unstarted_def)
  moreover have "pre_execution (wl_state ?w)" by (simp add: create_def default_workload_def pre_execution_def)
  then have "wl_episodes w \<noteq> []" if "\<forall>c\<in>set cs. \<not> is_transition c"
    using run_calls_executed [OF _ that, of ?w] assms(1,3) by (auto simp: executed_def)
  ultimately show ?thesis by blast
qed

theorem no_completion_without_start_witness:
  "(\<exists>h\<in>set (wl_history (run_calls (sample_setup @ sample_dispatch @ sample_complete)
      ((create (UniqueValue 7) ''w'' ''job'')\<lparr>wl_policy := sample_policy\<rparr>))).
     tr_outcome h = Outcome.ALLOW \<and> tr_to h = WorkloadState.STARTING) \<and>
   wl_episodes (run_calls (ungated_setup @ sample_dispatch @ sample_complete)
      ((create (UniqueValue 7) ''w'' ''job'')\<lparr>wl_policy := sample_policy\<rparr>)) \<noteq> []"
proof -
  let ?w = "(create (UniqueValue 7) ''w'' ''job'')\<lparr>wl_policy := sample_policy\<rparr>"
  have p: "\<not> cp_allowZeroWorkCompletion (po_completion sample_policy)" by code_simp
  have a: "wl_state (run_calls (sample_setup @ sample_dispatch @ sample_complete) ?w) = WorkloadState.COMPLETED"
    and b: "wl_state (run_calls (ungated_setup @ sample_dispatch @ sample_complete) ?w) = WorkloadState.COMPLETED"
    by code_simp+
  have "\<forall>c\<in>set (ungated_setup @ sample_dispatch @ sample_complete). \<not> is_transition c"
    by (simp add: ungated_setup_def sample_dispatch_def sample_complete_def is_transition_def)
  with no_completion_without_start [OF refl p a] no_completion_without_start [OF refl p b]
  show ?thesis by blast
qed

text \<open>
  With \<open>transition\<close> alone a workload completes although it never had an episode and its
  policy does not allow completion without work.
\<close>

definition transitions_only :: "workload_call list" where
  "transitions_only = map (\<lambda>s. Transition s (UniqueValue 1) ''by hand'')
     [WorkloadState.VALIDATING, WorkloadState.READY, WorkloadState.STARTING, WorkloadState.RUNNING,
      WorkloadState.COMPLETING, WorkloadState.COMPLETED]"

theorem transitions_complete_without_episode:
  "let w = run_calls transitions_only (create (UniqueValue 7) ''w'' ''job'')
   in wl_state w = WorkloadState.COMPLETED \<and> wl_episodes w = [] \<and>
      \<not> cp_allowZeroWorkCompletion (po_completion (wl_policy w))"
  by code_simp

section \<open>Restarts\<close>

text \<open>
  C5. A workload never plans more restarts than its policy's
  \<open>maxRestarts\<close>, whatever sequence of calls is made on it after its creation.
\<close>

theorem restart_limit_kept:
  "wl_restartCount (run_calls cs ((create i name intent)\<lparr>wl_policy := p\<rparr>)) \<le> rp_maxRestarts (po_restart p)"
proof -
  let ?w = "(create i name intent)\<lparr>wl_policy := p\<rparr>"
  have "wl_restartCount (run_calls cs ?w) \<le> rp_maxRestarts (po_restart (wl_policy (run_calls cs ?w)))"
    by (rule run_calls_invariant [where
          I = "\<lambda>v. wl_restartCount v \<le> rp_maxRestarts (po_restart (wl_policy v))"])
      (auto simp: create_def default_workload_def intro: call.restart_limit)
  then show ?thesis by simp
qed

section \<open>Progress\<close>

lemma wl_progress_frame [simp]:
  "wl_progress (update_episode k f w) = wl_progress w"
  by (simp add: update_episode_def)

lemma call_progress:
  "wl_progress (snd (call c w)) =
     (case c of
        ReportProgress ep eg d dur \<Rightarrow>
          (if fst (call c w) = Outcome.ALLOW then snd (advance d dur (wl_progress w)) else wl_progress w)
      | _ \<Rightarrow> wl_progress w)"
  by (cases c)
    (auto simp: transition_def settle_def startEpisode_def admitDispatch_def reportProgress_def
      commitCompletion_def finalize_def requestCancellationWorkloadScope_def completeCancellation_def
      onWorkerLost_def markEpisodeCompleted_def markEpisodeFailed_def planRestart_def requestSuspend_def
      completeSuspend_def requestResume_def requestMigration_def commitMigration_def
      on_deps_def on_contract_def Let_def split: option.split)

lemma reportProgress_allowed:
  assumes "fst (reportProgress ep eg d dur w) = Outcome.ALLOW"
  shows "fst (advance d dur (wl_progress w)) \<and>
    (pg_totalKind (wl_progress w) = TotalKind.KNOWN \<longrightarrow>
       pg_completed (wl_progress w) + d \<le> pg_total (wl_progress w)) \<and>
    \<not> wl_cancelledFinal w \<and> \<not> isCancelling (wl_state w) \<and> \<not> isTerminal (wl_state w)"
  using assms by (auto simp: reportProgress_def Let_def not_less split: option.splits if_splits)

text \<open>The units of the progress reports a sequence of calls gets accepted.\<close>

fun accepted_units :: "workload_call list \<Rightarrow> Workload \<Rightarrow> nat" where
  "accepted_units [] w = 0"
| "accepted_units (c # cs) w =
     (case c of
        ReportProgress ep eg d dur \<Rightarrow> (if fst (call c w) = Outcome.ALLOW then unat d else 0)
      | _ \<Rightarrow> 0) + accepted_units cs (snd (call c w))"

lemma call_units:
  "unat (pg_completed (wl_progress (snd (call c w)))) = unat (pg_completed (wl_progress w)) + accepted_units [c] w"
proof -
  have "unat (pg_completed (snd (advance d dur (wl_progress w)))) = unat (pg_completed (wl_progress w)) + unat d"
    if "fst (call (ReportProgress ep eg d dur) w) = Outcome.ALLOW" for ep eg d dur
    using that reportProgress_allowed [of ep eg d dur w] by (simp add: advance_completed)
  then show ?thesis
    unfolding call_progress by (cases c) auto
qed

text \<open>
  C4. The completed units of a workload are exactly its units before a sequence of
  calls plus those of the accepted progress reports, as natural numbers: no report is counted
  twice, none is lost, no other call contributes, and the 64-bit counter never wraps.
\<close>

theorem progress_exact:
  "unat (pg_completed (wl_progress (run_calls cs w))) =
     unat (pg_completed (wl_progress w)) + accepted_units cs w"
  by (induction cs arbitrary: w) (simp_all add: call_units)

definition within_total :: "Progress \<Rightarrow> bool" where
  "within_total p \<longleftrightarrow> (pg_totalKind p = TotalKind.KNOWN \<longrightarrow> pg_completed p \<le> pg_total p)"

lemma call_within_total: "within_total (wl_progress w) \<Longrightarrow> within_total (wl_progress (snd (call c w)))"
proof -
  assume w: "within_total (wl_progress w)"
  have "within_total (snd (advance d dur (wl_progress w)))"
    if "fst (reportProgress ep eg d dur w) = Outcome.ALLOW" for ep eg d dur
    using reportProgress_allowed [OF that]
    by (auto simp: within_total_def advance_frame) (auto simp: advance_def Let_def split: if_splits)
  with w show ?thesis
    unfolding call_progress by (cases c) auto
qed

text \<open>
  C16. Progress with a known total never exceeds it: if it holds of a
  workload, it holds after every sequence of calls, wrap-around of \<open>completed + delta\<close> in the
  double-count test included.
\<close>

theorem progress_within_total:
  "within_total (wl_progress w) \<Longrightarrow> within_total (wl_progress (run_calls cs w))"
  by (rule run_calls_invariant [where I = "\<lambda>v. within_total (wl_progress v)"]) (rule call_within_total)

theorem progress_within_total_witness:
  "within_total (wl_progress (run_calls
     [ReportProgress (UniqueValue 1000) (UniqueValue 1) 92 False,
      ReportProgress (UniqueValue 1000) (UniqueValue 1) 1 True] sample_running))"
proof (rule progress_within_total)
  show "within_total (wl_progress sample_running)" by code_simp
qed

section \<open>Superseded generations\<close>

text \<open>The generation of the workload a call carries, for every call that carries one.\<close>

definition presented :: "workload_call \<Rightarrow> WorkloadGeneration option" where
  "presented c =
     (case c of
        Transition t e r \<Rightarrow> Some e
      | Settle e \<Rightarrow> Some e
      | CommitCompletion e \<Rightarrow> Some e
      | Finalize e \<Rightarrow> Some e
      | RequestCancellation e \<Rightarrow> Some e
      | CompleteCancellation e \<Rightarrow> Some e
      | OnWorkerLost wk b e \<Rightarrow> Some e
      | PlanRestart e r \<Rightarrow> Some e
      | RequestSuspend e \<Rightarrow> Some e
      | CompleteSuspend e \<Rightarrow> Some e
      | RequestResume e \<Rightarrow> Some e
      | RequestMigration e \<Rightarrow> Some e
      | CommitMigration e wk b \<Rightarrow> Some e
      | _ \<Rightarrow> None)"

text \<open>
  What a call with a generation that is not the current one leaves: \<open>transition\<close> records
  the rejected attempt, every other call returns before it writes anything.
\<close>

definition fenced_off :: "workload_call \<Rightarrow> Workload \<Rightarrow> Workload" where
  "fenced_off c w =
     (case c of
        Transition t e r \<Rightarrow> record_transition (wl_state w) t r Outcome.REJECT_STALE_WORKLOAD_GENERATION w
      | _ \<Rightarrow> w)"

lemma presented_stale:
  "presented c = Some e \<Longrightarrow> e \<noteq> wl_generation w \<Longrightarrow>
   call c w = (Outcome.REJECT_STALE_WORKLOAD_GENERATION, fenced_off c w)"
  by (cases c)
    (simp_all add: presented_def fenced_off_def transition_def guardedTransition_def
      op_settle.stale op_commitCompletion.stale op_finalize.stale
      op_requestCancellation.stale op_completeCancellation.stale op_onWorkerLost.stale
      op_planRestart.stale op_requestSuspend.stale op_completeSuspend.stale op_requestResume.stale
      op_requestMigration.stale op_commitMigration.stale)

lemma run_calls_generation:
  assumes "unat (toU64 (wl_generation w)) + length cs < 2 ^ 64"
  shows "wl_generation w \<le> wl_generation (run_calls cs w) \<and>
    unat (toU64 (wl_generation (run_calls cs w))) \<le> unat (toU64 (wl_generation w)) + length cs"
  using assms
proof (induction cs arbitrary: w)
  case (Cons c cs)
  let ?v = "snd (call c w)"
  have max: "toU64 (wl_generation w) \<noteq> - 1"
  proof
    assume "toU64 (wl_generation w) = - 1"
    then have "unat (toU64 (wl_generation w)) = 2 ^ 64 - 1"
      by (simp add: unsigned_minus_1_eq_mask mask_eq_exp_minus_1)
    with Cons.prems show False by simp
  qed
  have v: "unat (toU64 (wl_generation ?v)) \<le> Suc (unat (toU64 (wl_generation w)))"
    using call.generation [of c w] unat_succ_u64 [OF max] by (auto simp: next_gen_def fromU64_def)
  have "wl_generation w \<le> wl_generation ?v"
    using max by (rule call.generation_mono)
  moreover have "wl_generation ?v \<le> wl_generation (run_calls cs ?v) \<and>
      unat (toU64 (wl_generation (run_calls cs ?v))) \<le> unat (toU64 (wl_generation ?v)) + length cs"
    using Cons.prems v by (intro Cons.IH) simp
  ultimately show ?case using v by (auto intro: order_trans)
qed simp

text \<open>
  C6. Every call that carries a generation of the workload, and carries one the workload had
  already moved past, is rejected as stale, however many calls were made in between, as long as
  they are too few for the 64-bit generation to wrap around. \<open>transition\<close> leaves exactly
  one rejected audit entry with its revision; every other call leaves the workload as it is.
\<close>

theorem superseded_generation_fenced:
  assumes "presented c = Some e" and "e < wl_generation w"
    and "unat (toU64 (wl_generation w)) + length cs < 2 ^ 64"
  shows "call c (run_calls cs w) = (Outcome.REJECT_STALE_WORKLOAD_GENERATION, fenced_off c (run_calls cs w))"
proof (rule presented_stale [OF assms(1)])
  show "e \<noteq> wl_generation (run_calls cs w)"
    using run_calls_generation [OF assms(3)] assms(2) by auto
qed

theorem superseded_generation_fenced_witness:
  "call (CommitCompletion (UniqueValue 1)) (run_calls sample_complete sample_running) =
     (Outcome.REJECT_STALE_WORKLOAD_GENERATION, run_calls sample_complete sample_running) \<and>
   call (Transition WorkloadState.CANCELLED (UniqueValue 1) ''late'') (run_calls sample_complete sample_running) =
     (Outcome.REJECT_STALE_WORKLOAD_GENERATION,
      record_transition WorkloadState.COMPLETED WorkloadState.CANCELLED ''late''
        Outcome.REJECT_STALE_WORKLOAD_GENERATION (run_calls sample_complete sample_running))"
proof -
  have g: "wl_generation sample_running = UniqueValue 2"
    and s: "wl_state (run_calls sample_complete sample_running) = WorkloadState.COMPLETED" by code_simp+
  from g have past: "UniqueValue 1 < wl_generation sample_running" by (simp add: less_unique_value_def)
  from g have few: "unat (toU64 (wl_generation sample_running)) + length sample_complete < 2 ^ 64"
    by (simp add: sample_complete_def)
  show ?thesis
    using superseded_generation_fenced [OF _ past few, of "CommitCompletion (UniqueValue 1)"]
      superseded_generation_fenced [OF _ past few, of "Transition WorkloadState.CANCELLED (UniqueValue 1) ''late''"]
    by (simp add: presented_def fenced_off_def s del: call.simps)
qed

section \<open>Superseded episodes\<close>

definition silenced :: "nat \<Rightarrow> ExecutionEpisodeId \<Rightarrow> Workload \<Rightarrow> bool" where
  "silenced k i w \<longleftrightarrow> episode_index i w = Some k \<and> \<not> ep_authoritative (wl_episodes w ! k)"

lemma find_index_intro:
  "k < length xs \<Longrightarrow> p (xs ! k) \<Longrightarrow> (\<And>j. j < k \<Longrightarrow> \<not> p (xs ! j)) \<Longrightarrow> find_index p xs = Some k"
proof (induction xs arbitrary: k)
  case (Cons x xs)
  show ?case
  proof (cases k)
    case 0
    with Cons.prems show ?thesis by simp
  next
    case (Suc j)
    have "find_index p xs = Some j"
      using Cons.prems Suc by (intro Cons.IH) fastforce+
    with Suc Cons.prems(3) [of 0] show ?thesis by simp
  qed
qed simp

lemma episode_index_extend:
  assumes "episodes_extend (wl_episodes w) (wl_episodes w')" and "episode_index i w = Some k"
  shows "episode_index i w' = Some k"
proof -
  from assms(2) have k: "k < length (wl_episodes w)" "ep_id (wl_episodes w ! k) = i"
    "\<forall>j<k. ep_id (wl_episodes w ! j) \<noteq> i"
    using find_index_Some [of "\<lambda>e. ep_id e = i" "wl_episodes w" k] by (simp_all add: episode_index_def)
  from episodes_extendD [OF assms(1)] k show ?thesis
    unfolding episode_index_def by (intro find_index_intro) auto
qed

lemma silenced_call:
  assumes "silenced k i w"
  shows "silenced k i (snd (call c w))"
proof -
  from assms have k: "episode_index i w = Some k" "\<not> ep_authoritative (wl_episodes w ! k)"
    by (simp_all add: silenced_def)
  then have "k < length (wl_episodes w)"
    using find_index_less by (auto simp: episode_index_def)
  with k show ?thesis
    unfolding silenced_def
    using episode_index_extend [OF call.episodes] episodes_extendD(3) [OF call.episodes] by blast
qed

lemma silenced_runs: "silenced k i w \<Longrightarrow> silenced k i (run_calls cs w)"
  by (rule run_calls_invariant [where I = "silenced k i"]) (rule silenced_call)

lemma silenced_report:
  "silenced k i w \<Longrightarrow>
   snd (reportProgress i eg d dur w) = w \<and>
   fst (reportProgress i eg d dur w) \<in> {Outcome.REJECT_STALE_EPISODE, Outcome.REJECT_EPISODE_INELIGIBLE}"
  by (simp add: silenced_def reportProgress_def)

lemma silenced_append:
  assumes "episode_index i w = Some k"
  shows "silenced k i (append_authoritative ep w)"
proof -
  have "k < length (wl_episodes w)"
    using assms find_index_less by (auto simp: episode_index_def)
  moreover have "episode_index i (append_authoritative ep w) = Some k"
    using assms by (rule episode_index_extend [rotated]) simp
  ultimately show ?thesis
    by (simp add: silenced_def append_authoritative_def nth_append)
qed

text \<open>
  Once another episode has been started on a workload, an
  episode it had before can never report progress again: every report in its name, whatever the
  calls in between, is rejected as stale or ineligible and leaves the workload as it is.
\<close>

theorem superseded_episode_is_silent:
  assumes "episode_index i w = Some k"
    and "fst (startEpisode j ow og adv w) = Outcome.ALLOW"
  shows "let v = run_calls cs (snd (startEpisode j ow og adv w)) in
    snd (reportProgress i eg d dur v) = v \<and>
    fst (reportProgress i eg d dur v) \<in> {Outcome.REJECT_STALE_EPISODE, Outcome.REJECT_EPISODE_INELIGIBLE}"
proof -
  have "silenced k i (snd (startEpisode j ow og adv w))"
  proof -
    have old: "episode_index i v = Some k" if "wl_episodes v = wl_episodes w" for v
      using assms(1) that by (simp add: episode_index_def)
    have gen: "silenced k i (v\<lparr>wl_generation := g\<rparr>) = silenced k i v" for v g
      by (simp add: silenced_def episode_index_def)
    show ?thesis
      using assms(2) by (auto simp: startEpisode_def Let_def gen isAllow_def split: if_splits
          intro!: silenced_append old)
  qed
  then show ?thesis
    unfolding Let_def using silenced_runs silenced_report by blast
qed

theorem superseded_episode_is_silent_witness:
  "let w = run_calls [OnWorkerLost (UniqueValue 5) (UniqueValue 50) (UniqueValue 2)] sample_running;
       v = run_calls [AdmitDispatch (UniqueValue 1001) (UniqueValue 6) (UniqueValue 60)]
             (snd (startEpisode (UniqueValue 1001) (UniqueValue 1) (UniqueValue 1) True w))
   in snd (reportProgress (UniqueValue 1000) (UniqueValue 1) 4 True v) = v \<and>
      fst (reportProgress (UniqueValue 1000) (UniqueValue 1) 4 True v)
        \<in> {Outcome.REJECT_STALE_EPISODE, Outcome.REJECT_EPISODE_INELIGIBLE}"
  unfolding Let_def
proof (rule superseded_episode_is_silent [unfolded Let_def])
  show "episode_index (UniqueValue 1000)
      (run_calls [OnWorkerLost (UniqueValue 5) (UniqueValue 50) (UniqueValue 2)] sample_running) = Some 0"
    by code_simp
  show "fst (startEpisode (UniqueValue 1001) (UniqueValue 1) (UniqueValue 1) True
      (run_calls [OnWorkerLost (UniqueValue 5) (UniqueValue 50) (UniqueValue 2)] sample_running)) = Outcome.ALLOW"
    by code_simp
qed

section \<open>Final cancellation\<close>

lemma cancelledFinal_call: "wl_cancelledFinal w \<Longrightarrow> wl_cancelledFinal (snd (call c w))"
  by (cases c)
    (auto simp: transition_def settle_def startEpisode_def admitDispatch_def reportProgress_def
      commitCompletion_def finalize_def requestCancellationWorkloadScope_def completeCancellation_def
      onWorkerLost_def markEpisodeCompleted_def markEpisodeFailed_def planRestart_def requestSuspend_def
      completeSuspend_def requestResume_def requestMigration_def commitMigration_def
      update_episode_def on_deps_def on_contract_def Let_def split: option.split)

text \<open>
  The states the completion of a cancellation leaves a workload in: the states before execution,
  CANCELLING, COMPLETING and FAILED_RECOVERABLE, from which its transitions are rejected, and the
  terminal ones.
\<close>

definition halted :: "WorkloadState \<Rightarrow> bool" where
  "halted s \<longleftrightarrow> pre_execution s \<or> isTerminal s \<or>
     s \<in> {WorkloadState.CANCELLING, WorkloadState.COMPLETING, WorkloadState.FAILED_RECOVERABLE}"

lemma completeCancellation_halts:
  assumes "\<not> isTerminal (wl_state w) \<or> wl_state w = WorkloadState.CANCELLED"
  shows "wl_cancelledFinal (snd (completeCancellation (wl_generation w) w))"
    and "halted (wl_state (snd (completeCancellation (wl_generation w) w)))"
    and "same_lineage w (snd (completeCancellation (wl_generation w) w))"
    and "wl_progress (snd (completeCancellation (wl_generation w) w)) = wl_progress w"
proof -
  have edges: "canTransition WorkloadState.CANCELLATION_REQUESTED WorkloadState.CANCELLING"
    "canTransition WorkloadState.CANCELLING WorkloadState.CANCELLED" by (simp_all add: canTransition_iff)
  have stuck: "halted s" if "\<not> canTransition s WorkloadState.CANCELLATION_REQUESTED"
      "s \<noteq> WorkloadState.CANCELLATION_REQUESTED" for s
    using that by (cases s) (auto simp: halted_def pre_execution_def canTransition_iff)
  show "halted (wl_state (snd (completeCancellation (wl_generation w) w)))"
    using assms by (auto simp: completeCancellation_def Let_def isAllow_def guardedTransition_allow_iff
        guardedTransition_state zero_work_blocked_def edges stuck) (auto simp: halted_def)
  show "wl_cancelledFinal (snd (completeCancellation (wl_generation w) w))"
    using assms by (auto simp: completeCancellation_def Let_def)
  show "same_lineage w (snd (completeCancellation (wl_generation w) w))"
    by (simp add: completeCancellation_def Let_def)
  show "wl_progress (snd (completeCancellation (wl_generation w) w)) = wl_progress w"
    by (simp add: completeCancellation_def Let_def)
qed

lemma stays_terminal_lineage: "stays_terminal w v \<Longrightarrow> same_lineage w v"
proof -
  have core: "map lineage es = map lineage (map episode_core es)" for es
    by (simp add: lineage_def episode_core_def)
  assume "stays_terminal w v"
  then have "map episode_core (wl_episodes v) = map episode_core (wl_episodes w)"
    by (auto simp: stays_terminal_def terminal_core_def dest: arg_cong [where f = wl_episodes])
  then show ?thesis unfolding same_lineage_def by (metis core)
qed

lemma halted_call:
  assumes "halted (wl_state w)" and "wl_cancelledFinal w" and "\<not> is_transition c"
  shows "halted (wl_state (snd (call c w))) \<and> same_lineage w (snd (call c w))"
proof -
  consider (pre) "pre_execution (wl_state w)" | (terminal) "isTerminal (wl_state w)"
    | (stuck) "wl_state w \<in> {WorkloadState.CANCELLING, WorkloadState.COMPLETING, WorkloadState.FAILED_RECOVERABLE}"
    using assms(1) by (auto simp: halted_def)
  then show ?thesis
  proof cases
    case pre
    have "fst (startEpisode i ow og adv w) \<noteq> Outcome.ALLOW" for i ow og adv
      using assms(2) by (simp add: startEpisode_def)
    with pre_execution_call [OF pre assms(3)] show ?thesis by (auto simp: halted_def)
  next
    case terminal
    then show ?thesis
      using stays_terminal_lineage [OF stays_terminal_call [OF terminal]] call.terminal_absorbing [of w c]
      by (simp add: halted_def)
  next
    case stuck
    then obtain s where s: "wl_state w = s" and "s \<in> {WorkloadState.CANCELLING, WorkloadState.COMPLETING,
        WorkloadState.FAILED_RECOVERABLE}" by blast
    then have facts: "\<not> canTransition s WorkloadState.READY" "\<not> canTransition s WorkloadState.SUSPENDED"
      "\<not> canTransition s WorkloadState.RESTART_PENDING" "\<not> canTransition s WorkloadState.CANCELLATION_REQUESTED"
      "\<not> canTransition s WorkloadState.WAITING_FOR_DEPENDENCIES"
      "\<not> canTransition s WorkloadState.WAITING_FOR_RESOURCES" "\<not> isActivelyRunning s"
      "s \<noteq> WorkloadState.SUSPENDED" "s \<noteq> WorkloadState.PREEMPTED" "s \<noteq> WorkloadState.STARTING"
      "s \<noteq> WorkloadState.MIGRATING" "s \<noteq> WorkloadState.MIGRATION_PENDING" "s \<noteq> WorkloadState.RUNNING"
      "s \<noteq> WorkloadState.DEGRADED" "s \<noteq> WorkloadState.SUSPEND_REQUESTED" "s \<noteq> WorkloadState.SUSPENDING"
      "s \<noteq> WorkloadState.RESTART_PENDING" "s \<noteq> WorkloadState.READY" "s \<noteq> WorkloadState.CANCELLED"
      "s \<noteq> WorkloadState.CANCELLATION_REQUESTED" "halted s" "halted WorkloadState.COMPLETED"
      "halted WorkloadState.COMPLETING" "halted WorkloadState.CANCELLING" "halted WorkloadState.READY"
      "halted WorkloadState.WAITING_FOR_DEPENDENCIES" "halted WorkloadState.WAITING_FOR_RESOURCES"
      by (auto simp: canTransition_iff isActivelyRunning_def halted_def pre_execution_def)
    note base = s facts Let_def isAllow_def guardedTransition_allow_iff guardedTransition_state
    show ?thesis
    proof (cases c)
      case (Settle e)
      then show ?thesis by (auto simp: settle_def base split: option.split)
    next
      case (CommitCompletion e)
      then show ?thesis by (simp add: commitCompletion_def base split: option.split)
    qed (use assms in \<open>simp_all add: is_transition_def startEpisode_def admitDispatch_def
        reportProgress_def finalize_def requestCancellationWorkloadScope_def completeCancellation_def
        onWorkerLost_def markEpisodeCompleted_def markEpisodeFailed_def planRestart_def requestSuspend_def
        completeSuspend_def requestResume_def requestMigration_def commitMigration_def
        on_deps_def on_contract_def base split: option.split\<close>)
  qed
qed

lemma run_calls_halted:
  assumes "halted (wl_state w)" and "wl_cancelledFinal w" and "\<forall>c\<in>set cs. \<not> is_transition c"
  shows "halted (wl_state (run_calls cs w)) \<and> same_lineage w (run_calls cs w)"
  using assms
proof (induction cs arbitrary: w)
  case (Cons c cs)
  have "halted (wl_state (snd (call c w))) \<and> same_lineage w (snd (call c w))"
    using Cons.prems by (intro halted_call) auto
  moreover from this Cons.prems have "same_lineage (snd (call c w)) (run_calls cs (snd (call c w)))"
    "halted (wl_state (run_calls cs (snd (call c w))))"
    by (simp_all add: Cons.IH cancelledFinal_call)
  ultimately show ?case by (simp add: same_lineage_def)
qed simp

lemma cancelledFinal_runs: "wl_cancelledFinal w \<Longrightarrow> wl_cancelledFinal (run_calls cs w)"
  by (rule run_calls_invariant [where I = wl_cancelledFinal]) (rule cancelledFinal_call)

lemma cancelledFinal_no_report:
  "wl_cancelledFinal w \<Longrightarrow> snd (reportProgress ep eg d dur w) = w \<and>
   fst (reportProgress ep eg d dur w) \<noteq> Outcome.ALLOW"
  by (simp add: reportProgress_def split: option.split)

lemma cancelledFinal_progress:
  assumes "wl_cancelledFinal w"
  shows "wl_progress (run_calls cs w) = wl_progress w"
proof -
  have "wl_progress (snd (call c v)) = wl_progress v" if "wl_cancelledFinal v" for c v
    using cancelledFinal_no_report [OF that] call_progress [of c v] by (cases c) simp_all
  then have "wl_cancelledFinal (run_calls cs w) \<and> wl_progress (run_calls cs w) = wl_progress w"
    using assms cancelledFinal_call
    by (intro run_calls_invariant [where I = "\<lambda>v. wl_cancelledFinal v \<and> wl_progress v = wl_progress w"]) auto
  then show ?thesis by simp
qed

text \<open>
  C31. The completion of a cancellation, asked for in the current generation of a workload that
  is CANCELLED or not terminal, is final even where it is itself rejected: whatever is called
  afterwards, no episode can be started, no progress report is accepted and the progress stays.
  If none of the calls is a direct \<open>transition\<close>, no migration commits either: the
  episodes and their authority are those there were, and the workload remains in a halted state.
\<close>

theorem cancelled_final_stops_work:
  assumes "\<not> isTerminal (wl_state w) \<or> wl_state w = WorkloadState.CANCELLED"
  shows "let v = run_calls cs (snd (completeCancellation (wl_generation w) w)) in
    startEpisode i ow og adv v = (Outcome.REJECT_CANCELLED, v) \<and>
    snd (reportProgress ep eg d dur v) = v \<and> fst (reportProgress ep eg d dur v) \<noteq> Outcome.ALLOW \<and>
    wl_progress v = wl_progress w \<and>
    ((\<forall>c\<in>set cs. \<not> is_transition c) \<longrightarrow>
       halted (wl_state v) \<and> same_lineage w v \<and> fst (commitMigration e wk b v) \<noteq> Outcome.ALLOW)"
proof -
  define u where "u = snd (completeCancellation (wl_generation w) w)"
  have u: "wl_cancelledFinal u" "halted (wl_state u)" "same_lineage w u" "wl_progress u = wl_progress w"
    unfolding u_def using assms by (simp_all add: completeCancellation_halts)
  define v where "v = run_calls cs u"
  have v: "wl_cancelledFinal v" "wl_progress v = wl_progress w"
    unfolding v_def using u by (simp_all add: cancelledFinal_runs cancelledFinal_progress)
  have halt: "halted (wl_state v) \<and> same_lineage w v \<and> fst (commitMigration e wk b v) \<noteq> Outcome.ALLOW"
    if "\<forall>c\<in>set cs. \<not> is_transition c"
  proof -
    have *: "halted (wl_state v)" "same_lineage w v"
      using run_calls_halted [OF u(2,1) that] u(3) by (simp_all add: v_def same_lineage_def)
    then have "fst (commitMigration e wk b v) \<noteq> Outcome.ALLOW"
      by (auto simp: commitMigration_def halted_def)
    with * show ?thesis by blast
  qed
  have "startEpisode i ow og adv v = (Outcome.REJECT_CANCELLED, v)"
    using v(1) by (simp add: startEpisode_def)
  then show ?thesis
    using v(2) cancelledFinal_no_report [OF v(1), of ep eg d dur] halt
    by (simp only: Let_def u_def [symmetric] v_def [symmetric]) blast
qed

theorem cancelled_final_stops_work_witness:
  "let v = run_calls [Settle (UniqueValue 1), RequestMigration (UniqueValue 1)]
             (snd (completeCancellation (UniqueValue 1) sample_ready)) in
    startEpisode (UniqueValue 1000) (UniqueValue 1) (UniqueValue 1) True v = (Outcome.REJECT_CANCELLED, v) \<and>
    wl_progress v = wl_progress sample_ready \<and> halted (wl_state v) \<and> same_lineage sample_ready v \<and>
    fst (commitMigration (UniqueValue 1) (UniqueValue 5) (UniqueValue 50) v) \<noteq> Outcome.ALLOW"
proof -
  have w: "\<not> isTerminal (wl_state sample_ready) \<or> wl_state sample_ready = WorkloadState.CANCELLED"
    and g: "wl_generation sample_ready = UniqueValue 1" by code_simp+
  show ?thesis
    using cancelled_final_stops_work [OF w, where cs = "[Settle (UniqueValue 1), RequestMigration (UniqueValue 1)]"
        and i = "UniqueValue 1000" and ow = "UniqueValue 1" and og = "UniqueValue 1" and adv = True
        and e = "UniqueValue 1" and wk = "UniqueValue 5" and b = "UniqueValue 50"]
    unfolding g Let_def by (simp only: is_transition_def) simp
qed

text \<open>
  By direct transitions a migration gets around the final cancellation:
  a workload cancelled while READY is taken to MIGRATION_PENDING, and committing the migration
  gives it a new RUNNING episode with authority.
\<close>

definition cancel_then_migrate :: "workload_call list" where
  "cancel_then_migrate =
     CompleteCancellation (UniqueValue 1) #
     map (\<lambda>s. Transition s (UniqueValue 1) ''by hand'')
       [WorkloadState.STARTING, WorkloadState.RUNNING, WorkloadState.MIGRATION_PENDING] @
     [CommitMigration (UniqueValue 1) (UniqueValue 5) (UniqueValue 50)]"

theorem migration_after_final_cancellation:
  "let w = run_calls cancel_then_migrate sample_ready
   in wl_cancelledFinal w \<and> wl_state w = WorkloadState.RUNNING \<and>
      map (\<lambda>e. (ep_state e, ep_authoritative e)) (wl_episodes w) = [(EpisodeState.RUNNING, True)]"
  by code_simp

end
