(* ===== verification/Workload_Operations.thy ===== *)
theory Workload_Operations
  imports Workload_Safety
begin

text \<open>
  The functional behaviour of the operations of the aggregate on every branch: when each of them
  is allowed, what it changes then, and what it leaves alone when it rejects. The last section
  states the behaviours that a client of the aggregate has to know of because the code's own
  comments promise something else.
\<close>

section \<open>Chained transitions\<close>

lemma guardedTransition_allowed:
  assumes "canTransition (wl_state w) t" and "\<not> zero_work_blocked w t"
  shows "guardedTransition t (wl_generation w) r w =
    (Outcome.ALLOW, record_transition (wl_state w) t r Outcome.ALLOW (w\<lparr>wl_state := t\<rparr>))"
  by (cases rule: guardedTransition_cases [of "wl_generation w" w t r])
    (use assms in \<open>auto simp: terminal_no_successor zero_work_blocked_def\<close>)

lemma guardedTransition_no_edge:
  assumes "\<not> canTransition (wl_state w) t" and "\<not> isTerminal (wl_state w)" and "wl_state w \<noteq> t"
  shows "guardedTransition t (wl_generation w) r w =
    (Outcome.REJECT_INVALID_TRANSITION, record_transition (wl_state w) t r Outcome.REJECT_INVALID_TRANSITION w)"
  by (cases rule: guardedTransition_cases [of "wl_generation w" w t r])
    (use assms in \<open>auto simp: zero_work_blocked_def\<close>)

lemma zero_work_blocked_other [simp]: "t \<noteq> WorkloadState.COMPLETED \<Longrightarrow> \<not> zero_work_blocked w t"
  by (simp add: zero_work_blocked_def)

lemma edges_by_name [simp]:
  "canTransition WorkloadState.READY WorkloadState.STARTING"
  "canTransition WorkloadState.STARTING WorkloadState.RUNNING"
  "canTransition WorkloadState.COMPLETING WorkloadState.COMPLETED"
  "canTransition WorkloadState.CANCELLATION_REQUESTED WorkloadState.CANCELLING"
  "canTransition WorkloadState.CANCELLING WorkloadState.CANCELLED"
  "canTransition WorkloadState.SUSPEND_REQUESTED WorkloadState.SUSPENDING"
  "canTransition WorkloadState.SUSPENDING WorkloadState.SUSPENDED"
  "canTransition WorkloadState.MIGRATION_PENDING WorkloadState.MIGRATING"
  "canTransition WorkloadState.MIGRATING WorkloadState.RUNNING"
  by (simp_all add: canTransition_iff)

section \<open>Starting an episode\<close>

text \<open>The audit entry of a granted transition.\<close>

definition granted :: "Workload \<Rightarrow> WorkloadState \<Rightarrow> WorkloadState \<Rightarrow> string \<Rightarrow> TransitionRecord" where
  "granted w f t r = \<lparr>tr_from = f, tr_to = t, tr_generation = wl_generation w, tr_timestampMs = 0,
     tr_reason = r, tr_outcome = Outcome.ALLOW\<rparr>"

definition started_episode ::
  "ExecutionEpisodeId \<Rightarrow> OwnerId \<Rightarrow> OwnerGeneration \<Rightarrow> Workload \<Rightarrow> Episode" where
  "started_episode i ow og w = default_episode\<lparr>ep_id := i, ep_generation := UniqueValue 1,
     ep_state := EpisodeState.ADMITTED, ep_owner := ow, ep_ownerGeneration := og,
     ep_intent := wl_intent w, ep_progress := wl_progress w\<rparr>"

lemma resumeEligible_edge:
  "resumeEligible s \<Longrightarrow> s \<noteq> WorkloadState.READY \<Longrightarrow> canTransition s WorkloadState.READY"
  by (auto simp: resumeEligible_def canTransition_to_READY)

lemma startEpisode_allowed:
  assumes "resumeEligible (wl_state w)" and "\<not> wl_cancelledFinal w"
  shows "startEpisode i ow og adv w = (Outcome.ALLOW,
    w\<lparr>wl_state := WorkloadState.STARTING,
      wl_generation := (if adv then next_gen (wl_generation w) else wl_generation w),
      wl_history := wl_history w @
        (if wl_state w = WorkloadState.READY then []
         else [granted w (wl_state w) WorkloadState.READY ''resume eligible'']) @
        [granted w WorkloadState.READY WorkloadState.STARTING ''start episode''],
      wl_revision := (if wl_state w = WorkloadState.READY then next_gen (wl_revision w)
                      else next_gen (next_gen (wl_revision w))),
      wl_episodes := map (\<lambda>e. e\<lparr>ep_authoritative := False\<rparr>) (wl_episodes w) @ [started_episode i ow og w]\<rparr>)"
proof -
  have nt: "\<not> isTerminal (wl_state w)" "\<not> isCancelling (wl_state w)"
    using assms(1) by (auto simp: resumeEligible_def isCancelling_def)
  have ep: "default_episode\<lparr>ep_id := i, ep_generation := fromU64 1, ep_state := EpisodeState.ADMITTED,
      ep_owner := ow, ep_ownerGeneration := og, ep_intent := wl_intent w, ep_authoritative := True,
      ep_progress := wl_progress w\<rparr> = started_episode i ow og w"
    by (simp add: started_episode_def default_episode_def fromU64_def)
  show ?thesis
  proof (cases "wl_state w = WorkloadState.READY")
    case True
    with assms nt ep show ?thesis
      by (simp add: startEpisode_def Let_def isAllow_def guardedTransition_allowed
          append_authoritative_def record_transition_def granted_def)
  next
    case False
    with assms(1) have "canTransition (wl_state w) WorkloadState.READY" by (rule resumeEligible_edge)
    moreover have "guardedTransition WorkloadState.STARTING (wl_generation w) ''start episode''
        (record_transition s t r out (w\<lparr>wl_state := WorkloadState.READY\<rparr>)) =
      (Outcome.ALLOW, record_transition WorkloadState.READY WorkloadState.STARTING ''start episode'' Outcome.ALLOW
        ((record_transition s t r out (w\<lparr>wl_state := WorkloadState.READY\<rparr>))\<lparr>wl_state := WorkloadState.STARTING\<rparr>))"
      for s t r out
      using guardedTransition_allowed [of "record_transition s t r out (w\<lparr>wl_state := WorkloadState.READY\<rparr>)"] by simp
    ultimately show ?thesis
      using False assms nt ep
      by (simp add: startEpisode_def Let_def isAllow_def guardedTransition_allowed
          append_authoritative_def record_transition_def granted_def)
  qed
qed

text \<open>
  C17. Starting an episode is allowed exactly from READY, RESTART_PENDING,
  SUSPENDED, PREEMPTED or RECOVERING while the cancellation is not final, and its inner
  transitions then never fail. It takes the workload to STARTING, records one transition (two
  when it was not READY), revokes the authority of every earlier episode, appends the new
  episode with authority and the workload's progress, and advances the generation when asked.
  Every rejection leaves the workload as it is and names its reason.
\<close>

theorem startEpisode_spec:
  "startEpisode i ow og adv w =
     (if wl_cancelledFinal w \<or> isCancelling (wl_state w) then (Outcome.REJECT_CANCELLED, w)
      else if isTerminal (wl_state w) then (Outcome.REJECT_TERMINAL, w)
      else if \<not> resumeEligible (wl_state w) then (Outcome.REJECT_EPISODE_INELIGIBLE, w)
      else (Outcome.ALLOW,
        w\<lparr>wl_state := WorkloadState.STARTING,
          wl_generation := (if adv then next_gen (wl_generation w) else wl_generation w),
          wl_history := wl_history w @
            (if wl_state w = WorkloadState.READY then []
             else [granted w (wl_state w) WorkloadState.READY ''resume eligible'']) @
            [granted w WorkloadState.READY WorkloadState.STARTING ''start episode''],
          wl_revision := (if wl_state w = WorkloadState.READY then next_gen (wl_revision w)
                          else next_gen (next_gen (wl_revision w))),
          wl_episodes := map (\<lambda>e. e\<lparr>ep_authoritative := False\<rparr>) (wl_episodes w) @
            [started_episode i ow og w]\<rparr>))"
proof (cases "wl_cancelledFinal w \<or> isCancelling (wl_state w) \<or> isTerminal (wl_state w) \<or>
    \<not> resumeEligible (wl_state w)")
  case True
  then show ?thesis by (auto simp: startEpisode_def)
next
  case False
  with startEpisode_allowed [of w i ow og adv] show ?thesis by simp
qed

section \<open>Settling\<close>

text \<open>The state a workload belongs in while it waits for its inputs.\<close>

definition settled_state :: "Workload \<Rightarrow> WorkloadState" where
  "settled_state w =
     (if \<not> deps_ready (wl_deps w) then WorkloadState.WAITING_FOR_DEPENDENCIES
      else if \<not> satisfied (wl_contract w) then WorkloadState.WAITING_FOR_RESOURCES
      else WorkloadState.READY)"

text \<open>
  Settling takes a workload with unmet required dependencies to
  WAITING_FOR_DEPENDENCIES, one with its dependencies met but its resource contract unsatisfied to
  WAITING_FOR_RESOURCES, and any other to READY. It is allowed exactly when the workload is
  already in that state or the table has an edge to it, it changes nothing but the state, and a
  terminal or cancelling workload is never moved.
\<close>

theorem settle_spec:
  "let t = settled_state w; r = settle (wl_generation w) w in
     (fst r = Outcome.ALLOW \<longleftrightarrow> wl_state w = t \<or> canTransition (wl_state w) t) \<and>
     wl_state (snd r) = (if fst r = Outcome.ALLOW then t else wl_state w) \<and>
     ((isTerminal (wl_state w) \<or> isCancelling (wl_state w)) \<longrightarrow> fst r \<noteq> Outcome.ALLOW \<and> wl_state (snd r) = wl_state w) \<and>
     wl_generation (snd r) = wl_generation w \<and> wl_episodes (snd r) = wl_episodes w \<and>
     wl_progress (snd r) = wl_progress w"
proof -
  have stopped: "wl_state w \<noteq> settled_state w \<and> \<not> canTransition (wl_state w) (settled_state w)"
    if "isTerminal (wl_state w) \<or> isCancelling (wl_state w)"
    using that
    by (auto simp: settled_state_def isTerminal_iff isCancelling_def canTransition_iff)
  show ?thesis
    using stopped
    by (auto simp: Let_def settle_def settled_state_def guardedTransition_state
        guardedTransition_allow_iff split: if_splits)
qed

theorem settle_spec_witness:
  "let w = run_calls [Transition WorkloadState.VALIDATING (UniqueValue 1) ''validate''] sample_created
   in wl_state (snd (settle (wl_generation w) w)) = WorkloadState.WAITING_FOR_RESOURCES"
proof -
  let ?w = "run_calls [Transition WorkloadState.VALIDATING (UniqueValue 1) ''validate''] sample_created"
  have "settled_state ?w = WorkloadState.WAITING_FOR_RESOURCES"
    "canTransition (wl_state ?w) WorkloadState.WAITING_FOR_RESOURCES"
    by code_simp+
  with settle_spec [of ?w] show ?thesis unfolding Let_def by metis
qed

section \<open>Completion\<close>

definition completable :: "Workload \<Rightarrow> bool" where
  "completable w \<longleftrightarrow> wl_state w \<in> {WorkloadState.RUNNING, WorkloadState.DEGRADED,
     WorkloadState.CANCELLATION_REQUESTED, WorkloadState.COMPLETING}"

lemma completable_iff:
  "completable w \<longleftrightarrow> wl_state w = WorkloadState.COMPLETING \<or> canTransition (wl_state w) WorkloadState.COMPLETING"
  by (auto simp: completable_def canTransition_to_COMPLETING)

text \<open>What the tail of a completion does once its guards have passed.\<close>

lemma completing_then_completed:
  assumes "completable w"
  shows "\<exists>v. guardedTransition WorkloadState.COMPLETING (wl_generation w) r w = (Outcome.ALLOW, v) \<and>
    wl_state v = WorkloadState.COMPLETING \<and> wl_generation v = wl_generation w"
proof -
  have "fst (guardedTransition WorkloadState.COMPLETING (wl_generation w) r w) = Outcome.ALLOW"
    using assms by (simp add: guardedTransition_allow_iff completable_iff)
  then show ?thesis
    using guardedTransition_state [of WorkloadState.COMPLETING "wl_generation w" r w]
      guardedTransition_frame(2) [of WorkloadState.COMPLETING "wl_generation w" r w]
    by (cases "guardedTransition WorkloadState.COMPLETING (wl_generation w) r w") auto
qed

text \<open>The assignments of \<open>commitCompletion\<close> before its transitions.\<close>

definition completion_marks :: "Workload \<Rightarrow> Workload" where
  "completion_marks w =
     (let w1 = (case currentEpisode w of None \<Rightarrow> w
                | Some k \<Rightarrow> update_episode k (\<lambda>e. e\<lparr>ep_completed := True\<rparr>) w)
      in w1\<lparr>wl_cancellationRequested := False, wl_cancellationWasRejected := True,
            wl_completionGen := next_gen (wl_completionGen w1)\<rparr>)"

lemma completion_marks_frame [simp]:
  "wl_state (completion_marks w) = wl_state w"
  "wl_generation (completion_marks w) = wl_generation w"
  "wl_policy (completion_marks w) = wl_policy w"
  "wl_progress (completion_marks w) = wl_progress w"
  "wl_cancellationRequested (completion_marks w) = False"
  "wl_cancellationWasRejected (completion_marks w) = True"
  "wl_completionGen (completion_marks w) = next_gen (wl_completionGen w)"
  by (simp_all add: completion_marks_def Let_def update_episode_def split: option.split)

lemma commitCompletion_unfold:
  "commitCompletion e w =
     (if e \<noteq> wl_generation w then (Outcome.REJECT_STALE_WORKLOAD_GENERATION, w)
      else if isTerminal (wl_state w) then (Outcome.REJECT_TERMINAL, w)
      else if wl_cancellationRequested w \<and> po_cancelRace (wl_policy w) = CancelRaceSemantics.CANCEL_FIRST
      then (Outcome.REJECT_CANCELLED, w)
      else if \<not> completion_criterion w then (Outcome.REJECT_COMPLETION_POLICY, w)
      else
        let a = guardedTransition WorkloadState.COMPLETING e ''completion criteria met'' (completion_marks w)
        in if \<not> isAllow (fst a) then a
           else guardedTransition WorkloadState.COMPLETED (wl_generation (snd a)) ''workload completed'' (snd a))"
  by (simp add: commitCompletion_def completion_marks_def Let_def)

lemma commitCompletion_fst:
  "fst (commitCompletion e w) = Outcome.ALLOW \<longleftrightarrow>
     e = wl_generation w \<and> completable w \<and> completion_criterion w \<and>
     \<not> (wl_cancellationRequested w \<and> po_cancelRace (wl_policy w) = CancelRaceSemantics.CANCEL_FIRST)"
proof -
  have "fst (guardedTransition WorkloadState.COMPLETED (wl_generation v) r v) = Outcome.ALLOW"
    if "wl_state v = WorkloadState.COMPLETING" for v r
    using that by (simp add: guardedTransition_allow_iff zero_work_blocked_def)
  moreover have "completable (completion_marks w) = completable w"
    by (simp add: completable_def)
  moreover have "\<not> isTerminal (wl_state w)" if "completable w"
    using that by (auto simp: completable_def)
  ultimately show ?thesis
    by (auto simp: commitCompletion_unfold Let_def isAllow_def guardedTransition_allow_iff
        guardedTransition_state completable_iff zero_work_blocked_def)
qed

lemma commitCompletion_effect:
  assumes "fst (commitCompletion e w) = Outcome.ALLOW"
  shows "wl_state (snd (commitCompletion e w)) = WorkloadState.COMPLETED \<and>
    wl_generation (snd (commitCompletion e w)) = wl_generation w \<and>
    wl_progress (snd (commitCompletion e w)) = wl_progress w \<and>
    wl_cancellationRequested (snd (commitCompletion e w)) = False \<and>
    wl_cancellationWasRejected (snd (commitCompletion e w)) = True \<and>
    wl_completionGen (snd (commitCompletion e w)) = next_gen (wl_completionGen w)"
  using assms
  by (auto simp: commitCompletion_unfold Let_def isAllow_def guardedTransition_state split: if_splits)

text \<open>
  C18. Completion is allowed exactly for the current generation, from RUNNING,
  DEGRADED, CANCELLATION_REQUESTED or COMPLETING, when the criterion of the policy holds and no
  requested cancellation takes precedence; the workload is then COMPLETED with the same
  generation and progress, a new completion generation, and no cancellation pending.
\<close>

theorem commitCompletion_spec:
  "let r = commitCompletion e w in
     (fst r = Outcome.ALLOW \<longleftrightarrow>
        e = wl_generation w \<and> completable w \<and> completion_criterion w \<and>
        \<not> (wl_cancellationRequested w \<and> po_cancelRace (wl_policy w) = CancelRaceSemantics.CANCEL_FIRST)) \<and>
     (fst r = Outcome.ALLOW \<longrightarrow>
        wl_state (snd r) = WorkloadState.COMPLETED \<and> wl_generation (snd r) = wl_generation w \<and>
        wl_progress (snd r) = wl_progress w \<and> \<not> wl_cancellationRequested (snd r) \<and>
        wl_completionGen (snd r) = next_gen (wl_completionGen w))"
  using commitCompletion_fst [of e w] commitCompletion_effect [of e w] by (simp add: Let_def)

theorem commitCompletion_spec_witness:
  "wl_state (snd (commitCompletion (UniqueValue 2)
     (snd (markEpisodeCompleted (UniqueValue 1000) sample_running)))) = WorkloadState.COMPLETED"
proof -
  have "fst (commitCompletion (UniqueValue 2)
     (snd (markEpisodeCompleted (UniqueValue 1000) sample_running))) = Outcome.ALLOW"
    by code_simp
  with commitCompletion_spec [of "UniqueValue 2" "snd (markEpisodeCompleted (UniqueValue 1000) sample_running)"]
  show ?thesis unfolding Let_def by blast
qed

section \<open>Cancellation\<close>

lemma requestCancellation_fst:
  "fst (requestCancellationWorkloadScope e w) = Outcome.ALLOW \<longleftrightarrow>
     e = wl_generation w \<and>
     (isCancelling (wl_state w) \<or> canTransition (wl_state w) WorkloadState.CANCELLATION_REQUESTED)"
  by (auto simp: requestCancellationWorkloadScope_def Let_def isTerminal_iff isCancelling_def
      guardedTransition_allow_iff canTransition_to_CANCELLATION_REQUESTED)

lemma requestCancellation_effect:
  assumes "fst (requestCancellationWorkloadScope e w) = Outcome.ALLOW"
  shows "isCancelling (wl_state (snd (requestCancellationWorkloadScope e w)))"
    "wl_cancellationRequested (snd (requestCancellationWorkloadScope e w))"
    "wl_generation (snd (requestCancellationWorkloadScope e w)) = wl_generation w"
    "wl_policy (snd (requestCancellationWorkloadScope e w)) = wl_policy w"
  using assms
  by (auto simp: requestCancellationWorkloadScope_def Let_def isCancelling_def
      guardedTransition_state split: if_splits)

text \<open>Under CANCEL_FIRST a request stands for good: only a completion could withdraw it.\<close>

definition cancel_first_requested :: "Workload \<Rightarrow> bool" where
  "cancel_first_requested w \<longleftrightarrow>
     wl_cancellationRequested w \<and> po_cancelRace (wl_policy w) = CancelRaceSemantics.CANCEL_FIRST"

lemma cancel_first_no_completion:
  "cancel_first_requested w \<Longrightarrow>
   snd (commitCompletion e w) = w \<and> fst (commitCompletion e w) \<noteq> Outcome.ALLOW"
  by (simp add: commitCompletion_def cancel_first_requested_def)

lemma cancel_first_call: "cancel_first_requested w \<Longrightarrow> cancel_first_requested (snd (call c w))"
proof (cases c)
  case (CommitCompletion e)
  then show "cancel_first_requested w \<Longrightarrow> ?thesis" using cancel_first_no_completion [of w e] by simp
qed (auto simp: cancel_first_requested_def transition_def settle_def startEpisode_def admitDispatch_def
      reportProgress_def finalize_def requestCancellationWorkloadScope_def completeCancellation_def
      onWorkerLost_def markEpisodeCompleted_def markEpisodeFailed_def planRestart_def requestSuspend_def
      completeSuspend_def requestResume_def requestMigration_def commitMigration_def append_authoritative_def
      update_episode_def on_deps_def on_contract_def Let_def split: option.split)

lemma cancel_first_runs: "cancel_first_requested w \<Longrightarrow> cancel_first_requested (run_calls cs w)"
  by (rule run_calls_invariant [where I = cancel_first_requested]) (rule cancel_first_call)

lemma completeCancellation_effect:
  "fst (completeCancellation e w) = Outcome.ALLOW \<Longrightarrow>
   wl_state (snd (completeCancellation e w)) = WorkloadState.CANCELLED"
  by (auto simp: completeCancellation_def Let_def isAllow_def guardedTransition_state split: if_splits)

lemma terminal_stays: "isTerminal (wl_state w) \<Longrightarrow> wl_state (run_calls cs w) = wl_state w"
  using run_calls_stays_terminal [of w cs] by (auto simp: stays_terminal_def intro: terminal_core_state)

lemma terminal_rejects_completion:
  "isTerminal (wl_state w) \<Longrightarrow> snd (commitCompletion e w) = w \<and> fst (commitCompletion e w) \<noteq> Outcome.ALLOW"
  "isTerminal (wl_state w) \<Longrightarrow> snd (finalize e w) = w \<and> fst (finalize e w) \<noteq> Outcome.ALLOW"
  by (simp_all add: commitCompletion_def finalize_def)

lemma completed_rejects_cancellation:
  "wl_state w = WorkloadState.COMPLETED \<Longrightarrow>
   snd (requestCancellationWorkloadScope e w) = w \<and> fst (requestCancellationWorkloadScope e w) \<noteq> Outcome.ALLOW \<and>
   snd (completeCancellation e w) = w \<and> fst (completeCancellation e w) \<noteq> Outcome.ALLOW"
  by (simp add: requestCancellationWorkloadScope_def completeCancellation_def)

text \<open>
  C19. Of completion and cancellation at most one commits, whatever is called in between. After an
  allowed \<open>commitCompletion\<close> the workload stays COMPLETED, and every request and every
  completion of a cancellation is rejected without an effect. After an allowed
  \<open>completeCancellation\<close> it stays CANCELLED, and \<open>commitCompletion\<close> and
  \<open>finalize\<close> are rejected without an effect. A mere request decides the race only under
  CANCEL_FIRST, where every later \<open>commitCompletion\<close> is rejected; under COMPLETION_FIRST a
  completion that may commit from the state reached still does.
\<close>

theorem cancel_complete_race:
  "(fst (commitCompletion e w) = Outcome.ALLOW \<longrightarrow>
      (let v = run_calls cs (snd (commitCompletion e w)) in
       wl_state v = WorkloadState.COMPLETED \<and>
       snd (requestCancellationWorkloadScope e' v) = v \<and> fst (requestCancellationWorkloadScope e' v) \<noteq> Outcome.ALLOW \<and>
       snd (completeCancellation e' v) = v \<and> fst (completeCancellation e' v) \<noteq> Outcome.ALLOW)) \<and>
   (fst (completeCancellation e w) = Outcome.ALLOW \<longrightarrow>
      (let v = run_calls cs (snd (completeCancellation e w)) in
       wl_state v = WorkloadState.CANCELLED \<and>
       snd (commitCompletion e' v) = v \<and> fst (commitCompletion e' v) \<noteq> Outcome.ALLOW \<and>
       snd (finalize e' v) = v \<and> fst (finalize e' v) \<noteq> Outcome.ALLOW)) \<and>
   (fst (requestCancellationWorkloadScope e w) = Outcome.ALLOW \<longrightarrow>
      (let v = snd (requestCancellationWorkloadScope e w) in
       if po_cancelRace (wl_policy w) = CancelRaceSemantics.CANCEL_FIRST
       then snd (commitCompletion e' (run_calls cs v)) = run_calls cs v \<and>
            fst (commitCompletion e' (run_calls cs v)) \<noteq> Outcome.ALLOW
       else fst (commitCompletion e v) = Outcome.ALLOW \<longleftrightarrow> completable v \<and> completion_criterion v))"
proof (intro conjI impI)
  assume "fst (commitCompletion e w) = Outcome.ALLOW"
  then have "wl_state (run_calls cs (snd (commitCompletion e w))) = WorkloadState.COMPLETED"
    using commitCompletion_effect [of e w] terminal_stays by simp
  then show "let v = run_calls cs (snd (commitCompletion e w)) in
       wl_state v = WorkloadState.COMPLETED \<and>
       snd (requestCancellationWorkloadScope e' v) = v \<and> fst (requestCancellationWorkloadScope e' v) \<noteq> Outcome.ALLOW \<and>
       snd (completeCancellation e' v) = v \<and> fst (completeCancellation e' v) \<noteq> Outcome.ALLOW"
    using completed_rejects_cancellation unfolding Let_def by blast
next
  assume "fst (completeCancellation e w) = Outcome.ALLOW"
  then have s: "wl_state (run_calls cs (snd (completeCancellation e w))) = WorkloadState.CANCELLED"
    using completeCancellation_effect [of e w] terminal_stays by simp
  then have "isTerminal (wl_state (run_calls cs (snd (completeCancellation e w))))" by simp
  with s show "let v = run_calls cs (snd (completeCancellation e w)) in
       wl_state v = WorkloadState.CANCELLED \<and>
       snd (commitCompletion e' v) = v \<and> fst (commitCompletion e' v) \<noteq> Outcome.ALLOW \<and>
       snd (finalize e' v) = v \<and> fst (finalize e' v) \<noteq> Outcome.ALLOW"
    using terminal_rejects_completion unfolding Let_def by blast
next
  let ?v = "snd (requestCancellationWorkloadScope e w)"
  assume *: "fst (requestCancellationWorkloadScope e w) = Outcome.ALLOW"
  note eff = requestCancellation_effect [OF *]
  have g: "e = wl_generation w" using * by (simp add: requestCancellation_fst)
  have first: "snd (commitCompletion e' (run_calls cs ?v)) = run_calls cs ?v \<and>
      fst (commitCompletion e' (run_calls cs ?v)) \<noteq> Outcome.ALLOW"
    if "po_cancelRace (wl_policy w) = CancelRaceSemantics.CANCEL_FIRST"
    using that eff by (intro cancel_first_no_completion cancel_first_runs) (simp add: cancel_first_requested_def)
  have "fst (commitCompletion e ?v) = Outcome.ALLOW \<longleftrightarrow> completable ?v \<and> completion_criterion ?v"
    if "po_cancelRace (wl_policy w) \<noteq> CancelRaceSemantics.CANCEL_FIRST"
    using that g eff by (simp add: commitCompletion_fst)
  with first show "let v = ?v in
       if po_cancelRace (wl_policy w) = CancelRaceSemantics.CANCEL_FIRST
       then snd (commitCompletion e' (run_calls cs v)) = run_calls cs v \<and>
            fst (commitCompletion e' (run_calls cs v)) \<noteq> Outcome.ALLOW
       else fst (commitCompletion e v) = Outcome.ALLOW \<longleftrightarrow> completable v \<and> completion_criterion v"
    by (simp add: Let_def)
qed

theorem cancel_complete_race_witness:
  "wl_state (run_calls [RequestMigration (UniqueValue 2)] sample_completed) = WorkloadState.COMPLETED \<and>
   wl_state (run_calls [Settle (UniqueValue 2)] (snd (completeCancellation (UniqueValue 2) sample_running)))
     = WorkloadState.CANCELLED \<and>
   (let w = sample_running\<lparr>wl_policy := sample_policy\<lparr>po_cancelRace := CancelRaceSemantics.CANCEL_FIRST\<rparr>\<rparr>
    in fst (commitCompletion (UniqueValue 2) (run_calls [MarkEpisodeCompleted (UniqueValue 1000)]
         (snd (requestCancellationWorkloadScope (UniqueValue 2) w)))) \<noteq> Outcome.ALLOW)"
proof -
  let ?v = "snd (markEpisodeCompleted (UniqueValue 1000) sample_running)"
  let ?w = "sample_running\<lparr>wl_policy := sample_policy\<lparr>po_cancelRace := CancelRaceSemantics.CANCEL_FIRST\<rparr>\<rparr>"
  have a: "fst (commitCompletion (UniqueValue 2) ?v) = Outcome.ALLOW" by code_simp
  have b: "fst (completeCancellation (UniqueValue 2) sample_running) = Outcome.ALLOW" by code_simp
  have c: "fst (requestCancellationWorkloadScope (UniqueValue 2) ?w) = Outcome.ALLOW" by code_simp
  have completed: "snd (commitCompletion (UniqueValue 2) ?v) = sample_completed"
    by (simp add: sample_completed_def sample_complete_def)
  have first: "po_cancelRace (wl_policy ?w) = CancelRaceSemantics.CANCEL_FIRST" by simp
  show ?thesis
    using cancel_complete_race [of "UniqueValue 2" ?v "[RequestMigration (UniqueValue 2)]"]
      cancel_complete_race [of "UniqueValue 2" sample_running "[Settle (UniqueValue 2)]"]
      cancel_complete_race [of "UniqueValue 2" ?w "[MarkEpisodeCompleted (UniqueValue 1000)]" "UniqueValue 2"]
      a b c first
    unfolding completed Let_def by (simp only: if_True simp_thms)
qed

text \<open>
  Completing a cancellation is allowed exactly for the current
  generation when the workload is CANCELLED already, or is in CANCELLATION_REQUESTED or a state
  with an edge to it; the workload is then CANCELLED with the cancellation final. From
  CANCELLING, which has no edge back to CANCELLATION_REQUESTED, it is rejected, although the
  table does lead from there to CANCELLED.
\<close>

theorem completeCancellation_spec:
  "let r = completeCancellation e w in
     (fst r = Outcome.ALLOW \<longleftrightarrow>
        e = wl_generation w \<and>
        (wl_state w = WorkloadState.CANCELLED \<or> wl_state w = WorkloadState.CANCELLATION_REQUESTED \<or>
         canTransition (wl_state w) WorkloadState.CANCELLATION_REQUESTED)) \<and>
     (fst r = Outcome.ALLOW \<longrightarrow> wl_state (snd r) = WorkloadState.CANCELLED \<and> wl_cancelledFinal (snd r)) \<and>
     (wl_state w = WorkloadState.CANCELLING \<longrightarrow> fst r \<noteq> Outcome.ALLOW)"
proof -
  have edge: "\<not> isTerminal s" if "canTransition s WorkloadState.CANCELLATION_REQUESTED" for s
    using that terminal_no_successor by blast
  show ?thesis
    by (auto simp: Let_def completeCancellation_def isAllow_def guardedTransition_allow_iff
        guardedTransition_state edge canTransition_to_CANCELLATION_REQUESTED)
qed

theorem completeCancellation_spec_witness:
  "wl_state (snd (completeCancellation (UniqueValue 2) sample_running)) = WorkloadState.CANCELLED"
proof -
  have "fst (completeCancellation (UniqueValue 2) sample_running) = Outcome.ALLOW" by code_simp
  with completeCancellation_spec [of "UniqueValue 2" sample_running] show ?thesis
    unfolding Let_def by blast
qed

section \<open>Restart and loss of a worker\<close>

definition restart_permitted :: "Workload \<Rightarrow> string \<Rightarrow> bool" where
  "restart_permitted w reason \<longleftrightarrow>
     restart_class_allowed (rp_kind (po_restart (wl_policy w))) reason \<and>
     restartAllowed (wl_restartCount w) (rp_maxRestarts (po_restart (wl_policy w)))"

lemma currentEpisode_restart [simp]:
  "currentEpisode (w\<lparr>wl_restartCount := n, wl_restartGen := g, wl_lastRestartReason := s\<rparr>) = currentEpisode w"
  by (simp add: currentEpisode_def split: option.split)

text \<open>
  C32. A restart is planned exactly for the current generation, when the reason is
  in the class the policy's restart kind admits, fewer than \<open>maxRestarts\<close> restarts have been
  planned, and the workload is RESTART_PENDING or has an edge to it. As soon as the policy
  permits it the restart is counted, its generation advanced and its reason kept, also when the
  transition table then rejects it; in every other case nothing changes.
\<close>

theorem planRestart_spec:
  "let r = planRestart e reason w;
       counted = (e = wl_generation w \<and> \<not> isTerminal (wl_state w) \<and> restart_permitted w reason) in
     (fst r = Outcome.ALLOW \<longleftrightarrow> counted \<and>
        (wl_state w = WorkloadState.RESTART_PENDING \<or> canTransition (wl_state w) WorkloadState.RESTART_PENDING)) \<and>
     (fst r = Outcome.ALLOW \<longrightarrow> wl_state (snd r) = WorkloadState.RESTART_PENDING) \<and>
     (if counted
      then wl_restartCount (snd r) = wl_restartCount w + 1 \<and>
           wl_restartGen (snd r) = next_gen (wl_restartGen w) \<and>
           wl_lastRestartReason (snd r) = reason \<and>
           wl_lastSourceEpisode (snd r) =
             (case currentEpisode w of None \<Rightarrow> wl_lastSourceEpisode w
              | Some k \<Rightarrow> ep_id (wl_episodes w ! k))
      else snd r = w)"
  by (auto simp: Let_def planRestart_def restart_permitted_def guardedTransition_allow_iff
      guardedTransition_state split: option.split)

theorem planRestart_spec_witness:
  "let w = snd (onWorkerLost (UniqueValue 5) (UniqueValue 50) (UniqueValue 2) sample_running)
   in wl_state (snd (planRestart (UniqueValue 2) ''WORKER_LOSS'' w)) = WorkloadState.RESTART_PENDING"
proof -
  let ?w = "snd (onWorkerLost (UniqueValue 5) (UniqueValue 50) (UniqueValue 2) sample_running)"
  have "fst (planRestart (UniqueValue 2) ''WORKER_LOSS'' ?w) = Outcome.ALLOW" by code_simp
  with planRestart_spec [of "UniqueValue 2" "''WORKER_LOSS''" ?w] show ?thesis unfolding Let_def by blast
qed

text \<open>
  C34. The loss of a worker is accepted exactly for the current generation and
  when both the worker and its boot are those recorded for the current episode, so that a report
  about an earlier boot is rejected without an effect. It marks that episode LOST, leaves every
  other episode, the progress and the generation alone, and takes a RUNNING or DEGRADED
  workload to RECOVERING.
\<close>

theorem onWorkerLost_spec:
  "let r = onWorkerLost wk b e w in
     (fst r = Outcome.ALLOW \<longleftrightarrow> e = wl_generation w \<and>
        (\<exists>k. currentEpisode w = Some k \<and> ep_worker (wl_episodes w ! k) = wk \<and> ep_boot (wl_episodes w ! k) = b)) \<and>
     (if fst r = Outcome.ALLOW
      then wl_episodes (snd r) =
             (wl_episodes w)[the (currentEpisode w) := (wl_episodes w ! the (currentEpisode w))
                \<lparr>ep_workerLost := True, ep_state := EpisodeState.LOST\<rparr>] \<and>
           wl_state (snd r) = (if wl_state w = WorkloadState.RUNNING \<or> wl_state w = WorkloadState.DEGRADED
                               then WorkloadState.RECOVERING else wl_state w) \<and>
           wl_progress (snd r) = wl_progress w \<and> wl_generation (snd r) = wl_generation w
      else snd r = w)"
proof -
  have "canTransition WorkloadState.RUNNING WorkloadState.RECOVERING"
    "canTransition WorkloadState.DEGRADED WorkloadState.RECOVERING"
    by (simp_all add: canTransition_iff)
  then show ?thesis
    by (auto simp: Let_def onWorkerLost_def guardedTransition_allow_iff guardedTransition_state
        update_episode_def split: option.split)
qed

section \<open>Suspension and migration\<close>

lemma update_episode_frame [simp]:
  "wl_generation (update_episode k f w) = wl_generation w"
  "(\<And>e. ep_id (f e) = ep_id e) \<Longrightarrow> map ep_id (wl_episodes (update_episode k f w)) = map ep_id (wl_episodes w)"
  by (simp_all add: update_episode_def map_list_update_same)

text \<open>
  Under a policy that allows suspension, a RUNNING or DEGRADED workload
  can be suspended and resumed: the request, its completion and the resume are all allowed in the
  same generation, the workload passes through SUSPEND_REQUESTED and SUSPENDED to READY, and its
  progress and the number and identity of its episodes are kept.
\<close>

theorem suspend_resume_cycle:
  assumes "sp_allowed (po_suspension (wl_policy w))"
    and "wl_state w = WorkloadState.RUNNING \<or> wl_state w = WorkloadState.DEGRADED"
  shows "let g = wl_generation w; a = requestSuspend g w; b = completeSuspend g (snd a);
             c = requestResume g (snd b) in
    fst a = Outcome.ALLOW \<and> wl_state (snd a) = WorkloadState.SUSPEND_REQUESTED \<and>
    fst b = Outcome.ALLOW \<and> wl_state (snd b) = WorkloadState.SUSPENDED \<and>
    fst c = Outcome.ALLOW \<and> wl_state (snd c) = WorkloadState.READY \<and>
    wl_generation (snd c) = g \<and> wl_progress (snd c) = wl_progress w \<and>
    map ep_id (wl_episodes (snd c)) = map ep_id (wl_episodes w)"
proof -
  have suspend: "fst (requestSuspend (wl_generation w) w) = Outcome.ALLOW \<and>
      wl_state (snd (requestSuspend (wl_generation w) w)) = WorkloadState.SUSPEND_REQUESTED \<and>
      wl_generation (snd (requestSuspend (wl_generation w) w)) = wl_generation w \<and>
      wl_progress (snd (requestSuspend (wl_generation w) w)) = wl_progress w \<and>
      wl_episodes (snd (requestSuspend (wl_generation w) w)) = wl_episodes w"
    using assms by (auto simp: requestSuspend_def isActivelyRunning_def guardedTransition_allow_iff
        guardedTransition_state canTransition_iff)
  have complete: "fst (completeSuspend (wl_generation v) v) = Outcome.ALLOW \<and>
      wl_state (snd (completeSuspend (wl_generation v) v)) = WorkloadState.SUSPENDED \<and>
      wl_generation (snd (completeSuspend (wl_generation v) v)) = wl_generation v \<and>
      wl_progress (snd (completeSuspend (wl_generation v) v)) = wl_progress v \<and>
      map ep_id (wl_episodes (snd (completeSuspend (wl_generation v) v))) = map ep_id (wl_episodes v)"
    if "wl_state v = WorkloadState.SUSPEND_REQUESTED" for v
    using that by (auto simp: completeSuspend_def Let_def isAllow_def guardedTransition_allow_iff
        guardedTransition_state split: option.split)
  have resume: "fst (requestResume (wl_generation v) v) = Outcome.ALLOW \<and>
      wl_state (snd (requestResume (wl_generation v) v)) = WorkloadState.READY \<and>
      wl_generation (snd (requestResume (wl_generation v) v)) = wl_generation v \<and>
      wl_progress (snd (requestResume (wl_generation v) v)) = wl_progress v \<and>
      wl_episodes (snd (requestResume (wl_generation v) v)) = wl_episodes v"
    if "wl_state v = WorkloadState.SUSPENDED" for v
    using that by (simp add: requestResume_def guardedTransition_allow_iff guardedTransition_state
        canTransition_to_READY)
  show ?thesis
    unfolding Let_def
    using suspend complete [of "snd (requestSuspend (wl_generation w) w)"]
      resume [of "snd (completeSuspend (wl_generation w) (snd (requestSuspend (wl_generation w) w)))"]
    by simp
qed

theorem suspend_resume_cycle_witness:
  "fst (requestResume (UniqueValue 2) (snd (completeSuspend (UniqueValue 2)
     (snd (requestSuspend (UniqueValue 2) sample_running))))) = Outcome.ALLOW"
proof -
  have g: "wl_generation sample_running = UniqueValue 2" by code_simp
  have "sp_allowed (po_suspension (wl_policy sample_running))"
    "wl_state sample_running = WorkloadState.RUNNING \<or> wl_state sample_running = WorkloadState.DEGRADED"
    by code_simp+
  from suspend_resume_cycle [OF this] show ?thesis by (simp add: Let_def g)
qed

definition migrated_episode :: "WorkerId \<Rightarrow> WorkerBootId \<Rightarrow> Workload \<Rightarrow> Episode" where
  "migrated_episode wk b w = default_episode\<lparr>ep_id := UniqueValue (wl_episodeCounterForMigration w),
     ep_generation := UniqueValue 1, ep_state := EpisodeState.RUNNING, ep_worker := wk, ep_boot := b,
     ep_owner := wl_owner w, ep_ownerGeneration := wl_ownerGeneration w, ep_intent := wl_intent w,
     ep_progress := wl_progress w\<rparr>"

text \<open>
  C35. A migration commits exactly for the current generation from
  MIGRATION_PENDING or MIGRATING, and its inner transitions then never fail. The workload is
  RUNNING in the next generation, every earlier episode has lost its authority, and one new
  episode on the target worker and boot carries the authority and the workload's progress, under
  the next identity of the migration counter.
\<close>

theorem commitMigration_spec:
  "let r = commitMigration e wk b w in
     (fst r = Outcome.ALLOW \<longleftrightarrow> e = wl_generation w \<and>
        (wl_state w = WorkloadState.MIGRATION_PENDING \<or> wl_state w = WorkloadState.MIGRATING)) \<and>
     (if fst r = Outcome.ALLOW
      then wl_state (snd r) = WorkloadState.RUNNING \<and>
           wl_generation (snd r) = next_gen (wl_generation w) \<and>
           wl_episodes (snd r) = map (\<lambda>x. x\<lparr>ep_authoritative := False\<rparr>) (wl_episodes w) @ [migrated_episode wk b w] \<and>
           authorities (wl_episodes (snd r)) = 1 \<and>
           wl_progress (snd r) = wl_progress w \<and>
           wl_episodeCounterForMigration (snd r) = wl_episodeCounterForMigration w + 1
      else snd r = w)"
  by (auto simp: Let_def commitMigration_def isAllow_def guardedTransition_allow_iff
      guardedTransition_state append_authoritative_def migrated_episode_def fromU64_def
      authorities_def filter_map comp_def default_episode_def)

section \<open>Behaviours a client has to know of\<close>

text \<open>
  The restart policy guards \<open>planRestart\<close> only: after the
  loss of its worker a RUNNING or DEGRADED workload is RECOVERING, and a new episode may be
  started from there at once under every policy, NEVER and an exhausted limit included, without
  the restart being counted.
\<close>

theorem recovery_bypasses_restart_policy:
  assumes "fst (onWorkerLost wk b e w) = Outcome.ALLOW"
    and "wl_state w = WorkloadState.RUNNING \<or> wl_state w = WorkloadState.DEGRADED"
    and "\<not> wl_cancelledFinal w"
  shows "let r = startEpisode i ow og adv (snd (onWorkerLost wk b e w)) in
    fst r = Outcome.ALLOW \<and> wl_restartCount (snd r) = wl_restartCount w \<and>
    wl_state (snd r) = WorkloadState.STARTING"
proof -
  let ?v = "snd (onWorkerLost wk b e w)"
  have "wl_state ?v = WorkloadState.RECOVERING" "wl_restartCount ?v = wl_restartCount w" "\<not> wl_cancelledFinal ?v"
    using assms by (auto simp: onWorkerLost_def Let_def guardedTransition_state update_episode_def
        split: option.splits if_splits)
  then show ?thesis
    by (simp add: Let_def startEpisode_allowed resumeEligible_def)
qed

theorem recovery_bypasses_restart_policy_witness:
  "let w = sample_running\<lparr>wl_policy := default_policy\<rparr>;
       r = startEpisode (UniqueValue 1001) (UniqueValue 1) (UniqueValue 1) True
             (snd (onWorkerLost (UniqueValue 5) (UniqueValue 50) (UniqueValue 2) w))
   in fst r = Outcome.ALLOW \<and> wl_restartCount (snd r) = wl_restartCount w \<and>
      wl_state (snd r) = WorkloadState.STARTING"
proof -
  let ?w = "sample_running\<lparr>wl_policy := default_policy\<rparr>"
  have "fst (onWorkerLost (UniqueValue 5) (UniqueValue 50) (UniqueValue 2) ?w) = Outcome.ALLOW"
    "wl_state ?w = WorkloadState.RUNNING \<or> wl_state ?w = WorkloadState.DEGRADED" "\<not> wl_cancelledFinal ?w"
    by code_simp+
  from recovery_bypasses_restart_policy [OF this] show ?thesis by (simp add: Let_def)
qed

text \<open>
  An episode whose worker was lost keeps its authority until another
  episode is started: its progress reports are still accepted while the workload is RECOVERING,
  within the known total and the range of the counter.
\<close>

theorem lost_episode_still_reports:
  assumes "fst (onWorkerLost wk b e w) = Outcome.ALLOW"
    and "currentEpisode w = Some k" and "episode_index i w = Some k"
    and "ep_authoritative (wl_episodes w ! k)"
    and "wl_state w = WorkloadState.RUNNING" and "\<not> wl_cancelledFinal w"
    and "pg_totalKind (wl_progress w) = TotalKind.UNKNOWN"
    and "unat (pg_completed (wl_progress w)) + unat d < 2 ^ 64"
  shows "fst (reportProgress i (ep_generation (wl_episodes w ! k)) d dur (snd (onWorkerLost wk b e w))) = Outcome.ALLOW"
proof -
  let ?v = "snd (onWorkerLost wk b e w)"
  let ?f = "\<lambda>x. x\<lparr>ep_workerLost := True, ep_state := EpisodeState.LOST\<rparr>"
  have k: "k < length (wl_episodes w)"
    using assms(3) find_index_less by (auto simp: episode_index_def)
  have v: "wl_state ?v = WorkloadState.RECOVERING" "\<not> wl_cancelledFinal ?v"
    "wl_progress ?v = wl_progress w" "wl_episodes ?v = (wl_episodes w)[k := ?f (wl_episodes w ! k)]"
    using assms by (auto simp: onWorkerLost_def Let_def guardedTransition_state update_episode_def
        split: if_splits)
  have "episode_index i ?v = Some k"
    using op_onWorkerLost.episodes assms(3) by (rule episode_index_extend)
  moreover have "fst (advance d dur (wl_progress w))"
    using advance_fails_iff [of d dur "wl_progress w"] assms(8) by auto
  ultimately show ?thesis
    using v k assms(4,7) by (simp add: reportProgress_def Let_def isCancelling_def)
qed

theorem lost_episode_still_reports_witness:
  "fst (reportProgress (UniqueValue 1000) (ep_generation (wl_episodes sample_running ! 0)) 5 True
     (snd (onWorkerLost (UniqueValue 5) (UniqueValue 50) (UniqueValue 2)
        (sample_running\<lparr>wl_progress := default_progress\<rparr>)))) = Outcome.ALLOW"
proof -
  let ?w = "sample_running\<lparr>wl_progress := default_progress\<rparr>"
  have "fst (onWorkerLost (UniqueValue 5) (UniqueValue 50) (UniqueValue 2) ?w) = Outcome.ALLOW"
    "currentEpisode ?w = Some 0" "episode_index (UniqueValue 1000) ?w = Some 0"
    "ep_authoritative (wl_episodes ?w ! 0)" "wl_state ?w = WorkloadState.RUNNING"
    "\<not> wl_cancelledFinal ?w" "pg_totalKind (wl_progress ?w) = TotalKind.UNKNOWN"
    by code_simp+
  from lost_episode_still_reports [OF this, of 5 True] show ?thesis
    by (simp add: default_progress_def)
qed

text \<open>
  Cancelling a workload that has not started any work is
  rejected as an invalid transition, although the table has an edge from each of those states to
  CANCELLED; the rejected call still makes the cancellation final, so that the workload stays in
  its state and never starts an episode again.
\<close>

theorem rejected_cancellation_is_final:
  assumes "pre_execution (wl_state w)"
  shows "let r = completeCancellation (wl_generation w) w in
    canTransition (wl_state w) WorkloadState.CANCELLED \<and>
    fst r = Outcome.REJECT_INVALID_TRANSITION \<and> wl_state (snd r) = wl_state w \<and>
    fst (startEpisode i ow og adv (run_calls cs (snd r))) = Outcome.REJECT_CANCELLED"
proof -
  let ?r = "completeCancellation (wl_generation w) w"
  have s: "canTransition (wl_state w) WorkloadState.CANCELLED" "\<not> isTerminal (wl_state w)"
    "\<not> canTransition (wl_state w) WorkloadState.CANCELLATION_REQUESTED"
    "wl_state w \<noteq> WorkloadState.CANCELLED" "wl_state w \<noteq> WorkloadState.CANCELLATION_REQUESTED"
    using assms by (auto simp: pre_execution_def canTransition_iff)
  then have r: "fst ?r = Outcome.REJECT_INVALID_TRANSITION" "wl_state (snd ?r) = wl_state w"
    "wl_cancelledFinal (snd ?r)"
    using guardedTransition_no_edge [of
        "w\<lparr>wl_cancelledFinal := True, wl_cancellationRequested := True\<rparr>"
        WorkloadState.CANCELLATION_REQUESTED "''cancelling''"]
    by (simp_all add: completeCancellation_def Let_def isAllow_def)
  have "wl_cancelledFinal (run_calls cs (snd ?r))"
    using r(3) by (rule cancelledFinal_runs)
  with s(1) r show ?thesis by (simp add: Let_def startEpisode_def)
qed

theorem rejected_cancellation_is_final_witness:
  "fst (startEpisode (UniqueValue 1) (UniqueValue 1) (UniqueValue 1) True
     (run_calls [Settle (UniqueValue 1)] (snd (completeCancellation (wl_generation sample_ready) sample_ready))))
   = Outcome.REJECT_CANCELLED"
proof -
  have "pre_execution (wl_state sample_ready)" by code_simp
  from rejected_cancellation_is_final [OF this] show ?thesis unfolding Let_def by blast
qed

text \<open>
  FAILED_RECOVERABLE is no terminal state for the code, but
  the transition table has no edge out of it: no sequence of calls, restarts included, moves a
  workload that has reached it.
\<close>

theorem failed_recoverable_is_a_dead_end:
  assumes "wl_state w = WorkloadState.FAILED_RECOVERABLE"
  shows "\<not> isTerminal (wl_state w) \<and> wl_state (run_calls cs w) = WorkloadState.FAILED_RECOVERABLE"
proof -
  have stuck: "t = WorkloadState.FAILED_RECOVERABLE"
    if "lifecycle_path s t" "s = WorkloadState.FAILED_RECOVERABLE" for s t
    using that by (induction rule: lifecycle_path.induct) (simp_all add: canTransition_iff)
  have "lifecycle_path (wl_state w) (wl_state (run_calls cs w))"
    using run_calls_audited [of w cs] replays_path by (auto simp: audited_def)
  with assms stuck show ?thesis by simp
qed

theorem failed_recoverable_is_a_dead_end_witness:
  "wl_state (run_calls [PlanRestart (UniqueValue 2) ''KNOWN_FAILURE'',
       Transition WorkloadState.RESTART_PENDING (UniqueValue 2) ''retry'']
     (snd (transition WorkloadState.FAILED_RECOVERABLE (UniqueValue 2) ''crash'' sample_running)))
   = WorkloadState.FAILED_RECOVERABLE"
proof -
  have "wl_state (snd (transition WorkloadState.FAILED_RECOVERABLE (UniqueValue 2) ''crash'' sample_running))
     = WorkloadState.FAILED_RECOVERABLE" by code_simp
  from failed_recoverable_is_a_dead_end [OF this] show ?thesis by blast
qed

end
