(* ===== verification/Text.thy ===== *)
theory Text
  imports Prelude
begin

text \<open>
  Decimal text of the standard library as the code uses it: \<open>std::to_string\<close> of an unsigned
  integer and \<open>std::stoull\<close> with base 10.
\<close>

section \<open>Printing\<close>

definition digit :: "nat \<Rightarrow> char" where
  "digit d = char_of (48 + d)"

fun decimal :: "nat \<Rightarrow> string" where
  "decimal n = (if n < 10 then [digit n] else decimal (n div 10) @ [digit (n mod 10)])"

declare decimal.simps [simp del]

definition to_string :: "'w::len word \<Rightarrow> string" where
  "to_string x = decimal (unat x)"

section \<open>Parsing\<close>

definition is_space :: "char \<Rightarrow> bool" where
  "is_space c \<longleftrightarrow> c \<in> {CHR 0x20, CHR 0x09, CHR 0x0A, CHR 0x0B, CHR 0x0C, CHR 0x0D}"

definition is_digit :: "char \<Rightarrow> bool" where
  "is_digit c \<longleftrightarrow> 48 \<le> (of_char c :: nat) \<and> (of_char c :: nat) \<le> 57"

definition digit_value :: "char \<Rightarrow> nat" where
  "digit_value c = of_char c - 48"

definition horner :: "string \<Rightarrow> int" where
  "horner s = foldl (\<lambda>n c. n * 10 + int (digit_value c)) 0 s"

text \<open>
  Leading white space and one sign are skipped, then the longest run of digits is converted; what
  follows it is ignored. No digits and a value beyond 64 bits are exceptions (\<open>None\<close>); a minus
  sign negates the value modulo \<open>2^64\<close>.
\<close>

definition stoull :: "string \<Rightarrow> u64 option" where
  "stoull s =
     (let t = dropWhile is_space s;
          negative = (t \<noteq> [] \<and> hd t = CHR ''-'');
          u = (if t \<noteq> [] \<and> (hd t = CHR ''-'' \<or> hd t = CHR ''+'') then tl t else t);
          ds = takeWhile is_digit u;
          v = horner ds
      in if ds = [] then None
         else if v \<ge> 2 ^ 64 then None
         else Some (if negative then - word_of_int v else word_of_int v))"

section \<open>Round trip\<close>

lemma digit_table:
  "list_all (\<lambda>d. is_digit (digit d) \<and> digit_value (digit d) = d \<and> \<not> is_space (digit d) \<and>
     digit d \<noteq> CHR ''-'' \<and> digit d \<noteq> CHR ''+'' \<and> digit d \<noteq> CHR '':'') [0..<10]"
  by code_simp

lemma digit_facts:
  assumes "d < 10"
  shows "is_digit (digit d)" "digit_value (digit d) = d" "\<not> is_space (digit d)"
    "digit d \<noteq> CHR ''-''" "digit d \<noteq> CHR ''+''" "digit d \<noteq> CHR '':''"
  using digit_table assms by (auto simp: list_all_iff)

lemma decimal_digits: "c \<in> set (decimal n) \<Longrightarrow> \<exists>d<10. c = digit d"
proof (induction n rule: decimal.induct)
  case (1 n)
  then show ?case
    by (subst (asm) decimal.simps) (auto split: if_splits intro: exI [of _ "n mod 10"])
qed

lemma decimal_nonempty [simp]: "decimal n \<noteq> []"
  by (subst decimal.simps) simp

lemma horner_decimal [simp]: "horner (decimal n) = int n"
proof (induction n rule: decimal.induct)
  case (1 n)
  show ?case
  proof (cases "n < 10")
    case True
    then show ?thesis by (subst decimal.simps) (simp add: horner_def digit_facts)
  next
    case False
    then have "horner (decimal (n div 10)) = int (n div 10)" by (rule 1)
    moreover have "int (n div 10) * 10 + int (n mod 10) = int n"
      by (metis div_mult_mod_eq of_nat_add of_nat_mult of_nat_numeral)
    ultimately show ?thesis
      using False by (subst decimal.simps) (simp add: horner_def digit_facts del: of_nat_mod of_nat_div)
  qed
qed

lemma decimal_inject: "decimal m = decimal n \<longleftrightarrow> m = n"
  by (metis horner_decimal of_nat_eq_iff)

lemma decimal_head: "decimal n = c # cs \<Longrightarrow> \<not> is_space c \<and> c \<noteq> CHR ''-'' \<and> c \<noteq> CHR ''+''"
  using decimal_digits [of c n] digit_facts by auto

lemma decimal_no_colon: "CHR '':'' \<notin> set (decimal n)"
  using decimal_digits [of "CHR '':''" n] digit_facts by fastforce

lemma stoull_decimal:
  assumes "n < 2 ^ 64" and "s = [] \<or> \<not> is_digit (hd s)"
  shows "stoull (decimal n @ s) = Some (word_of_nat n)"
proof -
  obtain c cs where d: "decimal n = c # cs" by (cases "decimal n") simp_all
  have "takeWhile is_digit (decimal n @ s) = decimal n"
    using assms(2) decimal_digits digit_facts(1)
    by (cases s) (auto simp: takeWhile_append takeWhile_eq_all_conv)
  moreover have "int n < 2 ^ 64" using assms(1) by (simp add: nat_less_iff zless_nat_eq_int_zless)
  ultimately show ?thesis
    using decimal_head [OF d] by (simp add: stoull_def Let_def d) (simp add: d [symmetric])
qed

lemma stoull_to_string: "stoull (to_string (x :: u64)) = Some x"
  using stoull_decimal [of "unat x" "[]"] unsigned_less [of x, where 'a = nat] by (simp add: to_string_def)

end
