(* ===== verification/Explain.thy ===== *)
theory Explain
  imports Text Workload_Operations
begin

text \<open>
  Deterministic explanations (\<open>explain.hpp\<close>, \<open>explain.cpp\<close> and the \<open>explain*\<close>
  queries of \<open>workload.cpp\<close>), and how they relate to what the operations they explain decide.
\<close>

record Explanation =
  ex_outcome :: Outcome
  ex_from :: WorkloadState
  ex_to :: WorkloadState
  ex_workloadGeneration :: WorkloadGeneration
  ex_detail :: string

definition default_explanation :: Explanation where
  "default_explanation = \<lparr>ex_outcome = Outcome.UNKNOWN, ex_from = WorkloadState.CREATED,
     ex_to = WorkloadState.CREATED, ex_workloadGeneration = no_value, ex_detail = []\<rparr>"

definition explainToString :: "Explanation \<Rightarrow> string" where
  "explainToString e =
     (let s = outcomeName (ex_outcome e) @ '' state='' @ workloadStateName (ex_from e);
          s = s @ '' -> '' @ workloadStateName (ex_to e);
          s = (if valid (ex_workloadGeneration e)
               then s @ '' wgen='' @ to_string (toU64 (ex_workloadGeneration e)) else s)
      in if ex_detail e \<noteq> [] then s @ '' '' @ ex_detail e else s)"

definition explainBlocked :: "Workload \<Rightarrow> Explanation" where
  "explainBlocked w =
     (if \<not> deps_ready (wl_deps w) then
        default_explanation\<lparr>ex_outcome := Outcome.BLOCKED_DEPENDENCY, ex_from := wl_state w,
          ex_detail := (case firstUnmetRequired (wl_deps w) of
             Some i \<Rightarrow> ''required dependency['' @ decimal i @ ''] not satisfied''
           | None \<Rightarrow> ''required dependencies not satisfied'')\<rparr>
      else if \<not> satisfied (wl_contract w) then
        default_explanation\<lparr>ex_outcome := Outcome.BLOCKED_RESOURCE_CONTRACT, ex_from := wl_state w,
          ex_detail := (case firstUnsatisfiedRequired (wl_contract w) of
             Some r \<Rightarrow> ''unmet resource '' @ resourceKindName (rr_kind r)
           | None \<Rightarrow> ''resource contract not satisfied'')\<rparr>
      else default_explanation\<lparr>ex_outcome := Outcome.ALLOW, ex_from := wl_state w,
             ex_detail := ''not blocked''\<rparr>)"

definition explainRestartAllowed :: "Workload \<Rightarrow> Explanation" where
  "explainRestartAllowed w =
     default_explanation\<lparr>ex_from := wl_state w,
       ex_outcome := (if \<not> restartAllowed (wl_restartCount w) (rp_maxRestarts (po_restart (wl_policy w)))
                      then Outcome.REJECT_RESTART_LIMIT else Outcome.ALLOW),
       ex_detail := ''count='' @ to_string (wl_restartCount w) @ '' max='' @
                    to_string (rp_maxRestarts (po_restart (wl_policy w)))\<rparr>"

definition explainMigrationAllowed :: "Workload \<Rightarrow> Explanation" where
  "explainMigrationAllowed w =
     (if mp_eligibility (po_migration (wl_policy w)) = MigrationEligibility.NONE
      then default_explanation\<lparr>ex_from := wl_state w, ex_outcome := Outcome.REJECT_MIGRATION_INELIGIBLE,
             ex_detail := ''eligibility=NONE''\<rparr>
      else default_explanation\<lparr>ex_from := wl_state w, ex_outcome := Outcome.ALLOW,
             ex_detail := ''eligibility='' @ migrationEligibilityName (mp_eligibility (po_migration (wl_policy w)))\<rparr>)"

text \<open>
  The explanation of why a workload is blocked names the very
  wait \<open>settle\<close> would put it in: dependencies before resources, and \<open>not blocked\<close> exactly
  when it belongs in READY. When a dependency blocks it, the detail names the first unmet required
  dependency by its index.
\<close>

theorem explainBlocked_agrees_with_settle:
  "(ex_outcome (explainBlocked w) = Outcome.BLOCKED_DEPENDENCY \<longleftrightarrow>
      settled_state w = WorkloadState.WAITING_FOR_DEPENDENCIES) \<and>
   (ex_outcome (explainBlocked w) = Outcome.BLOCKED_RESOURCE_CONTRACT \<longleftrightarrow>
      settled_state w = WorkloadState.WAITING_FOR_RESOURCES) \<and>
   (ex_outcome (explainBlocked w) = Outcome.ALLOW \<longleftrightarrow> settled_state w = WorkloadState.READY) \<and>
   (settled_state w = WorkloadState.WAITING_FOR_DEPENDENCIES \<longleftrightarrow>
      (\<exists>i. firstUnmetRequired (wl_deps w) = Some i \<and>
         ex_detail (explainBlocked w) = ''required dependency['' @ decimal i @ ''] not satisfied''))"
proof -
  have unmet: "deps_ready (wl_deps w) \<longleftrightarrow> firstUnmetRequired (wl_deps w) = None"
    by (simp add: firstUnmetRequired_def first_unmet_index_None deps_ready_def)
  show ?thesis
    by (auto simp: explainBlocked_def settled_state_def default_explanation_def unmet)
qed

text \<open>
  Every restart that can be planned is explained as allowed,
  but not the other way round: the explanation looks at the restart count only, so that under the
  kinds NEVER and MANUAL_ONLY it says ALLOW while \<open>planRestart\<close> rejects every reason.
\<close>

theorem explainRestartAllowed_ignores_kind:
  assumes "rp_kind (po_restart (wl_policy w)) = RestartKind.NEVER \<or>
      rp_kind (po_restart (wl_policy w)) = RestartKind.MANUAL_ONLY"
    and "wl_restartCount w < rp_maxRestarts (po_restart (wl_policy w))"
    and "\<not> isTerminal (wl_state w)"
  shows "ex_outcome (explainRestartAllowed w) = Outcome.ALLOW \<and>
    planRestart (wl_generation w) reason w = (Outcome.REJECT_RESTART_LIMIT, w)"
  using assms
  by (auto simp: explainRestartAllowed_def default_explanation_def planRestart_def Let_def
      restart_class_allowed_def restartAllowed_def)

theorem explainRestartAllowed_ignores_kind_witness:
  "let w = sample_ready\<lparr>wl_policy := default_policy\<lparr>po_restart :=
              (po_restart default_policy)\<lparr>rp_maxRestarts := 3\<rparr>\<rparr>\<rparr>
   in ex_outcome (explainRestartAllowed w) = Outcome.ALLOW \<and>
      planRestart (wl_generation w) ''WORKER_LOSS'' w = (Outcome.REJECT_RESTART_LIMIT, w)"
  unfolding Let_def
proof (rule explainRestartAllowed_ignores_kind)
  let ?w = "sample_ready\<lparr>wl_policy := default_policy\<lparr>po_restart :=
              (po_restart default_policy)\<lparr>rp_maxRestarts := 3\<rparr>\<rparr>\<rparr>"
  show "rp_kind (po_restart (wl_policy ?w)) = RestartKind.NEVER \<or>
      rp_kind (po_restart (wl_policy ?w)) = RestartKind.MANUAL_ONLY" by code_simp
  show "wl_restartCount ?w < rp_maxRestarts (po_restart (wl_policy ?w))" by code_simp
  show "\<not> isTerminal (wl_state ?w)" by code_simp
qed

end
