(* ===== verification/Explanations.thy ===== *)
theory Explanations
  imports Explain
begin

text \<open>
  The explanation an operation of the aggregate leaves behind: every operation of \<open>workload.cpp\<close>
  takes an optional \<open>Explanation*\<close>, and for each of them \<open>op_explain\<close> is what the object holds
  after the call if it held \<open>x\<close> before. The locale \<open>explained_operation\<close> is what a caller may
  rely on.
\<close>

section \<open>Transitions\<close>

definition guardedTransition_explain ::
  "WorkloadState \<Rightarrow> WorkloadGeneration \<Rightarrow> string \<Rightarrow> Workload \<Rightarrow> Explanation \<Rightarrow> Explanation" where
  "guardedTransition_explain to expecting reason w x =
     (if expecting \<noteq> wl_generation w then
        x\<lparr>ex_outcome := Outcome.REJECT_STALE_WORKLOAD_GENERATION, ex_from := wl_state w, ex_to := to,
          ex_workloadGeneration := wl_generation w,
          ex_detail := ''stale generation '' @ to_string (toU64 expecting) @ '' (current '' @
            to_string (toU64 (wl_generation w)) @ '')''\<rparr>
      else if wl_state w = to then
        x\<lparr>ex_outcome := Outcome.ALLOW, ex_from := wl_state w, ex_to := to, ex_workloadGeneration := wl_generation w\<rparr>
      else if isTerminal (wl_state w) then
        x\<lparr>ex_outcome := Outcome.REJECT_TERMINAL, ex_from := wl_state w, ex_to := to,
          ex_detail := ''terminal state '' @ workloadStateName (wl_state w) @ '' cannot reopen''\<rparr>
      else if \<not> canTransition (wl_state w) to then
        x\<lparr>ex_outcome := Outcome.REJECT_INVALID_TRANSITION, ex_from := wl_state w, ex_to := to,
          ex_workloadGeneration := wl_generation w,
          ex_detail := ''no edge '' @ workloadStateName (wl_state w) @ '' -> '' @ workloadStateName to\<rparr>
      else if to = WorkloadState.COMPLETED \<and> \<not> cp_allowZeroWorkCompletion (po_completion (wl_policy w)) \<and>
          (wl_state w = WorkloadState.CREATED \<or> wl_state w = WorkloadState.VALIDATING \<or>
           wl_state w = WorkloadState.BLOCKED \<or> wl_state w = WorkloadState.WAITING_FOR_DEPENDENCIES \<or>
           wl_state w = WorkloadState.WAITING_FOR_RESOURCES) then
        x\<lparr>ex_outcome := Outcome.REJECT_COMPLETION_POLICY, ex_from := wl_state w, ex_to := to,
          ex_detail := ''zero-work completion not allowed by policy''\<rparr>
      else
        x\<lparr>ex_outcome := Outcome.ALLOW, ex_from := wl_state w, ex_to := to,
          ex_workloadGeneration := wl_generation w, ex_detail := reason\<rparr>)"

text \<open>A transition always explains itself: its outcome and its target.\<close>

lemma guarded_explained [simp]:
  "ex_outcome (guardedTransition_explain t e r w x) = fst (guardedTransition t e r w)"
  "ex_to (guardedTransition_explain t e r w x) = t"
  by (auto simp: guardedTransition_explain_def guardedTransition_def Let_def)

text \<open>The state before the transition, whatever its outcome.\<close>

lemma guarded_explains_from: "ex_from (guardedTransition_explain t e r w x) = wl_state w"
  by (simp add: guardedTransition_explain_def)

section \<open>Operations\<close>

definition settle_explain :: "WorkloadGeneration \<Rightarrow> Workload \<Rightarrow> Explanation \<Rightarrow> Explanation" where
  "settle_explain expecting w x =
     (if expecting \<noteq> wl_generation w then x
      else
        let stopped = isTerminal (wl_state w) \<or> isCancelling (wl_state w);
            target = (if \<not> deps_ready (wl_deps w) then
                        (if stopped then None else Some WorkloadState.WAITING_FOR_DEPENDENCIES)
                      else if \<not> satisfied (wl_contract w) then
                        (if stopped then None else Some WorkloadState.WAITING_FOR_RESOURCES)
                      else Some WorkloadState.READY)
        in case target of
             None \<Rightarrow> x
           | Some t \<Rightarrow> if wl_state w = t then x else guardedTransition_explain t expecting ''settle'' w x)"

definition startEpisode_explain :: "Workload \<Rightarrow> Explanation \<Rightarrow> Explanation" where
  "startEpisode_explain w x =
     (if wl_cancelledFinal w \<or> isCancelling (wl_state w) then
        x\<lparr>ex_outcome := Outcome.REJECT_CANCELLED, ex_from := wl_state w,
          ex_detail := ''workload cancelled; no new episodes''\<rparr>
      else if isTerminal (wl_state w) then x
      else if \<not> resumeEligible (wl_state w) then
        x\<lparr>ex_outcome := Outcome.REJECT_EPISODE_INELIGIBLE, ex_from := wl_state w,
          ex_detail := ''cannot start episode from '' @ workloadStateName (wl_state w)\<rparr>
      else if wl_state w \<noteq> WorkloadState.READY then
        let pre = guardedTransition WorkloadState.READY (wl_generation w) ''resume eligible'' w;
            x1 = guardedTransition_explain WorkloadState.READY (wl_generation w) ''resume eligible'' w x
        in if \<not> isAllow (fst pre) then x1
           else guardedTransition_explain WorkloadState.STARTING (wl_generation (snd pre)) ''start episode'' (snd pre) x1
      else guardedTransition_explain WorkloadState.STARTING (wl_generation w) ''start episode'' w x)"

definition admitDispatch_explain ::
  "ExecutionEpisodeId \<Rightarrow> WorkerId \<Rightarrow> WorkerBootId \<Rightarrow> Workload \<Rightarrow> Explanation \<Rightarrow> Explanation" where
  "admitDispatch_explain episode worker boot w x =
     (case episode_index episode w of
        None \<Rightarrow> x
      | Some k \<Rightarrow>
          if ep_state (wl_episodes w ! k) \<noteq> EpisodeState.ADMITTED \<and>
             ep_state (wl_episodes w ! k) \<noteq> EpisodeState.PREEMPTED
          then x
          else
            let w1 = update_episode k (\<lambda>e. e\<lparr>ep_worker := worker, ep_boot := boot,
                       ep_state := EpisodeState.RUNNING\<rparr>) w
            in if wl_state w1 = WorkloadState.STARTING
               then guardedTransition_explain WorkloadState.RUNNING (wl_generation w1) ''dispatch'' w1 x
               else x)"

definition reportProgress_explain ::
  "ExecutionEpisodeId \<Rightarrow> ExecutionEpisodeGeneration \<Rightarrow> Workload \<Rightarrow> Explanation \<Rightarrow> Explanation" where
  "reportProgress_explain episode episodeGen w x =
     (case episode_index episode w of
        None \<Rightarrow> x
      | Some k \<Rightarrow>
          if episodeGen \<noteq> ep_generation (wl_episodes w ! k)
          then x\<lparr>ex_outcome := Outcome.REJECT_STALE_EPISODE, ex_detail := ''stale episode generation''\<rparr>
          else if \<not> ep_authoritative (wl_episodes w ! k)
          then x\<lparr>ex_outcome := Outcome.REJECT_EPISODE_INELIGIBLE, ex_detail := ''episode not authoritative''\<rparr>
          else x)"

definition commitCompletion_explain :: "WorkloadGeneration \<Rightarrow> Workload \<Rightarrow> Explanation \<Rightarrow> Explanation" where
  "commitCompletion_explain expecting w x =
     (if expecting \<noteq> wl_generation w then x
      else if isTerminal (wl_state w) then x
      else if wl_cancellationRequested w \<and> po_cancelRace (wl_policy w) = CancelRaceSemantics.CANCEL_FIRST
      then x\<lparr>ex_outcome := Outcome.REJECT_CANCELLED,
             ex_detail := ''cancellation requested before completion; CANCEL_FIRST''\<rparr>
      else if \<not> completion_criterion w
      then x\<lparr>ex_outcome := Outcome.REJECT_COMPLETION_POLICY, ex_detail := ''completion criteria not met''\<rparr>
      else
        let w1 = (case currentEpisode w of None \<Rightarrow> w
                  | Some k \<Rightarrow> update_episode k (\<lambda>e. e\<lparr>ep_completed := True\<rparr>) w);
            w2 = w1\<lparr>wl_cancellationRequested := False, wl_cancellationWasRejected := True,
                    wl_completionGen := next_gen (wl_completionGen w1)\<rparr>;
            a = guardedTransition WorkloadState.COMPLETING expecting ''completion criteria met'' w2;
            x1 = guardedTransition_explain WorkloadState.COMPLETING expecting ''completion criteria met'' w2 x
        in if \<not> isAllow (fst a) then x1
           else guardedTransition_explain WorkloadState.COMPLETED (wl_generation (snd a)) ''workload completed'' (snd a) x1)"

definition finalize_explain :: "WorkloadGeneration \<Rightarrow> Workload \<Rightarrow> Explanation \<Rightarrow> Explanation" where
  "finalize_explain expecting w x =
     (if expecting \<noteq> wl_generation w then x
      else if cp_kind (po_completion (wl_policy w)) \<noteq> CompletionKind.EXPLICIT_FINALIZE then x
      else if isTerminal (wl_state w) then x
      else
        let w1 = w\<lparr>wl_completionGen := next_gen (wl_completionGen w)\<rparr>;
            a = guardedTransition WorkloadState.COMPLETING expecting ''explicit finalize'' w1;
            x1 = guardedTransition_explain WorkloadState.COMPLETING expecting ''explicit finalize'' w1 x
        in if \<not> isAllow (fst a) then x1
           else guardedTransition_explain WorkloadState.COMPLETED (wl_generation (snd a)) ''finalized'' (snd a) x1)"

definition requestCancellation_explain :: "WorkloadGeneration \<Rightarrow> Workload \<Rightarrow> Explanation \<Rightarrow> Explanation" where
  "requestCancellation_explain expecting w x =
     (if expecting \<noteq> wl_generation w then x
      else if isTerminal (wl_state w) then x
      else
        let w1 = w\<lparr>wl_cancellationRequested := True\<rparr>
        in if wl_state w1 = WorkloadState.CANCELLATION_REQUESTED \<or> wl_state w1 = WorkloadState.CANCELLING then x
           else if wl_state w1 = WorkloadState.COMPLETED \<or> wl_state w1 = WorkloadState.CANCELLED \<or>
             wl_state w1 = WorkloadState.FAILED_TERMINAL \<or> wl_state w1 = WorkloadState.SUPERSEDED
           then x
           else guardedTransition_explain WorkloadState.CANCELLATION_REQUESTED expecting ''cancellation requested'' w1 x)"

definition completeCancellation_explain :: "WorkloadGeneration \<Rightarrow> Workload \<Rightarrow> Explanation \<Rightarrow> Explanation" where
  "completeCancellation_explain expecting w x =
     (if expecting \<noteq> wl_generation w then x
      else if wl_state w = WorkloadState.CANCELLED then x
      else if isTerminal (wl_state w) then x
      else
        let w1 = w\<lparr>wl_cancelledFinal := True, wl_cancellationRequested := True\<rparr>;
            a = guardedTransition WorkloadState.CANCELLATION_REQUESTED expecting ''cancelling'' w1;
            x1 = guardedTransition_explain WorkloadState.CANCELLATION_REQUESTED expecting ''cancelling'' w1 x
        in if \<not> isAllow (fst a) then x1
           else
             let b = guardedTransition WorkloadState.CANCELLING (wl_generation (snd a)) ''cancelling'' (snd a);
                 x2 = guardedTransition_explain WorkloadState.CANCELLING (wl_generation (snd a)) ''cancelling'' (snd a) x1
             in if \<not> isAllow (fst b) then x2
                else guardedTransition_explain WorkloadState.CANCELLED (wl_generation (snd b)) ''cancelled'' (snd b) x2)"

definition onWorkerLost_explain ::
  "WorkerId \<Rightarrow> WorkerBootId \<Rightarrow> WorkloadGeneration \<Rightarrow> Workload \<Rightarrow> Explanation \<Rightarrow> Explanation" where
  "onWorkerLost_explain worker boot expecting w x =
     (if expecting \<noteq> wl_generation w then x
      else case currentEpisode w of
        None \<Rightarrow> x
      | Some k \<Rightarrow>
          if ep_worker (wl_episodes w ! k) \<noteq> worker \<or> ep_boot (wl_episodes w ! k) \<noteq> boot
          then x\<lparr>ex_outcome := Outcome.REJECT_STALE_BOOT, ex_detail := ''worker/boot mismatch for current episode''\<rparr>
          else
            let w1 = update_episode k (\<lambda>e. e\<lparr>ep_workerLost := True, ep_state := EpisodeState.LOST\<rparr>) w
            in if wl_state w1 = WorkloadState.RUNNING \<or> wl_state w1 = WorkloadState.DEGRADED
               then guardedTransition_explain WorkloadState.RECOVERING expecting ''worker lost'' w1 x
               else x)"

definition markEpisode_explain :: "ExecutionEpisodeId \<Rightarrow> Workload \<Rightarrow> Explanation \<Rightarrow> Explanation" where
  "markEpisode_explain i w x =
     (case episode_index i w of
        None \<Rightarrow> x\<lparr>ex_outcome := Outcome.REJECT_EPISODE_INELIGIBLE\<rparr>
      | Some k \<Rightarrow> x)"

definition planRestart_explain :: "WorkloadGeneration \<Rightarrow> string \<Rightarrow> Workload \<Rightarrow> Explanation \<Rightarrow> Explanation" where
  "planRestart_explain expecting reason w x =
     (if expecting \<noteq> wl_generation w then x
      else if isTerminal (wl_state w)
      then x\<lparr>ex_outcome := Outcome.REJECT_TERMINAL, ex_from := wl_state w, ex_detail := ''terminal workload cannot restart''\<rparr>
      else
        let rp = po_restart (wl_policy w);
            classAllowed = restart_class_allowed (rp_kind rp) reason
        in if \<not> classAllowed \<or> \<not> restartAllowed (wl_restartCount w) (rp_maxRestarts rp)
           then x\<lparr>ex_outcome := Outcome.REJECT_RESTART_LIMIT, ex_from := wl_state w,
                  ex_detail := ''restart not allowed (count='' @ to_string (wl_restartCount w) @ '' max='' @
                    to_string (rp_maxRestarts rp) @ '' kind='' @ restartKindName (rp_kind rp) @ '')''\<rparr>
           else
             let w1 = w\<lparr>wl_restartCount := wl_restartCount w + 1,
                        wl_restartGen := next_gen (wl_restartGen w),
                        wl_lastRestartReason := reason\<rparr>;
                 w2 = (case currentEpisode w1 of None \<Rightarrow> w1
                       | Some k \<Rightarrow> w1\<lparr>wl_lastSourceEpisode := ep_id (wl_episodes w1 ! k)\<rparr>)
             in if wl_state w2 = WorkloadState.RESTART_PENDING then x
                else guardedTransition_explain WorkloadState.RESTART_PENDING expecting ''restart pending'' w2 x)"

definition requestSuspend_explain :: "WorkloadGeneration \<Rightarrow> Workload \<Rightarrow> Explanation \<Rightarrow> Explanation" where
  "requestSuspend_explain expecting w x =
     (if expecting \<noteq> wl_generation w then x
      else if \<not> sp_allowed (po_suspension (wl_policy w)) then x
      else if \<not> isActivelyRunning (wl_state w)
      then x\<lparr>ex_outcome := Outcome.REJECT_NOT_SUSPENDED, ex_detail := ''not in a suspendable state''\<rparr>
      else if wl_state w = WorkloadState.SUSPEND_REQUESTED then x
      else guardedTransition_explain WorkloadState.SUSPEND_REQUESTED expecting ''suspend requested'' w x)"

definition completeSuspend_explain :: "WorkloadGeneration \<Rightarrow> Workload \<Rightarrow> Explanation \<Rightarrow> Explanation" where
  "completeSuspend_explain expecting w x =
     (if expecting \<noteq> wl_generation w then x
      else if wl_state w = WorkloadState.SUSPENDED then x
      else if wl_state w \<noteq> WorkloadState.SUSPEND_REQUESTED \<and> wl_state w \<noteq> WorkloadState.SUSPENDING then x
      else
        let w1 = (case currentEpisode w of None \<Rightarrow> w
                  | Some k \<Rightarrow> update_episode k (\<lambda>e. e\<lparr>ep_state := EpisodeState.SUSPENDED,
                                                    ep_workerLost := False\<rparr>) w)
        in if wl_state w1 = WorkloadState.SUSPEND_REQUESTED
           then
             let a = guardedTransition WorkloadState.SUSPENDING expecting ''suspending'' w1;
                 x1 = guardedTransition_explain WorkloadState.SUSPENDING expecting ''suspending'' w1 x
             in if \<not> isAllow (fst a) then x1
                else guardedTransition_explain WorkloadState.SUSPENDED (wl_generation (snd a)) ''suspended'' (snd a) x1
           else guardedTransition_explain WorkloadState.SUSPENDED expecting ''suspended'' w1 x)"

definition requestResume_explain :: "WorkloadGeneration \<Rightarrow> Workload \<Rightarrow> Explanation \<Rightarrow> Explanation" where
  "requestResume_explain expecting w x =
     (if expecting \<noteq> wl_generation w then x
      else if wl_state w \<noteq> WorkloadState.SUSPENDED \<and> wl_state w \<noteq> WorkloadState.PREEMPTED
      then x\<lparr>ex_outcome := Outcome.REJECT_NOT_SUSPENDED, ex_detail := ''workload is not suspended or preempted''\<rparr>
      else guardedTransition_explain WorkloadState.READY expecting ''resume eligible'' w x)"

definition requestMigration_explain :: "WorkloadGeneration \<Rightarrow> Workload \<Rightarrow> Explanation \<Rightarrow> Explanation" where
  "requestMigration_explain expecting w x =
     (if expecting \<noteq> wl_generation w then x
      else if mp_eligibility (po_migration (wl_policy w)) = MigrationEligibility.NONE
      then x\<lparr>ex_outcome := Outcome.REJECT_MIGRATION_INELIGIBLE, ex_detail := ''migration not eligible per policy''\<rparr>
      else if \<not> isActivelyRunning (wl_state w) \<and> wl_state w \<noteq> WorkloadState.MIGRATION_PENDING then x
      else
        let w1 = w\<lparr>wl_migrationId := fromU64 (toU64 (wl_migrationId w) + 1),
                   wl_migrationGen := next_gen (wl_migrationGen w)\<rparr>
        in if wl_state w1 = WorkloadState.MIGRATION_PENDING then x
           else if wl_state w1 = WorkloadState.MIGRATING then x
           else guardedTransition_explain WorkloadState.MIGRATION_PENDING expecting ''migration requested'' w1 x)"

text \<open>The explanation of the last transition is taken at the workload with its new episode.\<close>

definition commitMigration_explain ::
  "WorkloadGeneration \<Rightarrow> WorkerId \<Rightarrow> WorkerBootId \<Rightarrow> Workload \<Rightarrow> Explanation \<Rightarrow> Explanation" where
  "commitMigration_explain expecting targetWorker targetBoot w x =
     (if expecting \<noteq> wl_generation w then x
      else if wl_state w \<noteq> WorkloadState.MIGRATION_PENDING \<and> wl_state w \<noteq> WorkloadState.MIGRATING then x
      else
        let a = (if wl_state w = WorkloadState.MIGRATION_PENDING
                 then guardedTransition WorkloadState.MIGRATING expecting ''migrating'' w
                 else (Outcome.ALLOW, w));
            x1 = (if wl_state w = WorkloadState.MIGRATION_PENDING
                  then guardedTransition_explain WorkloadState.MIGRATING expecting ''migrating'' w x else x)
        in if \<not> isAllow (fst a) then x1
           else
             let w1 = snd a;
                 target = default_episode\<lparr>ep_id := fromU64 (wl_episodeCounterForMigration w1),
                   ep_generation := fromU64 1, ep_state := EpisodeState.RUNNING,
                   ep_worker := targetWorker, ep_boot := targetBoot, ep_owner := wl_owner w1,
                   ep_ownerGeneration := wl_ownerGeneration w1, ep_intent := wl_intent w1,
                   ep_authoritative := True, ep_progress := wl_progress w1\<rparr>;
                 w2 = append_authoritative target
                        (w1\<lparr>wl_episodeCounterForMigration := wl_episodeCounterForMigration w1 + 1\<rparr>);
                 w3 = w2\<lparr>wl_generation := next_gen (wl_generation w2)\<rparr>
             in guardedTransition_explain WorkloadState.RUNNING (wl_generation w3) ''migration committed'' w3 x1)"

text \<open>The operations on the contract and on the dependencies take no explanation.\<close>

primrec call_explain :: "workload_call \<Rightarrow> Workload \<Rightarrow> Explanation \<Rightarrow> Explanation" where
  "call_explain (Transition t e r) = guardedTransition_explain t e r"
| "call_explain (Settle e) = settle_explain e"
| "call_explain (StartEpisode i ow og adv) = startEpisode_explain"
| "call_explain (AdmitDispatch ep wk b) = admitDispatch_explain ep wk b"
| "call_explain (ReportProgress ep eg d dur) = reportProgress_explain ep eg"
| "call_explain (CommitCompletion e) = commitCompletion_explain e"
| "call_explain (Finalize e) = finalize_explain e"
| "call_explain (RequestCancellation e) = requestCancellation_explain e"
| "call_explain (CompleteCancellation e) = completeCancellation_explain e"
| "call_explain (OnWorkerLost wk b e) = onWorkerLost_explain wk b e"
| "call_explain (MarkEpisodeCompleted i) = markEpisode_explain i"
| "call_explain (MarkEpisodeFailed i) = markEpisode_explain i"
| "call_explain (PlanRestart e r) = planRestart_explain e r"
| "call_explain (RequestSuspend e) = requestSuspend_explain e"
| "call_explain (CompleteSuspend e) = completeSuspend_explain e"
| "call_explain (RequestResume e) = requestResume_explain e"
| "call_explain (RequestMigration e) = requestMigration_explain e"
| "call_explain (CommitMigration e wk b) = commitMigration_explain e wk b"
| "call_explain (DefineDependency d) = (\<lambda>w x. x)"
| "call_explain (SetDependencyStatus i st g) = (\<lambda>w x. x)"
| "call_explain (AddRequirement r) = (\<lambda>w x. x)"
| "call_explain (ApplyGrant g) = (\<lambda>w x. x)"
| "call_explain (ReleaseGrant g) = (\<lambda>w x. x)"

section \<open>Explanations agree with outcomes\<close>

text \<open>
  \<open>agrees\<close>: an explanation that was written names the outcome of the call and, if the call was
  allowed, the state the workload is in now; and no change of state goes unexplained.
\<close>

definition agrees :: "Workload \<Rightarrow> Outcome \<times> Workload \<Rightarrow> Explanation \<Rightarrow> Explanation \<Rightarrow> bool" where
  "agrees w r x y \<longleftrightarrow>
     (y = x \<or> ex_outcome y = fst r \<and> (fst r = Outcome.ALLOW \<longrightarrow> ex_to y = wl_state (snd r))) \<and>
     (wl_state (snd r) \<noteq> wl_state w \<longrightarrow> ex_outcome y = fst r)"

locale explained_operation =
  fixes op :: "Workload \<Rightarrow> Outcome \<times> Workload" and ex :: "Workload \<Rightarrow> Explanation \<Rightarrow> Explanation"
  assumes agreement: "agrees w (op w) x (ex w x)"
begin

lemma explained_or_untouched: "ex w x \<noteq> x \<Longrightarrow> ex_outcome (ex w x) = fst (op w)"
  using agreement [of w x] by (auto simp: agrees_def)

text \<open>Starting from a fresh explanation, whose outcome is UNKNOWN, nothing else can be read off.\<close>

lemma fresh_explanation: "ex_outcome (ex w default_explanation) \<in> {Outcome.UNKNOWN, fst (op w)}"
  using explained_or_untouched [of w default_explanation]
  by (cases "ex w default_explanation = default_explanation") (simp_all add: default_explanation_def)

end

lemma agrees_same [intro]: "wl_state (snd r) = wl_state w \<Longrightarrow> agrees w r x x"
  by (simp add: agrees_def)

lemma agrees_rejected [intro]: "ex_outcome y = fst r \<Longrightarrow> fst r \<noteq> Outcome.ALLOW \<Longrightarrow> agrees w r x y"
  by (simp add: agrees_def)

lemma agrees_guarded [intro]: "agrees w (guardedTransition t e r v) x (guardedTransition_explain t e r v y)"
  by (simp add: agrees_def guardedTransition_state)

lemma agrees_if [intro]:
  "(c \<Longrightarrow> agrees w r x y) \<Longrightarrow> (\<not> c \<Longrightarrow> agrees w r' x y') \<Longrightarrow> agrees w (if c then r else r') x (if c then y else y')"
  by simp

lemma agrees_option [intro]:
  "(p = None \<Longrightarrow> agrees w r x y) \<Longrightarrow> (\<And>k. p = Some k \<Longrightarrow> agrees w (r' k) x (y' k)) \<Longrightarrow>
   agrees w (case p of None \<Rightarrow> r | Some k \<Rightarrow> r' k) x (case p of None \<Rightarrow> y | Some k \<Rightarrow> y' k)"
  by (cases p) simp_all

lemmas agrees_rules = agrees_if agrees_option agrees_guarded

lemma settle_agrees: "agrees w (settle e w) x (settle_explain e w x)"
  unfolding settle_def settle_explain_def Let_def by (intro agrees_rules) auto

lemma startEpisode_agrees: "agrees w (startEpisode i ow og adv w) x (startEpisode_explain w x)"
proof (cases "wl_cancelledFinal w \<or> isCancelling (wl_state w) \<or> isTerminal (wl_state w) \<or> \<not> resumeEligible (wl_state w)")
  case True
  then show ?thesis by (auto simp: startEpisode_def startEpisode_explain_def)
next
  case False
  let ?pre = "if wl_state w \<noteq> WorkloadState.READY
    then guardedTransition WorkloadState.READY (wl_generation w) ''resume eligible'' w else (Outcome.ALLOW, w)"
  let ?x = "if wl_state w \<noteq> WorkloadState.READY
    then guardedTransition_explain WorkloadState.READY (wl_generation w) ''resume eligible'' w x else x"
  let ?t = "guardedTransition WorkloadState.STARTING (wl_generation (snd ?pre)) ''start episode'' (snd ?pre)"
  let ?y = "guardedTransition_explain WorkloadState.STARTING (wl_generation (snd ?pre)) ''start episode'' (snd ?pre) ?x"
  have explain: "startEpisode_explain w x = (if isAllow (fst ?pre) then ?y else ?x)"
    using False by (simp add: startEpisode_explain_def Let_def isAllow_def)
  show ?thesis
  proof (cases "isAllow (fst ?pre) \<and> isAllow (fst ?t)")
    case True
    then obtain v where v: "startEpisode i ow og adv w = (Outcome.ALLOW, v)" "wl_state v = wl_state (snd ?t)"
      using False by (simp add: startEpisode_def append_authoritative_def Let_def split del: if_split)
        (auto split: if_splits)
    with True show ?thesis
      unfolding explain by (simp add: agrees_def isAllow_def guardedTransition_state split del: if_split)
  next
    case False': False
    show ?thesis
    proof (cases "isAllow (fst ?pre)")
      case True
      with False False' have "startEpisode i ow og adv w = ?t"
        by (simp add: startEpisode_def Let_def split del: if_split)
      with True show ?thesis unfolding explain by (simp add: agrees_guarded split del: if_split)
    next
      case pre: False
      with False have "startEpisode i ow og adv w = ?pre" "wl_state w \<noteq> WorkloadState.READY"
        by (auto simp: startEpisode_def Let_def isAllow_def split: if_splits)
      with pre show ?thesis unfolding explain by (simp add: agrees_guarded)
    qed
  qed
qed

lemma admitDispatch_agrees: "agrees w (admitDispatch ep wk b w) x (admitDispatch_explain ep wk b w x)"
  unfolding admitDispatch_def admitDispatch_explain_def Let_def
  by (intro agrees_rules) (auto simp: update_episode_def)

lemma reportProgress_agrees: "agrees w (reportProgress ep eg d dur w) x (reportProgress_explain ep eg w x)"
  unfolding reportProgress_def reportProgress_explain_def Let_def
  by (intro agrees_rules) (auto simp: update_episode_def)

lemma commitCompletion_agrees: "agrees w (commitCompletion e w) x (commitCompletion_explain e w x)"
  unfolding commitCompletion_def commitCompletion_explain_def Let_def by (intro agrees_rules) auto

lemma finalize_agrees: "agrees w (finalize e w) x (finalize_explain e w x)"
  unfolding finalize_def finalize_explain_def Let_def by (intro agrees_rules) auto

lemma cancellation_agrees:
  "agrees w (requestCancellationWorkloadScope e w) x (requestCancellation_explain e w x)"
  "agrees w (completeCancellation e w) x (completeCancellation_explain e w x)"
  unfolding requestCancellationWorkloadScope_def requestCancellation_explain_def completeCancellation_def
    completeCancellation_explain_def Let_def
  by (intro agrees_rules; auto)+

lemma onWorkerLost_agrees: "agrees w (onWorkerLost wk b e w) x (onWorkerLost_explain wk b e w x)"
  unfolding onWorkerLost_def onWorkerLost_explain_def Let_def
  by (intro agrees_rules) (auto simp: update_episode_def)

lemma markEpisode_agrees:
  "agrees w (markEpisodeCompleted i w) x (markEpisode_explain i w x)"
  "agrees w (markEpisodeFailed i w) x (markEpisode_explain i w x)"
  unfolding markEpisodeCompleted_def markEpisodeFailed_def markEpisode_explain_def
  by (cases "episode_index i w"; auto simp: update_episode_def)+

lemma planRestart_agrees: "agrees w (planRestart e r w) x (planRestart_explain e r w x)"
  unfolding planRestart_def planRestart_explain_def Let_def
  by (intro agrees_rules) (auto split: option.split)

lemma suspension_agrees:
  "agrees w (requestSuspend e w) x (requestSuspend_explain e w x)"
  "agrees w (completeSuspend e w) x (completeSuspend_explain e w x)"
  "agrees w (requestResume e w) x (requestResume_explain e w x)"
  unfolding requestSuspend_def requestSuspend_explain_def completeSuspend_def completeSuspend_explain_def
    requestResume_def requestResume_explain_def Let_def
  by (intro agrees_rules; auto)+

lemma migration_agrees:
  "agrees w (requestMigration e w) x (requestMigration_explain e w x)"
  "agrees w (commitMigration e wk b w) x (commitMigration_explain e wk b w x)"
proof -
  show "agrees w (requestMigration e w) x (requestMigration_explain e w x)"
    unfolding requestMigration_def requestMigration_explain_def Let_def by (intro agrees_rules) auto
  show "agrees w (commitMigration e wk b w) x (commitMigration_explain e wk b w x)"
    unfolding commitMigration_def commitMigration_explain_def Let_def
    by (intro agrees_rules) (auto simp: isAllow_def split: if_splits)
qed

interpretation call_explained: explained_operation "call c" "call_explain c" for c
proof
  show "agrees w (call c w) x (call_explain c w x)" for w x
    by (cases c)
      (auto simp: transition_def on_deps_def on_contract_def Let_def agrees_same agrees_guarded settle_agrees
        startEpisode_agrees admitDispatch_agrees reportProgress_agrees commitCompletion_agrees finalize_agrees
        cancellation_agrees onWorkerLost_agrees markEpisode_agrees planRestart_agrees suspension_agrees migration_agrees)
qed

text \<open>
  C33. Whatever call is made on a workload and whatever the caller's explanation object held before: the
  call either leaves the object alone, or the object names the outcome the call returned and, if the
  call was allowed, the state the workload is now in. A call that changes the state always explains
  itself, also when a later step of it is rejected.
\<close>

theorem explanations_agree:
  "let r = call c w; y = call_explain c w x
   in (y = x \<or> ex_outcome y = fst r \<and> (fst r = Outcome.ALLOW \<longrightarrow> ex_to y = wl_state (snd r))) \<and>
      (wl_state (snd r) \<noteq> wl_state w \<longrightarrow> ex_outcome y = fst r)"
  using call_explained.agreement [of w c x] unfolding agrees_def Let_def by blast

text \<open>A new workload is validated: the state changes, and the explanation says ALLOW.\<close>

theorem explanations_agree_witness:
  "ex_outcome (call_explain (Transition WorkloadState.VALIDATING (wl_generation sample_created) ''validate'')
     sample_created default_explanation) = Outcome.ALLOW"
proof -
  let ?c = "Transition WorkloadState.VALIDATING (wl_generation sample_created) ''validate''"
  have "fst (call ?c sample_created) = Outcome.ALLOW" "wl_state (snd (call ?c sample_created)) \<noteq> wl_state sample_created"
    by code_simp+
  then show ?thesis
    using explanations_agree [where c = ?c and w = sample_created and x = default_explanation] by (simp add: Let_def)
qed

section \<open>Limits of the explanations\<close>

text \<open>
  The converse fails: many rejections say nothing, among them every stale call that is rejected
  before it reaches a transition. The object then still holds what an earlier call has put there.
\<close>

lemma stale_calls_are_silent:
  "e \<noteq> wl_generation w \<Longrightarrow> call (CommitCompletion e) w = (Outcome.REJECT_STALE_WORKLOAD_GENERATION, w) \<and>
     call_explain (CommitCompletion e) w x = x"
  "e \<noteq> wl_generation w \<Longrightarrow> call (PlanRestart e r) w = (Outcome.REJECT_STALE_WORKLOAD_GENERATION, w) \<and>
     call_explain (PlanRestart e r) w x = x"
  by (simp_all add: commitCompletion_def commitCompletion_explain_def planRestart_def planRestart_explain_def)

text \<open>
  A transition to the state the workload is in is allowed, with the detail of an earlier call; a
  rejection of a terminal workload keeps the generation of an earlier call.
\<close>

lemma old_detail_kept:
  "ex_detail (guardedTransition_explain (wl_state w) (wl_generation w) r w x) = ex_detail x"
  by (simp add: guardedTransition_explain_def)

lemma old_generation_kept:
  "isTerminal (wl_state w) \<Longrightarrow> t \<noteq> wl_state w \<Longrightarrow>
   ex_workloadGeneration (guardedTransition_explain t (wl_generation w) r w x) = ex_workloadGeneration x"
  by (auto simp: guardedTransition_explain_def)

end
