(* ===== verification/Binary.thy ===== *)
theory Binary
  imports Identity Outcomes
begin

text \<open>
  The binary writer and reader (\<open>detail/binary.hpp\<close>). A writer appends bytes, so a write is
  the list of the bytes it appends; a reader is a function of the bytes it has not read yet. A
  read ends with a value and the remaining bytes, with the exception \<open>CodecError\<close>, with an
  outcome the decoder rejects the record with, or with the process terminated.
  The locale \<open>codec\<close> is the contract between a write and its read; it is interpreted for
  every kind of field.
\<close>

type_synonym bytes = "u8 list"
type_synonym i64 = "64 word" \<comment> \<open>read with \<open>sint\<close>\<close>

datatype 'a reading = Done 'a bytes | Codec_error | Rejected Outcome | Terminated

type_synonym 'a reader = "bytes \<Rightarrow> 'a reading"

definition ret :: "'a \<Rightarrow> 'a reader" where
  "ret x xs = Done x xs"

definition stop :: "Outcome \<Rightarrow> 'a reader" where
  "stop out xs = Rejected out"

definition bind :: "'a reader \<Rightarrow> ('a \<Rightarrow> 'b reader) \<Rightarrow> 'b reader" where
  "bind g k xs = (case g xs of
     Done x ys \<Rightarrow> k x ys | Codec_error \<Rightarrow> Codec_error | Rejected out \<Rightarrow> Rejected out | Terminated \<Rightarrow> Terminated)"

section \<open>Writer\<close>

definition put_u8 :: "u8 \<Rightarrow> bytes" where
  "put_u8 v = [v]"

definition put_u16 :: "u16 \<Rightarrow> bytes" where
  "put_u16 v = put_u8 (ucast (drop_bit 8 v)) @ put_u8 (ucast (v AND 0xff))"

definition put_u32 :: "u32 \<Rightarrow> bytes" where
  "put_u32 v = concat (map (\<lambda>i. put_u8 (ucast (drop_bit (i * 8) v))) (rev [0..<4]))"

definition put_u64 :: "u64 \<Rightarrow> bytes" where
  "put_u64 v = concat (map (\<lambda>i. put_u8 (ucast (drop_bit (i * 8) v))) (rev [0..<8]))"

definition put_i64 :: "i64 \<Rightarrow> bytes" where
  "put_i64 v = put_u64 v"

definition put_f64 :: "f64 \<Rightarrow> bytes" where
  "put_f64 v = put_u64 (f64_bits v)"

definition put_bytes :: "bytes \<Rightarrow> bytes" where
  "put_bytes v = put_u64 (word_of_nat (length v)) @ v"

definition put_str :: "string \<Rightarrow> bytes" where
  "put_str s = put_u64 (word_of_nat (length s)) @ map byte_of_char s"

section \<open>Reader\<close>

definition need :: "nat \<Rightarrow> 'a reader \<Rightarrow> 'a reader" where
  "need n g xs = (if n > length xs then Codec_error else g xs)"

definition get_u8 :: "u8 reader" where
  "get_u8 = need 1 (\<lambda>xs. Done (hd xs) (tl xs))"

definition get_u16 :: "u16 reader" where
  "get_u16 = need 2 (bind get_u8 (\<lambda>v0. bind get_u8 (\<lambda>v1. ret (push_bit 8 (ucast v0) OR ucast v1))))"

definition get_u32 :: "u32 reader" where
  "get_u32 = need 4 (bind get_u8 (\<lambda>v0. bind get_u8 (\<lambda>v1. bind get_u8 (\<lambda>v2. bind get_u8 (\<lambda>v3.
     ret (push_bit 24 (ucast v0) OR push_bit 16 (ucast v1) OR push_bit 8 (ucast v2) OR ucast v3))))))"

fun get_loop :: "nat \<Rightarrow> u64 \<Rightarrow> u64 reader" where
  "get_loop 0 r = ret r"
| "get_loop (Suc n) r = bind get_u8 (\<lambda>b. get_loop n (push_bit 8 r OR ucast b))"

definition get_u64 :: "u64 reader" where
  "get_u64 = need 8 (get_loop 8 0)"

definition get_i64 :: "i64 reader" where
  "get_i64 = get_u64"

definition get_f64 :: "f64 reader" where
  "get_f64 = bind get_u64 (\<lambda>bits. ret (F64 bits))"

definition get_raw :: "nat \<Rightarrow> bytes reader" where
  "get_raw n = need n (\<lambda>xs. Done (take n xs) (drop n xs))"

definition get_bytes :: "bytes reader" where
  "get_bytes = bind get_u64 (\<lambda>n xs. if unat n > length xs then Codec_error else get_raw (unat n) xs)"

definition get_str :: "string reader" where
  "get_str = bind get_u64 (\<lambda>n xs. if unat n > length xs then Codec_error
     else bind (get_raw (unat n)) (\<lambda>bs. ret (map char_of_byte bs)) xs)"

section \<open>Integrity\<close>

definition fnv_step :: "u64 \<Rightarrow> u8 \<Rightarrow> u64" where
  "fnv_step h b = (h XOR ucast b) * 0x100000001b3"

definition fnv1a64 :: "bytes \<Rightarrow> u64" where
  "fnv1a64 bs = foldl fnv_step 0xcbf29ce484222325 bs"

section \<open>Reading what was written\<close>

lemma bind_ret [simp]: "bind (ret x) k = k x"
  by (simp add: bind_def ret_def fun_eq_iff)

lemma bind_stop [simp]: "bind (stop out) k = stop out"
  by (simp add: bind_def stop_def fun_eq_iff)

lemma bind_Done: "g xs = Done x ys \<Longrightarrow> bind g k xs = k x ys"
  by (simp add: bind_def)

lemma bind_Codec_error: "g xs = Codec_error \<Longrightarrow> bind g k xs = Codec_error"
  by (simp add: bind_def)

lemma bind_assoc: "bind (bind g h) k = bind g (\<lambda>x. bind (h x) k)"
  by (auto simp: bind_def fun_eq_iff split: reading.split)

lemma ret_apply [simp]: "ret x xs = Done x xs"
  by (simp add: ret_def)

lemma stop_apply [simp]: "stop out xs = Rejected out"
  by (simp add: stop_def)

locale codec =
  fixes put :: "'a \<Rightarrow> bytes" and get :: "'a reader" and fits :: "'a \<Rightarrow> bool"
  assumes round_trip: "fits x \<Longrightarrow> get (put x @ ys) = Done x ys"
begin

lemma bind_put: "fits x \<Longrightarrow> bind get k (put x @ ys) = k x ys"
  by (rule bind_Done) (rule round_trip)

lemma whole: "fits x \<Longrightarrow> get (put x) = Done x []"
  using round_trip [of x "[]"] by simp

text \<open>No encoding is a prefix of another one, so a field's end is where its reader stops.\<close>

lemma unambiguous:
  assumes "fits x" "fits y" "put x @ xs = put y @ ys"
  shows "x = y \<and> xs = ys"
proof -
  have "Done x xs = Done y ys"
    using round_trip [OF assms(1), of xs] round_trip [OF assms(2), of ys] assms(3) by metis
  then show ?thesis by simp
qed

end

lemma length_put [simp]:
  "length (put_u8 a) = 1" "length (put_u16 b) = 2" "length (put_u32 c) = 4" "length (put_u64 d) = 8"
  by (simp_all add: put_u8_def put_u16_def put_u32_def put_u64_def upt_rec)

interpretation u8: codec put_u8 get_u8 "\<lambda>_. True"
  by unfold_locales (simp add: put_u8_def get_u8_def need_def)

lemma get_u8_Cons [simp]: "get_u8 (b # xs) = Done b xs"
  by (simp add: get_u8_def need_def)

text \<open>Putting the bytes of a word together again, most significant byte first.\<close>

lemma byte_mask: "(0xff :: u16) = mask 8"
  by (simp add: mask_eq_exp_minus_1)

lemma u16_bits: "push_bit 8 (ucast (ucast (drop_bit 8 v) :: u8)) OR ucast (ucast (v AND 0xff) :: u8) = (v :: u16)"
  unfolding byte_mask by (rule bit_word_eqI) (auto simp: bit_simps)

lemma u32_bits:
  "push_bit 24 (ucast (ucast (drop_bit 24 v) :: u8)) OR push_bit 16 (ucast (ucast (drop_bit 16 v) :: u8)) OR
   push_bit 8 (ucast (ucast (drop_bit 8 v) :: u8)) OR ucast (ucast v :: u8) = (v :: u32)"
proof (rule bit_word_eqI)
  fix n assume "n < LENGTH(32)"
  then consider "n < 8" | "8 \<le> n" "n < 16" | "16 \<le> n" "n < 24" | "24 \<le> n" "n < 32" by fastforce
  then show "bit (push_bit 24 (ucast (ucast (drop_bit 24 v) :: u8) :: u32) OR
      push_bit 16 (ucast (ucast (drop_bit 16 v) :: u8)) OR
      push_bit 8 (ucast (ucast (drop_bit 8 v) :: u8)) OR ucast (ucast v :: u8)) n \<longleftrightarrow> bit v n"
    by cases (auto simp: bit_simps)
qed

lemma get_loop_put:
  "n \<le> 8 \<Longrightarrow> get_loop n (drop_bit (n * 8) v)
     (concat (map (\<lambda>i. put_u8 (ucast (drop_bit (i * 8) v))) (rev [0..<n])) @ ys) = Done v ys"
proof (induction n)
  case (Suc n)
  have "push_bit 8 (drop_bit (Suc n * 8) v) OR ucast (ucast (drop_bit (n * 8) v) :: u8) = drop_bit (n * 8) v"
    by (rule bit_word_eqI) (auto simp: bit_simps add.commute)
  with Suc show ?case
    by (simp add: bind_def put_u8_def)
qed simp

section \<open>Fields\<close>

interpretation u16: codec put_u16 get_u16 "\<lambda>_. True"
  by unfold_locales
    (simp add: put_u16_def get_u16_def need_def u8.bind_put u16_bits)

interpretation u32: codec put_u32 get_u32 "\<lambda>_. True"
  by unfold_locales
    (simp add: get_u32_def need_def, simp add: put_u32_def upt_rec u8.bind_put u32_bits)

interpretation u64: codec put_u64 get_u64 "\<lambda>_. True"
proof
  fix x :: u64 and ys
  have "get_loop 8 (drop_bit (8 * 8) x) (put_u64 x @ ys) = Done x ys"
    unfolding put_u64_def by (rule get_loop_put) simp
  moreover have "drop_bit (8 * 8) x = 0"
    by (rule bit_word_eqI) (simp add: bit_simps)
  ultimately show "get_u64 (put_u64 x @ ys) = Done x ys"
    by (simp add: get_u64_def need_def)
qed

interpretation i64: codec put_i64 get_i64 "\<lambda>_. True"
  by unfold_locales (simp add: put_i64_def get_i64_def u64.round_trip)

interpretation f64: codec put_f64 get_f64 "\<lambda>_. True"
  by unfold_locales (simp add: put_f64_def get_f64_def u64.bind_put)

definition size_fits :: "'a list \<Rightarrow> bool" where
  "size_fits xs \<longleftrightarrow> int (length xs) < 2 ^ 64"

lemma size_fits_nat: "size_fits xs \<longleftrightarrow> length xs < 2 ^ 64"
  by (simp add: size_fits_def nat_less_iff zless_nat_eq_int_zless)

lemma unat_size [simp]: "size_fits xs \<Longrightarrow> unat (word_of_nat (length xs) :: u64) = length xs"
  by (simp add: size_fits_nat unat_of_nat)

lemma char_of_byte_comp [simp]: "char_of_byte \<circ> byte_of_char = id"
  by (simp add: fun_eq_iff)

lemma get_raw_append: "length xs = n \<Longrightarrow> get_raw n (xs @ ys) = Done xs ys"
  by (simp add: get_raw_def need_def)

interpretation bytes: codec put_bytes get_bytes size_fits
  by unfold_locales
    (simp add: put_bytes_def get_bytes_def u64.bind_put get_raw_append)

interpretation str: codec put_str get_str size_fits
  by unfold_locales
    (simp add: put_str_def get_str_def u64.bind_put bind_Done get_raw_append)

text \<open>Flags are written as 0 or 1; any other byte reads as true.\<close>

definition put_bool :: "bool \<Rightarrow> bytes" where
  "put_bool b = put_u8 (if b then 1 else 0)"

definition get_bool :: "bool reader" where
  "get_bool = bind get_u8 (\<lambda>v. ret (v \<noteq> 0))"

interpretation bool: codec put_bool get_bool "\<lambda>_. True"
  by unfold_locales (simp add: put_bool_def get_bool_def u8.bind_put)

text \<open>Identities and generations are their raw value.\<close>

definition put_id :: "'tag unique_value \<Rightarrow> bytes" where
  "put_id x = put_u64 (toU64 x)"

definition get_id :: "'tag unique_value reader" where
  "get_id = bind get_u64 (\<lambda>v. ret (fromU64 v))"

interpretation ident: codec put_id get_id "\<lambda>_. True"
  by unfold_locales (simp add: put_id_def get_id_def u64.bind_put fromU64_def)

text \<open>
  An enumerator is written as its code; reading it checks the code against the largest one
  (\<open>readEnum\<close>) before it is cast back.
\<close>

definition put_enum :: "('a \<Rightarrow> nat) \<Rightarrow> 'a \<Rightarrow> bytes" where
  "put_enum code x = put_u8 (word_of_nat (code x))"

definition readEnum :: "u8 \<Rightarrow> 'a list \<Rightarrow> 'a reader" where
  "readEnum maxV enumerators = bind get_u8 (\<lambda>v.
     if v > maxV then stop Outcome.REJECT_UNKNOWN else ret (enumerators ! unat v))"

context wire_enum
begin

lemma enum_codec: "length enumerators = Suc (unat maxV) \<Longrightarrow> codec (put_enum code) (readEnum maxV enumerators) (\<lambda>_. True)"
proof
  fix x and ys :: bytes
  assume "length enumerators = Suc (unat maxV)"
  then have "\<not> (word_of_nat (code x) :: u8) > maxV"
    using code_less [of x] by (simp add: word_less_nat_alt code_byte)
  then show "readEnum maxV enumerators (put_enum code x @ ys) = Done x ys"
    by (simp add: readEnum_def put_enum_def u8.bind_put code_byte nth_code)
qed

end

text \<open>Sequences: a 32-bit count and then the elements.\<close>

fun get_times :: "nat \<Rightarrow> 'a reader \<Rightarrow> 'a list reader" where
  "get_times 0 g = ret []"
| "get_times (Suc n) g = bind g (\<lambda>x. bind (get_times n g) (\<lambda>xs. ret (x # xs)))"

definition put_vec :: "('a \<Rightarrow> bytes) \<Rightarrow> 'a list \<Rightarrow> bytes" where
  "put_vec put xs = put_u32 (word_of_nat (length xs)) @ concat (map put xs)"

definition get_vec :: "'a reader \<Rightarrow> 'a list reader" where
  "get_vec g = bind get_u32 (\<lambda>n. get_times (unat n) g)"

definition vec_fits :: "('a \<Rightarrow> bool) \<Rightarrow> 'a list \<Rightarrow> bool" where
  "vec_fits fits xs \<longleftrightarrow> int (length xs) < 2 ^ 32 \<and> list_all fits xs"

lemma vec_fits_nat: "vec_fits fits xs \<longleftrightarrow> length xs < 2 ^ 32 \<and> list_all fits xs"
  by (simp add: vec_fits_def nat_less_iff zless_nat_eq_int_zless)

context codec
begin

lemma times_round_trip:
  "list_all fits xs \<Longrightarrow> get_times (length xs) get (concat (map put xs) @ ys) = Done xs ys"
  by (induction xs) (simp_all add: bind_put bind_Done)

lemma vec_codec: "codec (put_vec put) (get_vec get) (vec_fits fits)"
  by unfold_locales
    (simp add: put_vec_def get_vec_def vec_fits_nat u32.bind_put unat_of_nat times_round_trip)

end

lemmas read_back = u8.bind_put u16.bind_put u32.bind_put u64.bind_put i64.bind_put f64.bind_put
  bytes.bind_put str.bind_put bool.bind_put ident.bind_put

section \<open>The checksum\<close>

lemma fnv_prime_inverse: "(0x100000001b3 :: u64) * 0xce965057aff6957b = 1"
  by simp

lemma fnv_prime_cancel: "(a :: u64) * 0x100000001b3 = b * 0x100000001b3 \<longleftrightarrow> a = b"
proof
  assume "a * 0x100000001b3 = b * 0x100000001b3"
  then have "a * 0x100000001b3 * 0xce965057aff6957b = b * 0x100000001b3 * 0xce965057aff6957b"
    by (simp only:)
  then show "a = b"
    by (simp only: mult.assoc fnv_prime_inverse mult_1_right)
qed simp

lemma xor_right_cancel: "(a :: u64) XOR c = b XOR c \<longleftrightarrow> a = b"
proof
  assume "a XOR c = b XOR c"
  then have "(a XOR c) XOR c = (b XOR c) XOR c" by (simp only:)
  then show "a = b" by (simp add: xor.assoc)
qed simp

lemma ucast_byte_inject: "(ucast b :: u64) = ucast b' \<longleftrightarrow> b = (b' :: u8)"
proof
  have narrow: "ucast (ucast x :: u64) = x" for x :: u8
    by (rule bit_word_eqI) (simp add: bit_simps)
  assume "(ucast b :: u64) = ucast b'"
  then have "(ucast (ucast b :: u64) :: u8) = ucast (ucast b' :: u64)" by (rule arg_cong)
  then show "b = b'" by (simp only: narrow)
qed simp

lemma fnv_step_inject:
  "fnv_step h b = fnv_step h' b \<longleftrightarrow> h = h'"
  "fnv_step h b = fnv_step h b' \<longleftrightarrow> b = b'"
proof -
  show "fnv_step h b = fnv_step h' b \<longleftrightarrow> h = h'"
    by (simp add: fnv_step_def fnv_prime_cancel xor_right_cancel)
  show "fnv_step h b = fnv_step h b' \<longleftrightarrow> b = b'"
    by (simp add: fnv_step_def fnv_prime_cancel xor.commute [of h] xor_right_cancel ucast_byte_inject)
qed

lemma fnv_fold_inject: "foldl fnv_step h bs = foldl fnv_step h' bs \<longleftrightarrow> h = h'"
  by (induction bs arbitrary: h h') (simp_all add: fnv_step_inject)

text \<open>One changed byte always changes the checksum: every step is a bijection of the running hash.\<close>

lemma fnv_one_byte:
  assumes "i < length bs" and "b \<noteq> bs ! i"
  shows "fnv1a64 (bs[i := b]) \<noteq> fnv1a64 bs"
proof -
  have split: "bs = take i bs @ bs ! i # drop (Suc i) bs"
    using assms(1) by (simp add: id_take_nth_drop)
  have "bs[i := b] = take i bs @ b # drop (Suc i) bs"
    using assms(1) by (simp add: upd_conv_take_nth_drop)
  then have "fnv1a64 (bs[i := b]) = foldl fnv_step (fnv_step (fnv1a64 (take i bs)) b) (drop (Suc i) bs)"
    by (simp add: fnv1a64_def)
  moreover have "fnv1a64 bs = foldl fnv_step (fnv_step (fnv1a64 (take i bs)) (bs ! i)) (drop (Suc i) bs)"
    by (subst split) (simp add: fnv1a64_def)
  ultimately show ?thesis
    using assms(2) by (simp add: fnv_fold_inject fnv_step_inject)
qed

end
