(* ===== verification/Codec.thy ===== *)
theory Codec
  imports Binary Workload_Steps
begin

text \<open>
  The persistent record of a workload (\<open>Workload::encode\<close> and \<open>Workload::decode\<close> in
  \<open>persistence.cpp\<close>), field by field in the order of the source, and the round trip of every
  part of it as an interpretation of the locale \<open>codec\<close>.

  \<open>decode\<close> builds the resource contract and the dependency set by a constructor call whose two
  arguments both read from the stream. C++ leaves the order of the two reads to the compiler; it is
  the parameter \<open>arg_order\<close> of the decoders here.
\<close>

datatype arg_order = Left_to_right | Right_to_left

definition get_args :: "arg_order \<Rightarrow> 'a reader \<Rightarrow> 'b reader \<Rightarrow> ('a \<times> 'b) reader" where
  "get_args ord f g =
     (case ord of
        Left_to_right \<Rightarrow> bind f (\<lambda>a. bind g (\<lambda>b. ret (a, b)))
      | Right_to_left \<Rightarrow> bind g (\<lambda>b. bind f (\<lambda>a. ret (a, b))))"

text \<open>The checks after a read: \<open>if (\<dots>) { status = REJECT_UNKNOWN; return {}; }\<close>.\<close>

definition require :: "bool \<Rightarrow> unit reader" where
  "require b = (if b then ret () else stop Outcome.REJECT_UNKNOWN)"

lemma require_simps [simp]: "require True = ret ()" "require False = stop Outcome.REJECT_UNKNOWN"
  by (simp_all add: require_def)

section \<open>Enumerations\<close>

interpretation workloadState_wire: codec "put_enum workloadState_code" "readEnum 25 workloadState_values" "\<lambda>_. True"
  by (rule wire_enum.enum_codec [OF workloadState.wire_enum_axioms]) (simp add: workloadState_max)

interpretation episodeState_wire: codec "put_enum episodeState_code" "readEnum 9 episodeState_values" "\<lambda>_. True"
  by (rule wire_enum.enum_codec [OF episodeState.wire_enum_axioms]) (simp add: episodeState_max)

interpretation outcome_wire: codec "put_enum outcome_code" "readEnum 36 outcome_values" "\<lambda>_. True"
  by (rule wire_enum.enum_codec [OF outcome.wire_enum_axioms]) (simp add: outcome_max)

interpretation restartKind_wire: codec "put_enum restartKind_code" "readEnum 6 restartKind_values" "\<lambda>_. True"
  by (rule wire_enum.enum_codec [OF restartKind.wire_enum_axioms]) (simp add: restartKind_max)

interpretation completionKind_wire: codec "put_enum completionKind_code" "readEnum 3 completionKind_values" "\<lambda>_. True"
  by (rule wire_enum.enum_codec [OF completionKind.wire_enum_axioms]) (simp add: completionKind_max)

interpretation migrationEligibility_wire:
  codec "put_enum migrationEligibility_code" "readEnum 2 migrationEligibility_values" "\<lambda>_. True"
  by (rule wire_enum.enum_codec [OF migrationEligibility.wire_enum_axioms]) (simp add: migrationEligibility_max)

interpretation cancelRace_wire:
  codec "put_enum cancelRaceSemantics_code" "readEnum 1 cancelRaceSemantics_values" "\<lambda>_. True"
  by (rule wire_enum.enum_codec [OF cancelRaceSemantics.wire_enum_axioms]) (simp add: cancelRaceSemantics_max)

interpretation resourceKind_wire: codec "put_enum resourceKind_code" "readEnum 16 resourceKind_values" "\<lambda>_. True"
  by (rule wire_enum.enum_codec [OF resourceKind.wire_enum_axioms]) (simp add: resourceKind_max)

interpretation needLevel_wire: codec "put_enum needLevel_code" "readEnum 3 needLevel_values" "\<lambda>_. True"
  by (rule wire_enum.enum_codec [OF needLevel.wire_enum_axioms]) (simp add: needLevel_max)

interpretation grantStatus_wire: codec "put_enum grantStatus_code" "readEnum 5 grantStatus_values" "\<lambda>_. True"
  by (rule wire_enum.enum_codec [OF grantStatus.wire_enum_axioms]) (simp add: grantStatus_max)

interpretation dependencyRequirement_wire:
  codec "put_enum dependencyRequirement_code" "readEnum 1 dependencyRequirement_values" "\<lambda>_. True"
  by (rule wire_enum.enum_codec [OF dependencyRequirement.wire_enum_axioms]) (simp add: dependencyRequirement_max)

interpretation dependencyReady_wire:
  codec "put_enum dependencyReady_code" "readEnum 2 dependencyReady_values" "\<lambda>_. True"
  by (rule wire_enum.enum_codec [OF dependencyReady.wire_enum_axioms]) (simp add: dependencyReady_max)

interpretation dependencyStatus_wire:
  codec "put_enum dependencyStatus_code" "readEnum 4 dependencyStatus_values" "\<lambda>_. True"
  by (rule wire_enum.enum_codec [OF dependencyStatus.wire_enum_axioms]) (simp add: dependencyStatus_max)

interpretation priorityTier_wire: codec "put_enum priorityTier_code" "readEnum 5 priorityTier_values" "\<lambda>_. True"
  by (rule wire_enum.enum_codec [OF priorityTier.wire_enum_axioms]) (simp add: priorityTier_max)

interpretation totalKind_wire: codec "put_enum totalKind_code" "readEnum 1 totalKind_values" "\<lambda>_. True"
  by (rule wire_enum.enum_codec [OF totalKind.wire_enum_axioms]) (simp add: totalKind_max)

interpretation provenance_wire:
  codec "put_enum progressProvenance_code" "readEnum 3 progressProvenance_values" "\<lambda>_. True"
  by (rule wire_enum.enum_codec [OF progressProvenance.wire_enum_axioms]) (simp add: progressProvenance_max)

lemmas enum_read_back = workloadState_wire.bind_put episodeState_wire.bind_put outcome_wire.bind_put
  restartKind_wire.bind_put completionKind_wire.bind_put migrationEligibility_wire.bind_put
  cancelRace_wire.bind_put resourceKind_wire.bind_put needLevel_wire.bind_put grantStatus_wire.bind_put
  dependencyRequirement_wire.bind_put dependencyReady_wire.bind_put dependencyStatus_wire.bind_put
  priorityTier_wire.bind_put totalKind_wire.bind_put provenance_wire.bind_put

section \<open>Policy\<close>

definition put_policy :: "Policy \<Rightarrow> bytes" where
  "put_policy p =
     put_enum restartKind_code (rp_kind (po_restart p)) @
     put_u32 (rp_maxRestarts (po_restart p)) @
     put_u32 (rp_maxRecoverySeconds (po_restart p)) @
     put_bool (rp_carryProgressForward (po_restart p)) @
     put_bool (rp_carryCheckpoint (po_restart p)) @
     put_enum completionKind_code (cp_kind (po_completion p)) @
     put_u32 (cp_requiredUnits (po_completion p)) @
     put_bool (cp_requireDurableArtifact (po_completion p)) @
     put_bool (cp_allowZeroWorkCompletion (po_completion p)) @
     put_enum migrationEligibility_code (mp_eligibility (po_migration p)) @
     put_bool (mp_requireCheckpoint (po_migration p)) @
     put_bool (mp_requireQuiescence (po_migration p)) @
     put_bool (mp_allowLossy (po_migration p)) @
     put_bool (sp_allowed (po_suspension p)) @
     put_bool (sp_requireDurableState (po_suspension p)) @
     put_u32 (sp_maxSuspendedSeconds (po_suspension p)) @
     put_bool (sp_releaseResourcesWhileSuspended (po_suspension p)) @
     put_enum cancelRaceSemantics_code (po_cancelRace p) @
     put_id (po_generation p)"

definition get_policy :: "Policy reader" where
  "get_policy =
     bind (readEnum 6 restartKind_values) (\<lambda>kind.
     bind get_u32 (\<lambda>maxRestarts.
     bind get_u32 (\<lambda>maxRecovery.
     bind get_bool (\<lambda>carryProgress.
     bind get_bool (\<lambda>carryCheckpoint.
     bind (readEnum 3 completionKind_values) (\<lambda>ckind.
     bind get_u32 (\<lambda>units.
     bind get_bool (\<lambda>artifact.
     bind get_bool (\<lambda>zeroWork.
     bind (readEnum 2 migrationEligibility_values) (\<lambda>elig.
     bind get_bool (\<lambda>reqCheckpoint.
     bind get_bool (\<lambda>reqQuiescence.
     bind get_bool (\<lambda>lossy.
     bind get_bool (\<lambda>allowed.
     bind get_bool (\<lambda>durable.
     bind get_u32 (\<lambda>maxSuspended.
     bind get_bool (\<lambda>releases.
     bind (readEnum 1 cancelRaceSemantics_values) (\<lambda>race.
     bind get_id (\<lambda>gen.
     ret \<lparr>po_restart = \<lparr>rp_kind = kind, rp_maxRestarts = maxRestarts,
            rp_maxRecoverySeconds = maxRecovery, rp_carryProgressForward = carryProgress,
            rp_carryCheckpoint = carryCheckpoint\<rparr>,
          po_completion = \<lparr>cp_kind = ckind, cp_requiredUnits = units,
            cp_requireDurableArtifact = artifact, cp_allowZeroWorkCompletion = zeroWork\<rparr>,
          po_migration = \<lparr>mp_eligibility = elig, mp_requireCheckpoint = reqCheckpoint,
            mp_requireQuiescence = reqQuiescence, mp_allowLossy = lossy\<rparr>,
          po_suspension = \<lparr>sp_allowed = allowed, sp_requireDurableState = durable,
            sp_maxSuspendedSeconds = maxSuspended, sp_releaseResourcesWhileSuspended = releases\<rparr>,
          po_cancelRace = race, po_generation = gen\<rparr>)))))))))))))))))))"

interpretation policy_wire: codec put_policy get_policy "\<lambda>_. True"
  by unfold_locales (simp add: put_policy_def get_policy_def read_back enum_read_back)

section \<open>Resource contract\<close>

definition put_requirement :: "ResourceRequirement \<Rightarrow> bytes" where
  "put_requirement r =
     put_enum resourceKind_code (rr_kind r) @ put_enum needLevel_code (rr_level r) @
     put_f64 (rr_minValue r) @ put_f64 (rr_maxValue r) @ put_str (rr_spec r)"

definition get_requirement :: "ResourceRequirement reader" where
  "get_requirement =
     bind (readEnum 16 resourceKind_values) (\<lambda>kind.
     bind (readEnum 3 needLevel_values) (\<lambda>level.
     bind get_f64 (\<lambda>minValue.
     bind get_f64 (\<lambda>maxValue.
     bind (require (\<not> (\<not> f64_isfinite minValue \<or> \<not> f64_isfinite maxValue \<or> f64_less minValue f64_zero))) (\<lambda>_.
     bind get_str (\<lambda>spec.
     ret \<lparr>rr_kind = kind, rr_level = level, rr_minValue = minValue, rr_maxValue = maxValue,
          rr_spec = spec\<rparr>))))))"

definition requirement_fits :: "ResourceRequirement \<Rightarrow> bool" where
  "requirement_fits r \<longleftrightarrow> f64_isfinite (rr_minValue r) \<and> f64_isfinite (rr_maxValue r) \<and>
     \<not> f64_less (rr_minValue r) f64_zero \<and> size_fits (rr_spec r)"

interpretation requirement_wire: codec put_requirement get_requirement requirement_fits
  by unfold_locales
    (simp add: put_requirement_def get_requirement_def requirement_fits_def read_back enum_read_back)

definition put_binding :: "ResourceBinding \<Rightarrow> bytes" where
  "put_binding b = put_enum resourceKind_code (rb_kind b) @ put_f64 (rb_amount b) @ put_str (rb_qualifier b)"

definition get_binding :: "ResourceBinding reader" where
  "get_binding =
     bind (readEnum 16 resourceKind_values) (\<lambda>kind.
     bind get_f64 (\<lambda>amount.
     bind (require (\<not> (\<not> f64_isfinite amount \<or> f64_less amount f64_zero))) (\<lambda>_.
     bind get_str (\<lambda>qualifier.
     ret \<lparr>rb_kind = kind, rb_amount = amount, rb_qualifier = qualifier\<rparr>))))"

definition binding_fits :: "ResourceBinding \<Rightarrow> bool" where
  "binding_fits b \<longleftrightarrow> f64_isfinite (rb_amount b) \<and> \<not> f64_less (rb_amount b) f64_zero \<and> size_fits (rb_qualifier b)"

interpretation binding_wire: codec put_binding get_binding binding_fits
  by unfold_locales
    (simp add: put_binding_def get_binding_def binding_fits_def read_back enum_read_back)

interpretation requirements_wire:
  codec "put_vec put_requirement" "get_vec get_requirement" "vec_fits requirement_fits"
  by (rule requirement_wire.vec_codec)

interpretation bindings_wire: codec "put_vec put_binding" "get_vec get_binding" "vec_fits binding_fits"
  by (rule binding_wire.vec_codec)

definition put_contract :: "ResourceContract \<Rightarrow> bytes" where
  "put_contract c =
     put_id (rc_id c) @ put_id (rc_generation c) @ put_vec put_requirement (rc_reqs c) @
     put_id (rg_contractId (rc_grant c)) @ put_id (rg_contractGeneration (rc_grant c)) @
     put_enum grantStatus_code (rg_status (rc_grant c)) @ put_bool (rg_released (rc_grant c)) @
     put_vec put_binding (rg_bindings (rc_grant c))"

definition get_contract :: "arg_order \<Rightarrow> ResourceContract reader" where
  "get_contract ord =
     bind (get_args ord get_id get_id) (\<lambda>(i, g).
     bind (get_vec get_requirement) (\<lambda>reqs.
     bind get_id (\<lambda>contractId.
     bind get_id (\<lambda>contractGeneration.
     bind (readEnum 5 grantStatus_values) (\<lambda>status.
     bind get_bool (\<lambda>released.
     bind (get_vec get_binding) (\<lambda>bindings.
     ret ((new_contract i g)\<lparr>rc_reqs := reqs,
            rc_grant := \<lparr>rg_contractId = contractId, rg_contractGeneration = contractGeneration,
              rg_status = status, rg_bindings = bindings, rg_released = released\<rparr>\<rparr>))))))))"

definition contract_fits :: "ResourceContract \<Rightarrow> bool" where
  "contract_fits c \<longleftrightarrow> vec_fits requirement_fits (rc_reqs c) \<and> vec_fits binding_fits (rg_bindings (rc_grant c))"

text \<open>What the decoder makes of a contract when the compiler reads the second argument first.\<close>

definition swap_ids :: "'a unique_value \<Rightarrow> 'b unique_value" where
  "swap_ids x = UniqueValue (toU64 x)"

definition contract_read :: "arg_order \<Rightarrow> ResourceContract \<Rightarrow> ResourceContract" where
  "contract_read ord c =
     (case ord of
        Left_to_right \<Rightarrow> c
      | Right_to_left \<Rightarrow> c\<lparr>rc_id := swap_ids (rc_generation c), rc_generation := swap_ids (rc_id c)\<rparr>)"

lemma get_id_put_other: "bind get_id g (put_id x @ zs) = g (swap_ids x) zs"
  by (simp add: get_id_def put_id_def swap_ids_def bind_assoc u64.bind_put fromU64_def)

lemma get_args_ids:
  "bind (get_args ord get_id get_id) k (put_id a @ put_id b @ ys) =
     (case ord of Left_to_right \<Rightarrow> k (a, b) | Right_to_left \<Rightarrow> k (swap_ids b, swap_ids a)) ys"
proof (cases ord)
  case Left_to_right
  then show ?thesis by (simp add: get_args_def bind_assoc ident.bind_put)
next
  case Right_to_left
  then show ?thesis by (simp add: get_args_def bind_assoc get_id_put_other)
qed

lemma get_contract_put:
  "contract_fits c \<Longrightarrow> get_contract ord (put_contract c @ ys) = Done (contract_read ord c) ys"
  by (cases ord)
    (simp_all add: put_contract_def get_contract_def contract_fits_def contract_read_def new_contract_def
      get_args_ids requirements_wire.bind_put bindings_wire.bind_put read_back enum_read_back)

interpretation contract_wire: codec put_contract "get_contract Left_to_right" contract_fits
  by unfold_locales (simp add: get_contract_put contract_read_def)

section \<open>Dependencies\<close>

definition put_def :: "DependencyDef \<Rightarrow> bytes" where
  "put_def d = put_id (dd_dependsOn d) @ put_enum dependencyRequirement_code (dd_requirement d) @
     put_enum dependencyReady_code (dd_readyWhen d) @ put_str (dd_artifactKey d)"

definition get_def :: "DependencyDef reader" where
  "get_def =
     bind get_id (\<lambda>dependsOn.
     bind (readEnum 1 dependencyRequirement_values) (\<lambda>requirement.
     bind (readEnum 2 dependencyReady_values) (\<lambda>readyWhen.
     bind get_str (\<lambda>key.
     ret \<lparr>dd_dependsOn = dependsOn, dd_requirement = requirement, dd_readyWhen = readyWhen,
          dd_artifactKey = key\<rparr>))))"

definition put_state :: "DependencyState \<Rightarrow> bytes" where
  "put_state s = put_enum dependencyStatus_code (ds_status s) @ put_id (ds_observedGeneration s) @ put_str (ds_detail s)"

definition get_state :: "DependencyState reader" where
  "get_state =
     bind (readEnum 4 dependencyStatus_values) (\<lambda>status.
     bind get_id (\<lambda>g.
     bind get_str (\<lambda>detail.
     ret \<lparr>ds_status = status, ds_observedGeneration = g, ds_detail = detail\<rparr>)))"

interpretation def_wire: codec put_def get_def "\<lambda>d. size_fits (dd_artifactKey d)"
  by unfold_locales (simp add: put_def_def get_def_def read_back enum_read_back)

interpretation state_wire: codec put_state get_state "\<lambda>s. size_fits (ds_detail s)"
  by unfold_locales (simp add: put_state_def get_state_def read_back enum_read_back)

interpretation defs_wire: codec "put_vec put_def" "get_vec get_def" "vec_fits (\<lambda>d. size_fits (dd_artifactKey d))"
  by (rule def_wire.vec_codec)

text \<open>
  Every definition read appends a default state; the states are then stored by index.
  \<open>setStateForTest\<close> indexes with \<open>at()\<close> and is \<open>noexcept\<close>: an index out of range
  terminates the process.
\<close>

definition addDefForTest :: "DependencyDef \<Rightarrow> DependencySet \<Rightarrow> DependencySet" where
  "addDefForTest d s = s\<lparr>dset_defs := dset_defs s @ [d], dset_states := dset_states s @ [default_dependency_state]\<rparr>"

definition setStateForTest :: "nat \<Rightarrow> DependencyState \<Rightarrow> DependencySet \<Rightarrow> DependencySet option" where
  "setStateForTest i st s =
     (if i < length (dset_states s) then Some (s\<lparr>dset_states := (dset_states s)[i := st]\<rparr>) else None)"

fun get_states :: "nat \<Rightarrow> nat \<Rightarrow> DependencySet \<Rightarrow> DependencySet reader" where
  "get_states i 0 s = ret s"
| "get_states i (Suc n) s = bind get_state (\<lambda>st.
     case setStateForTest i st s of None \<Rightarrow> (\<lambda>_. Terminated) | Some s' \<Rightarrow> get_states (Suc i) n s')"

definition put_deps :: "DependencySet \<Rightarrow> bytes" where
  "put_deps s = put_id (dset_id s) @ put_id (dset_gen s) @ put_vec put_def (dset_defs s) @
     put_vec put_state (dset_states s)"

definition get_deps :: "arg_order \<Rightarrow> DependencySet reader" where
  "get_deps ord =
     bind (get_args ord get_id get_id) (\<lambda>(i, g).
     bind (get_vec get_def) (\<lambda>defs.
     bind get_u32 (\<lambda>ns.
     get_states 0 (unat ns) (fold addDefForTest defs (new_dependency_set i g)))))"

lemma fold_addDefForTest:
  "fold addDefForTest ds s = s\<lparr>dset_defs := dset_defs s @ ds,
     dset_states := dset_states s @ replicate (length ds) default_dependency_state\<rparr>"
  by (induction ds arbitrary: s) (simp_all add: addDefForTest_def replicate_append_same)

lemma get_states_put:
  assumes "list_all (\<lambda>st. size_fits (ds_detail st)) sts"
  shows "get_states (length pre) (length sts) (s\<lparr>dset_states := pre @ rest\<rparr>) (concat (map put_state sts) @ ys) =
    (if length sts \<le> length rest
     then Done (s\<lparr>dset_states := pre @ sts @ drop (length sts) rest\<rparr>) ys else Terminated)"
  using assms
proof (induction sts arbitrary: pre rest)
  case (Cons st sts)
  show ?case
  proof (cases rest)
    case Nil
    with Cons.prems show ?thesis by (simp add: state_wire.bind_put setStateForTest_def)
  next
    case (Cons r rs)
    with Cons.IH [of "pre @ [st]" rs] Cons.prems show ?thesis
      by (simp add: state_wire.bind_put setStateForTest_def)
  qed
qed simp

definition deps_fits :: "DependencySet \<Rightarrow> bool" where
  "deps_fits s \<longleftrightarrow> vec_fits (\<lambda>d. size_fits (dd_artifactKey d)) (dset_defs s) \<and>
     vec_fits (\<lambda>st. size_fits (ds_detail st)) (dset_states s)"

definition deps_read :: "arg_order \<Rightarrow> DependencySet \<Rightarrow> DependencySet" where
  "deps_read ord s =
     (case ord of
        Left_to_right \<Rightarrow> s
      | Right_to_left \<Rightarrow> s\<lparr>dset_id := swap_ids (dset_gen s), dset_gen := swap_ids (dset_id s)\<rparr>)"

lemma get_deps_put:
  assumes "deps_fits s"
  shows "get_deps ord (put_deps s @ ys) =
    (if length (dset_states s) \<le> length (dset_defs s)
     then Done ((deps_read ord s)\<lparr>dset_states := dset_states s @
            replicate (length (dset_defs s) - length (dset_states s)) default_dependency_state\<rparr>) ys
     else Terminated)"
proof -
  have fits: "vec_fits (\<lambda>d. size_fits (dd_artifactKey d)) (dset_defs s)"
    "list_all (\<lambda>st. size_fits (ds_detail st)) (dset_states s)" "length (dset_states s) < 2 ^ 32"
    using assms by (simp_all add: deps_fits_def vec_fits_nat)
  let ?d = "\<lambda>i g. fold addDefForTest (dset_defs s) (new_dependency_set i g)"
  let ?rest = "replicate (length (dset_defs s)) default_dependency_state"
  have split: "?d i g = \<lparr>dset_id = i, dset_gen = g, dset_defs = dset_defs s, dset_states = []\<rparr>
      \<lparr>dset_states := [] @ ?rest\<rparr>" for i g
    by (simp add: fold_addDefForTest new_dependency_set_def)
  have "get_states 0 (length (dset_states s)) (?d i g) (concat (map put_state (dset_states s)) @ ys) =
    (if length (dset_states s) \<le> length (dset_defs s)
     then Done \<lparr>dset_id = i, dset_gen = g, dset_defs = dset_defs s, dset_states = dset_states s @
            replicate (length (dset_defs s) - length (dset_states s)) default_dependency_state\<rparr> ys
     else Terminated)" for i g
    using get_states_put [OF fits(2), of "[]" ?rest
        "\<lparr>dset_id = i, dset_gen = g, dset_defs = dset_defs s, dset_states = []\<rparr>" ys]
    unfolding split by simp
  then show ?thesis
    using fits by (cases ord)
      (simp_all add: put_deps_def get_deps_def get_args_ids defs_wire.bind_put u32.bind_put
        put_vec_def [of put_state] unat_of_nat deps_read_def)
qed

interpretation deps_wire: codec put_deps "get_deps Left_to_right" "\<lambda>s. deps_fits s \<and> dset_wf s"
  by unfold_locales (simp add: get_deps_put dset_wf_def deps_read_def)

section \<open>Priority and progress\<close>

definition put_priority :: "Priority \<Rightarrow> bytes" where
  "put_priority p =
     put_id (pr_cls p) @ put_id (pr_gen p) @ put_enum priorityTier_code (pr_baseTier p) @
     put_i64 (scast (pr_baseValue p)) @ put_i64 (scast (pr_promotion p)) @
     put_bool (pr_starved p) @ put_bool (pr_preemptible p) @ put_bool (pr_protected p)"

definition get_priority :: "Priority reader" where
  "get_priority =
     bind get_id (\<lambda>cls.
     bind get_id (\<lambda>gen.
     bind (readEnum 5 priorityTier_values) (\<lambda>tier.
     bind get_i64 (\<lambda>baseV.
     bind get_i64 (\<lambda>promo.
     bind get_bool (\<lambda>starved.
     bind get_bool (\<lambda>preemptible.
     bind get_bool (\<lambda>protected.
     ret ((setBase cls PriorityTier.NORMAL 0 default_priority)
            \<lparr>pr_gen := gen, pr_baseTier := tier, pr_baseValue := ucast baseV, pr_promotion := ucast promo,
             pr_starved := starved, pr_preemptible := preemptible, pr_protected := protected\<rparr>)))))))))"

lemma narrow_int [simp]: "ucast (scast (x :: i32) :: i64) = x"
  by (rule bit_word_eqI) (auto simp: bit_simps)

interpretation priority_wire: codec put_priority get_priority "\<lambda>_. True"
  by unfold_locales
    (simp add: put_priority_def get_priority_def read_back enum_read_back setBase_def default_priority_def)

definition put_progress :: "Progress \<Rightarrow> bytes" where
  "put_progress p =
     put_u64 (pg_completed p) @ put_enum totalKind_code (pg_totalKind p) @ put_u64 (pg_total p) @
     put_u64 (pg_checkpointed p) @ put_enum progressProvenance_code (pg_provenance p) @
     put_u64 (pg_lastAuthoritativeGeneration p) @ put_bool (pg_monotonic p)"

definition get_progress :: "Progress reader" where
  "get_progress =
     bind get_u64 (\<lambda>completed.
     bind (readEnum 1 totalKind_values) (\<lambda>kind.
     bind get_u64 (\<lambda>tot.
     bind get_u64 (\<lambda>checkpointed.
     bind (readEnum 3 progressProvenance_values) (\<lambda>prov.
     bind get_u64 (\<lambda>gen.
     bind get_bool (\<lambda>monotonic.
     ret \<lparr>pg_completed = completed, pg_totalKind = kind, pg_total = tot, pg_checkpointed = checkpointed,
          pg_provenance = prov, pg_lastAuthoritativeGeneration = gen, pg_monotonic = monotonic\<rparr>)))))))"

interpretation progress_wire: codec put_progress get_progress "\<lambda>_. True"
  by unfold_locales (simp add: put_progress_def get_progress_def read_back enum_read_back)

section \<open>Episodes and history\<close>

definition put_episode :: "Episode \<Rightarrow> bytes" where
  "put_episode e =
     put_id (ep_id e) @ put_id (ep_generation e) @ put_enum episodeState_code (ep_state e) @
     put_id (ep_owner e) @ put_id (ep_ownerGeneration e) @
     put_id (ep_worker e) @ put_id (ep_boot e) @
     put_id (eh_worker (ep_handle e)) @ put_id (eh_boot (ep_handle e)) @
     put_u64 (eh_attemptGeneration (ep_handle e)) @ put_str (eh_intent (ep_handle e)) @
     put_id (ep_restartGeneration e) @ put_id (ep_recoveryGeneration e) @
     put_id (ep_checkpoint e) @ put_id (ep_checkpointGeneration e) @
     put_id (ep_migrationId e) @ put_id (ep_migrationGeneration e) @
     put_progress (ep_progress e) @ put_str (ep_intent e) @
     put_bool (ep_authoritative e) @ put_bool (ep_failed e) @ put_bool (ep_cancelled e) @
     put_bool (ep_completed e) @ put_bool (ep_workerLost e)"

definition get_handle :: "ExecutionHandle reader" where
  "get_handle =
     bind get_id (\<lambda>worker.
     bind get_id (\<lambda>boot.
     bind get_u64 (\<lambda>attempt.
     bind get_str (\<lambda>intent.
     ret \<lparr>eh_worker = worker, eh_boot = boot, eh_attemptGeneration = attempt, eh_intent = intent\<rparr>))))"

definition get_episode :: "Episode reader" where
  "get_episode =
     bind get_id (\<lambda>i.
     bind get_id (\<lambda>gen.
     bind (readEnum 9 episodeState_values) (\<lambda>st.
     bind get_id (\<lambda>owner.
     bind get_id (\<lambda>ownerGen.
     bind get_id (\<lambda>worker.
     bind get_id (\<lambda>boot.
     bind get_handle (\<lambda>handle.
     bind get_id (\<lambda>restartGen.
     bind get_id (\<lambda>recoveryGen.
     bind get_id (\<lambda>checkpoint.
     bind get_id (\<lambda>checkpointGen.
     bind get_id (\<lambda>migId.
     bind get_id (\<lambda>migGen.
     bind get_progress (\<lambda>progress.
     bind get_str (\<lambda>intent.
     bind get_bool (\<lambda>authoritative.
     bind get_bool (\<lambda>failed.
     bind get_bool (\<lambda>cancelled.
     bind get_bool (\<lambda>completed.
     bind get_bool (\<lambda>lost.
     ret \<lparr>ep_id = i, ep_generation = gen, ep_state = st, ep_owner = owner,
          ep_ownerGeneration = ownerGen, ep_worker = worker, ep_boot = boot, ep_handle = handle,
          ep_restartGeneration = restartGen, ep_recoveryGeneration = recoveryGen,
          ep_checkpoint = checkpoint, ep_checkpointGeneration = checkpointGen,
          ep_migrationId = migId, ep_migrationGeneration = migGen, ep_progress = progress,
          ep_intent = intent, ep_authoritative = authoritative, ep_failed = failed,
          ep_cancelled = cancelled, ep_completed = completed, ep_workerLost = lost\<rparr>)))))))))))))))))))))"

definition episode_fits :: "Episode \<Rightarrow> bool" where
  "episode_fits e \<longleftrightarrow> size_fits (eh_intent (ep_handle e)) \<and> size_fits (ep_intent e)"

lemma get_handle_put:
  "size_fits (eh_intent h) \<Longrightarrow>
   bind get_handle k (put_id (eh_worker h) @ put_id (eh_boot h) @ put_u64 (eh_attemptGeneration h) @
     put_str (eh_intent h) @ ys) = k h ys"
  by (cases h) (simp add: get_handle_def bind_assoc read_back)

interpretation episode_wire: codec put_episode get_episode episode_fits
  by unfold_locales
    (simp add: put_episode_def get_episode_def episode_fits_def read_back enum_read_back
      progress_wire.bind_put get_handle_put)

interpretation episodes_wire: codec "put_vec put_episode" "get_vec get_episode" "vec_fits episode_fits"
  by (rule episode_wire.vec_codec)

definition put_record :: "TransitionRecord \<Rightarrow> bytes" where
  "put_record h = put_enum workloadState_code (tr_from h) @ put_enum workloadState_code (tr_to h) @
     put_id (tr_generation h) @ put_u64 (tr_timestampMs h) @ put_str (tr_reason h) @
     put_enum outcome_code (tr_outcome h)"

definition get_record :: "TransitionRecord reader" where
  "get_record =
     bind (readEnum 25 workloadState_values) (\<lambda>from_st.
     bind (readEnum 25 workloadState_values) (\<lambda>to.
     bind get_id (\<lambda>gen.
     bind get_u64 (\<lambda>time.
     bind get_str (\<lambda>reason.
     bind (readEnum 36 outcome_values) (\<lambda>out.
     ret \<lparr>tr_from = from_st, tr_to = to, tr_generation = gen, tr_timestampMs = time,
          tr_reason = reason, tr_outcome = out\<rparr>))))))"

interpretation record_wire: codec put_record get_record "\<lambda>h. size_fits (tr_reason h)"
  by unfold_locales (simp add: put_record_def get_record_def read_back enum_read_back)

interpretation history_wire: codec "put_vec put_record" "get_vec get_record" "vec_fits (\<lambda>h. size_fits (tr_reason h))"
  by (rule record_wire.vec_codec)

section \<open>The workload\<close>

definition encode :: "Workload \<Rightarrow> bytes" where
  "encode w =
     put_id (wl_id w) @ put_id (wl_generation w) @ put_id (wl_revision w) @
     put_enum workloadState_code (wl_state w) @ put_str (wl_name w) @ put_str (wl_intent w) @
     put_policy (wl_policy w) @ put_contract (wl_contract w) @ put_deps (wl_deps w) @
     put_priority (wl_priority w) @ put_progress (wl_progress w) @
     put_id (wl_owner w) @ put_id (wl_ownerGeneration w) @ put_id (wl_epoch w) @
     put_u32 (wl_restartCount w) @ put_id (wl_restartGen w) @
     put_id (wl_migrationId w) @ put_id (wl_migrationGen w) @ put_id (wl_completionGen w) @
     put_bool (wl_cancellationRequested w) @ put_bool (wl_cancelledFinal w) @
     put_bool (wl_cancellationWasRejected w) @ put_str (wl_lastRestartReason w) @
     put_id (wl_lastSourceEpisode w) @
     put_vec put_episode (wl_episodes w) @ put_vec put_record (wl_history w)"

definition decode_fields :: "arg_order \<Rightarrow> arg_order \<Rightarrow> Workload reader" where
  "decode_fields oc od =
     bind get_id (\<lambda>i.
     bind get_id (\<lambda>gen.
     bind get_id (\<lambda>rev.
     bind (readEnum 25 workloadState_values) (\<lambda>st.
     bind get_str (\<lambda>name.
     bind get_str (\<lambda>intent.
     bind get_policy (\<lambda>policy.
     bind (get_contract oc) (\<lambda>contract.
     bind (get_deps od) (\<lambda>deps.
     bind get_priority (\<lambda>priority.
     bind get_progress (\<lambda>progress.
     bind get_id (\<lambda>owner.
     bind get_id (\<lambda>ownerGen.
     bind get_id (\<lambda>epoch.
     bind get_u32 (\<lambda>restartCount.
     bind get_id (\<lambda>restartGen.
     bind get_id (\<lambda>migId.
     bind get_id (\<lambda>migGen.
     bind get_id (\<lambda>complGen.
     bind get_bool (\<lambda>requested.
     bind get_bool (\<lambda>final.
     bind get_bool (\<lambda>wasRejected.
     bind get_str (\<lambda>reason.
     bind get_id (\<lambda>source.
     bind (get_vec get_episode) (\<lambda>episodes.
     bind (get_vec get_record) (\<lambda>history.
     ret (default_workload\<lparr>wl_id := i, wl_generation := gen, wl_revision := rev, wl_state := st,
       wl_name := name, wl_intent := intent, wl_policy := policy, wl_contract := contract,
       wl_deps := deps, wl_priority := priority, wl_progress := progress, wl_owner := owner,
       wl_ownerGeneration := ownerGen, wl_epoch := epoch, wl_restartCount := restartCount,
       wl_restartGen := restartGen, wl_migrationId := migId, wl_migrationGen := migGen,
       wl_completionGen := complGen, wl_cancellationRequested := requested,
       wl_cancelledFinal := final, wl_cancellationWasRejected := wasRejected,
       wl_lastRestartReason := reason, wl_lastSourceEpisode := source, wl_episodes := episodes,
       wl_history := history\<rparr>)))))))))))))))))))))))))))"

definition decode :: "arg_order \<Rightarrow> arg_order \<Rightarrow> Workload reader" where
  "decode oc od =
     bind (decode_fields oc od) (\<lambda>w.
     bind (\<lambda>xs. require (xs = []) xs) (\<lambda>_.
     bind (require (\<not> (\<not> valid (wl_id w) \<or> toU64 (wl_generation w) = 0 \<or> toU64 (wl_revision w) = 0))) (\<lambda>_.
     ret w)))"

definition workload_fits :: "Workload \<Rightarrow> bool" where
  "workload_fits w \<longleftrightarrow> valid (wl_id w) \<and> toU64 (wl_generation w) \<noteq> 0 \<and> toU64 (wl_revision w) \<noteq> 0 \<and>
     size_fits (wl_name w) \<and> size_fits (wl_intent w) \<and> size_fits (wl_lastRestartReason w) \<and>
     contract_fits (wl_contract w) \<and> deps_fits (wl_deps w) \<and>
     vec_fits episode_fits (wl_episodes w) \<and> vec_fits (\<lambda>h. size_fits (tr_reason h)) (wl_history w) \<and>
     size_fits (encode w)"

text \<open>What a decoder can restore: everything but the migration counter, which is not written.\<close>

definition restored :: "arg_order \<Rightarrow> arg_order \<Rightarrow> Workload \<Rightarrow> Workload" where
  "restored oc od w = w\<lparr>wl_contract := contract_read oc (wl_contract w), wl_deps := deps_read od (wl_deps w),
     wl_episodeCounterForMigration := 2000\<rparr>"

lemma bind_contract_put:
  "contract_fits c \<Longrightarrow> bind (get_contract ord) k (put_contract c @ ys) = k (contract_read ord c) ys"
  by (rule bind_Done) (rule get_contract_put)

lemma bind_deps_put:
  "deps_fits s \<Longrightarrow> dset_wf s \<Longrightarrow> bind (get_deps ord) k (put_deps s @ ys) = k (deps_read ord s) ys"
  by (rule bind_Done) (cases ord; simp add: get_deps_put dset_wf_def deps_read_def)

lemmas parts_read_back = policy_wire.bind_put bind_contract_put bind_deps_put priority_wire.bind_put
  progress_wire.bind_put episodes_wire.bind_put history_wire.bind_put

lemma decode_fields_encode:
  "workload_fits w \<Longrightarrow> dset_wf (wl_deps w) \<Longrightarrow> decode_fields oc od (encode w @ ys) = Done (restored oc od w) ys"
  by (simp add: encode_def decode_fields_def workload_fits_def parts_read_back read_back enum_read_back
      restored_def default_workload_def)

lemma decode_encode:
  assumes "workload_fits w" and "dset_wf (wl_deps w)"
  shows "decode oc od (encode w) = Done (restored oc od w) []"
proof -
  have "decode_fields oc od (encode w) = Done (restored oc od w) []"
    using decode_fields_encode [OF assms, of oc od "[]"] by simp
  moreover have "valid (wl_id (restored oc od w)) \<and> toU64 (wl_generation (restored oc od w)) \<noteq> 0 \<and>
      toU64 (wl_revision (restored oc od w)) \<noteq> 0"
    using assms(1) by (simp add: workload_fits_def restored_def)
  ultimately show ?thesis
    unfolding decode_def by (simp add: bind_Done)
qed

end
