(* ===== verification/Hooks.thy ===== *)
theory Hooks
  imports Codec
begin

text \<open>
  The direct setters of the classes: support for the codec, for reconstruction and for tests. They
  write one member and check nothing, so they are not among the calls of \<open>Workload_Steps\<close>; the
  last section shows which guarantee each of them can break.
\<close>

section \<open>The parts of an aggregate\<close>

definition contract_addRequirementForTest :: "ResourceRequirement \<Rightarrow> ResourceContract \<Rightarrow> ResourceContract" where
  "contract_addRequirementForTest req c = c\<lparr>rc_reqs := rc_reqs c @ [req]\<rparr>"

definition contract_setGrantForTest :: "ResourceGrant \<Rightarrow> ResourceContract \<Rightarrow> ResourceContract" where
  "contract_setGrantForTest g c = c\<lparr>rc_grant := g\<rparr>"

definition contract_setRequirementsNoAdvance :: "ResourceRequirement list \<Rightarrow> ResourceContract \<Rightarrow> ResourceContract" where
  "contract_setRequirementsNoAdvance reqs c = c\<lparr>rc_reqs := reqs\<rparr>"

definition contract_setGenerationNoAdvance :: "ResourceContractGeneration \<Rightarrow> ResourceContract \<Rightarrow> ResourceContract" where
  "contract_setGenerationNoAdvance g c = c\<lparr>rc_generation := g\<rparr>"

definition contract_setIdForTest :: "ResourceContractId \<Rightarrow> ResourceContract \<Rightarrow> ResourceContract" where
  "contract_setIdForTest i c = c\<lparr>rc_id := i\<rparr>"

definition deps_setIdForTest :: "DependencySetId \<Rightarrow> DependencySet \<Rightarrow> DependencySet" where
  "deps_setIdForTest i s = s\<lparr>dset_id := i\<rparr>"

definition deps_setGenerationForTest :: "DependencyGeneration \<Rightarrow> DependencySet \<Rightarrow> DependencySet" where
  "deps_setGenerationForTest g s = s\<lparr>dset_gen := g\<rparr>"

definition priority_setForTest :: "i32 \<Rightarrow> i32 \<Rightarrow> Priority \<Rightarrow> Priority" where
  "priority_setForTest base promo p = p\<lparr>pr_baseValue := base, pr_promotion := promo\<rparr>"

definition setPriorityGen :: "PriorityGeneration \<Rightarrow> Priority \<Rightarrow> Priority" where
  "setPriorityGen g p = p\<lparr>pr_gen := g\<rparr>"

definition setBaseTier :: "PriorityTier \<Rightarrow> Priority \<Rightarrow> Priority" where
  "setBaseTier t p = p\<lparr>pr_baseTier := t\<rparr>"

definition setPriorityInts :: "i32 \<Rightarrow> i32 \<Rightarrow> Priority \<Rightarrow> Priority" where
  "setPriorityInts base promo p = p\<lparr>pr_baseValue := base, pr_promotion := promo\<rparr>"

definition setFlagsForTest :: "bool \<Rightarrow> bool \<Rightarrow> bool \<Rightarrow> Priority \<Rightarrow> Priority" where
  "setFlagsForTest starved preemptible protectedFlag p =
     p\<lparr>pr_starved := starved, pr_preemptible := preemptible, pr_protected := protectedFlag\<rparr>"

definition regressToForTest :: "u64 \<Rightarrow> Progress \<Rightarrow> Progress" where
  "regressToForTest v p = p\<lparr>pg_completed := v\<rparr>"

section \<open>The aggregate\<close>

definition setPolicyForTest :: "Policy \<Rightarrow> Workload \<Rightarrow> Workload" where
  "setPolicyForTest p w = w\<lparr>wl_policy := p\<rparr>"

definition workload_setStateForTest :: "WorkloadState \<Rightarrow> Workload \<Rightarrow> Workload" where
  "workload_setStateForTest s w = w\<lparr>wl_state := s\<rparr>"

definition workload_setGenerationForTest :: "WorkloadGeneration \<Rightarrow> Workload \<Rightarrow> Workload" where
  "workload_setGenerationForTest g w = w\<lparr>wl_generation := g\<rparr>"

definition setOwnerForTest :: "OwnerId \<Rightarrow> OwnerGeneration \<Rightarrow> Workload \<Rightarrow> Workload" where
  "setOwnerForTest ow og w = w\<lparr>wl_owner := ow, wl_ownerGeneration := og\<rparr>"

definition advanceRevision :: "Workload \<Rightarrow> Workload" where
  "advanceRevision w = w\<lparr>wl_revision := next_gen (wl_revision w)\<rparr>"

definition finalTerminal :: "Workload \<Rightarrow> bool" where
  "finalTerminal w \<longleftrightarrow> isTerminal (wl_state w)"

section \<open>The buffers of the codec\<close>

text \<open>A reader is its unread bytes, a writer the bytes it holds.\<close>

definition writer_raw :: "bytes \<Rightarrow> bytes \<Rightarrow> bytes" where
  "writer_raw xs buf = buf @ xs"

definition writer_size :: "bytes \<Rightarrow> nat" where
  "writer_size buf = length buf"

definition reader_empty :: "bytes \<Rightarrow> bool" where
  "reader_empty unread \<longleftrightarrow> unread = []"

definition reader_remaining :: "bytes \<Rightarrow> nat" where
  "reader_remaining unread = length unread"

definition reader_position :: "bytes \<Rightarrow> bytes \<Rightarrow> nat" where
  "reader_position whole unread = length whole - length unread"

lemma written: "writer_size (writer_raw xs buf) = writer_size buf + length xs"
  by (simp add: writer_raw_def writer_size_def)

lemma empty_iff_nothing_remains: "reader_empty unread \<longleftrightarrow> reader_remaining unread = 0"
  by (simp add: reader_empty_def reader_remaining_def)

text \<open>A read that succeeds moves the position by what it takes off the unread bytes.\<close>

lemma position_after: "reader_position (taken @ unread) unread = length taken"
  by (simp add: reader_position_def)

section \<open>What the setters can break\<close>

text \<open>
  Each hook stays in its member and checks nothing: a terminal workload is reopened by setting its
  state.
\<close>

lemma state_hook_reopens:
  "finalTerminal w \<Longrightarrow> \<not> finalTerminal (workload_setStateForTest WorkloadState.READY w)"
  by (simp add: finalTerminal_def workload_setStateForTest_def)

text \<open>Progress only grows through its own operations; the hook rewinds it.\<close>

lemma regress_rewinds: "pg_completed (regressToForTest v p) = v"
  by (simp add: regressToForTest_def)

lemma setters_keep_identity:
  "wl_id (setPolicyForTest p w) = wl_id w" "wl_id (workload_setStateForTest s w) = wl_id w"
  "wl_id (workload_setGenerationForTest g w) = wl_id w" "wl_id (setOwnerForTest ow og w) = wl_id w"
  "wl_id (advanceRevision w) = wl_id w"
  by (simp_all add: setPolicyForTest_def workload_setStateForTest_def workload_setGenerationForTest_def
      setOwnerForTest_def advanceRevision_def)

text \<open>The engine creates a workload and sets its policy through the hook.\<close>

lemma policy_hook: "(create i name intent)\<lparr>wl_policy := p\<rparr> = setPolicyForTest p (create i name intent)"
  by (simp add: setPolicyForTest_def)

end
