(* ===== verification/Persistence.thy ===== *)
theory Persistence
  imports Codec Workload_Safety
begin

text \<open>
  The framed record of a workload (\<open>encodeWorkload\<close> and \<open>decodeWorkload\<close> in
  \<open>persistence.cpp\<close>): magic, version, length, payload, checksum. The lemmas show what comes
  back from an intact record and that truncated, corrupted and impossible records are rejected, and
  where that protection ends.
\<close>

section \<open>The framed record\<close>

definition kPersistenceFormatVersion :: u32 where
  "kPersistenceFormatVersion = 1"

definition kPersistenceMagic :: u32 where
  "kPersistenceMagic = 0x57464252"

definition encodeWorkload :: "Workload \<Rightarrow> bytes" where
  "encodeWorkload w =
     (let payload = encode w
      in put_u32 kPersistenceMagic @ put_u32 kPersistenceFormatVersion @
         put_u64 (word_of_nat (length payload)) @ payload @ put_u64 (fnv1a64 payload))"

definition read_frame :: "bytes reader" where
  "read_frame =
     bind get_u32 (\<lambda>magic.
     bind (require (magic = kPersistenceMagic)) (\<lambda>_.
     bind get_u32 (\<lambda>version.
     bind (require (version = kPersistenceFormatVersion)) (\<lambda>_.
     bind get_u64 (\<lambda>payloadLen.
     bind (\<lambda>xs. require (\<not> unat payloadLen > length xs) xs) (\<lambda>_.
     bind (get_raw (unat payloadLen)) (\<lambda>payload.
     bind get_u64 (\<lambda>stored.
     bind (require (stored = fnv1a64 payload)) (\<lambda>_.
     ret payload)))))))))"

text \<open>
  The outcome and the workload \<open>decodeWorkload\<close> returns; \<open>None\<close> when the process is
  terminated. A \<open>CodecError\<close> is caught; the workload of a rejected record is the default one.
\<close>

definition decodeWorkload :: "arg_order \<Rightarrow> arg_order \<Rightarrow> bytes \<Rightarrow> (Outcome \<times> Workload) option" where
  "decodeWorkload oc od data =
     (case bind read_frame (\<lambda>payload _. decode oc od payload) data of
        Done w _ \<Rightarrow> Some (Outcome.ALLOW, w)
      | Codec_error \<Rightarrow> Some (Outcome.REJECT_UNKNOWN, default_workload)
      | Rejected out \<Rightarrow> Some (out, default_workload)
      | Terminated \<Rightarrow> None)"

section \<open>Intact records\<close>

lemma read_frame_intact:
  assumes "size_fits payload"
  shows "read_frame (put_u32 kPersistenceMagic @ put_u32 kPersistenceFormatVersion @
    put_u64 (word_of_nat (length payload)) @ payload @ put_u64 (fnv1a64 payload) @ junk) = Done payload junk"
proof -
  have "bind (\<lambda>xs. require (\<not> length payload > length xs) xs) k (payload @ zs) = k () (payload @ zs)"
    for k :: "unit \<Rightarrow> bytes reader" and zs
    by (rule bind_Done) simp
  then show ?thesis
    using assms
    by (simp add: read_frame_def read_back bind_Done get_raw_append)
qed

lemma decodeWorkload_frame:
  "size_fits (encode w) \<Longrightarrow> decodeWorkload oc od (encodeWorkload w @ junk) =
     (case decode oc od (encode w) of
        Done v _ \<Rightarrow> Some (Outcome.ALLOW, v)
      | Codec_error \<Rightarrow> Some (Outcome.REJECT_UNKNOWN, default_workload)
      | Rejected out \<Rightarrow> Some (out, default_workload)
      | Terminated \<Rightarrow> None)"
  by (simp add: decodeWorkload_def encodeWorkload_def Let_def bind_Done read_frame_intact)

lemma decodeWorkload_intact:
  "workload_fits w \<Longrightarrow> dset_wf (wl_deps w) \<Longrightarrow>
   decodeWorkload oc od (encodeWorkload w @ junk) = Some (Outcome.ALLOW, restored oc od w)"
  by (subst decodeWorkload_frame) (simp_all add: decode_encode, simp add: workload_fits_def)

lemma sample_running_fits: "workload_fits sample_running" "dset_wf (wl_deps sample_running)"
  by code_simp+

lemma restored_left_to_right:
  "restored Left_to_right Left_to_right w = w\<lparr>wl_episodeCounterForMigration := 2000\<rparr>"
  by (simp add: restored_def contract_read_def deps_read_def)

text \<open>
  C7. A workload with a valid identity and non-zero generation and revision, whose strings and
  vectors fit their length fields, whose resource minima and amounts are finite and not negative
  and which has a state for each dependency, is accepted back from its record. When the compiler
  evaluates the arguments of the two constructor calls from left to right, it is the workload
  itself, except that the counter of migration episodes, which is not part of the record, starts
  at 2000 again. In another order the contract or the dependency set has its identity and
  generation exchanged, and nothing else differs.
\<close>

theorem persistence_round_trip:
  assumes "workload_fits w" and "dset_wf (wl_deps w)"
  shows "decodeWorkload Left_to_right Left_to_right (encodeWorkload w) =
      Some (Outcome.ALLOW, w\<lparr>wl_episodeCounterForMigration := 2000\<rparr>) \<and>
    decodeWorkload oc od (encodeWorkload w) =
      Some (Outcome.ALLOW, w\<lparr>wl_contract := contract_read oc (wl_contract w),
        wl_deps := deps_read od (wl_deps w), wl_episodeCounterForMigration := 2000\<rparr>)"
  using decodeWorkload_intact [OF assms, of Left_to_right Left_to_right "[]"]
    decodeWorkload_intact [OF assms, of oc od "[]"]
  by (simp only: restored_left_to_right append_Nil2) (simp only: restored_def simp_thms)

theorem persistence_round_trip_witness:
  "decodeWorkload Left_to_right Left_to_right (encodeWorkload sample_running) =
    Some (Outcome.ALLOW, sample_running\<lparr>wl_episodeCounterForMigration := 2000\<rparr>)"
  using persistence_round_trip [OF sample_running_fits] by blast

text \<open>
  The record is not portable between compilers: when the
  arguments of the constructor calls in \<open>decode\<close> are evaluated from right to left, as C++
  allows, the same record is accepted with the identity and the generation of the resource
  contract exchanged, and likewise those of the dependency set.
\<close>

theorem round_trip_depends_on_argument_order:
  assumes "workload_fits w" and "dset_wf (wl_deps w)"
    and "decodeWorkload Right_to_left Right_to_left (encodeWorkload w) = Some (out, v)"
  shows "out = Outcome.ALLOW \<and>
    toU64 (rc_id (wl_contract v)) = toU64 (rc_generation (wl_contract w)) \<and>
    toU64 (rc_generation (wl_contract v)) = toU64 (rc_id (wl_contract w)) \<and>
    toU64 (dset_id (wl_deps v)) = toU64 (dset_gen (wl_deps w)) \<and>
    toU64 (dset_gen (wl_deps v)) = toU64 (dset_id (wl_deps w))"
  using decodeWorkload_intact [OF assms(1,2), of Right_to_left Right_to_left "[]"] assms(3)
  by (auto simp: restored_def contract_read_def deps_read_def swap_ids_def)

theorem round_trip_depends_on_argument_order_witness:
  "toU64 (rc_id (wl_contract (restored Right_to_left Right_to_left sample_running))) =
     toU64 (rc_generation (wl_contract sample_running))"
proof -
  have "decodeWorkload Right_to_left Right_to_left (encodeWorkload sample_running) =
      Some (Outcome.ALLOW, restored Right_to_left Right_to_left sample_running)"
    using decodeWorkload_intact [OF sample_running_fits, of Right_to_left Right_to_left "[]"] by simp
  from round_trip_depends_on_argument_order [OF sample_running_fits this] show ?thesis by blast
qed

text \<open>
  Bytes after the checksum are ignored: a record followed by anything is
  accepted as the record itself. (Trailing bytes inside the checksummed payload are rejected.)
\<close>

theorem trailing_bytes_accepted:
  assumes "workload_fits w" and "dset_wf (wl_deps w)"
  shows "decodeWorkload oc od (encodeWorkload w @ junk) = decodeWorkload oc od (encodeWorkload w)"
  using decodeWorkload_intact [OF assms, of oc od junk] decodeWorkload_intact [OF assms, of oc od "[]"]
  by simp

theorem trailing_bytes_accepted_witness:
  "decodeWorkload Left_to_right Left_to_right (encodeWorkload sample_running @ [1, 2, 3]) =
     decodeWorkload Left_to_right Left_to_right (encodeWorkload sample_running)"
  using sample_running_fits by (rule trailing_bytes_accepted)

section \<open>Damaged records\<close>

text \<open>A reader that stops early or rejects leaves the default workload.\<close>

lemma decodeWorkload_bad_frame:
  "read_frame data = Codec_error \<or> read_frame data = Rejected Outcome.REJECT_UNKNOWN \<Longrightarrow>
   decodeWorkload oc od data = Some (Outcome.REJECT_UNKNOWN, default_workload)"
  by (auto simp: decodeWorkload_def bind_def)

lemma get_short:
  "length xs < 4 \<Longrightarrow> get_u32 xs = Codec_error"
  "length xs < 8 \<Longrightarrow> get_u64 xs = Codec_error"
  by (simp_all add: get_u32_def get_u64_def need_def)

lemma get_long:
  "4 \<le> length xs \<Longrightarrow> \<exists>v. get_u32 xs = Done v (drop 4 xs)"
  "8 \<le> length xs \<Longrightarrow> \<exists>v. get_u64 xs = Done v (drop 8 xs)"
proof -
  have u8: "get_u8 ys = Done (hd ys) (tl ys)" if "ys \<noteq> []" for ys
    using that by (cases ys) simp_all
  show "\<exists>v. get_u32 xs = Done v (drop 4 xs)" if "4 \<le> length xs"
  proof -
    from that obtain a b c d ys where "xs = a # b # c # d # ys"
      by (auto simp: numeral_eq_Suc Suc_le_length_iff)
    then show ?thesis by (simp add: get_u32_def need_def bind_def)
  qed
  have loop: "\<exists>v. get_loop n r ys = Done v (drop n ys)" if "n \<le> length ys" for n r ys
    using that
  proof (induction n arbitrary: r ys)
    case (Suc n)
    then obtain y zs where "ys = y # zs" by (cases ys) auto
    with Suc.IH [of zs "push_bit 8 r OR ucast y"] Suc.prems show ?case
      by (simp add: bind_def)
  qed simp
  show "\<exists>v. get_u64 xs = Done v (drop 8 xs)" if "8 \<le> length xs"
    using loop [OF that] that by (simp add: get_u64_def need_def)
qed

text \<open>Reading the frame as one condition on the bytes.\<close>

definition word32_at :: "bytes \<Rightarrow> u32" where
  "word32_at xs = (case get_u32 xs of Done v _ \<Rightarrow> v | _ \<Rightarrow> 0)"

definition word64_at :: "bytes \<Rightarrow> u64" where
  "word64_at xs = (case get_u64 xs of Done v _ \<Rightarrow> v | _ \<Rightarrow> 0)"

lemma get_at:
  "4 \<le> length xs \<Longrightarrow> get_u32 xs = Done (word32_at xs) (drop 4 xs)"
  "8 \<le> length xs \<Longrightarrow> get_u64 xs = Done (word64_at xs) (drop 8 xs)"
  using get_long [of xs] by (auto simp: word32_at_def word64_at_def)

definition good_frame :: "bytes \<Rightarrow> bool" where
  "good_frame data \<longleftrightarrow> 24 \<le> length data \<and> word32_at data = kPersistenceMagic \<and>
     word32_at (drop 4 data) = kPersistenceFormatVersion \<and>
     (let n = unat (word64_at (drop 8 data))
      in n + 24 \<le> length data \<and> word64_at (drop (16 + n) data) = fnv1a64 (take n (drop 16 data)))"

lemma read_frame_cases:
  "read_frame data = (if good_frame data
     then Done (take (unat (word64_at (drop 8 data))) (drop 16 data))
            (drop (24 + unat (word64_at (drop 8 data))) data)
     else read_frame data) \<and>
   (\<not> good_frame data \<longrightarrow> read_frame data = Codec_error \<or> read_frame data = Rejected Outcome.REJECT_UNKNOWN)"
proof -
  let ?n = "unat (word64_at (drop 8 data))"
  consider (short) "length data < 4"
    | (magic) "4 \<le> length data" "word32_at data \<noteq> kPersistenceMagic"
    | (short2) "word32_at data = kPersistenceMagic" "4 \<le> length data" "length data < 8"
    | (version) "word32_at data = kPersistenceMagic" "8 \<le> length data"
        "word32_at (drop 4 data) \<noteq> kPersistenceFormatVersion"
    | (rest) "word32_at data = kPersistenceMagic" "8 \<le> length data"
        "word32_at (drop 4 data) = kPersistenceFormatVersion"
    by linarith
  then show ?thesis
  proof cases
    case rest
    consider (a) "length data < 16" | (b) "16 \<le> length data" "length data < 16 + ?n"
      | (c) "16 + ?n \<le> length data" "length data < 24 + ?n" | (d) "24 + ?n \<le> length data"
      by linarith
    then show ?thesis
    proof cases
      case a
      with rest show ?thesis
        by (auto simp: read_frame_def good_frame_def bind_def get_at get_short)
    next
      case b
      with rest show ?thesis
        by (auto simp: read_frame_def good_frame_def bind_def get_at Let_def require_def)
    next
      case c
      with rest show ?thesis
        by (auto simp: read_frame_def good_frame_def bind_def get_at get_short Let_def get_raw_def need_def
            require_def)
    next
      case d
      with rest show ?thesis
        by (auto simp: read_frame_def good_frame_def bind_def get_at Let_def get_raw_def need_def
            require_def add.commute)
    qed
  qed (auto simp: read_frame_def good_frame_def bind_def get_at get_short)
qed

lemma bad_frame_rejected:
  "\<not> good_frame data \<Longrightarrow> decodeWorkload oc od data = Some (Outcome.REJECT_UNKNOWN, default_workload)"
  using read_frame_cases [of data] by (intro decodeWorkload_bad_frame) blast

text \<open>A word read determines the bytes it was read from.\<close>

lemma put_word32_at: "4 \<le> length xs \<Longrightarrow> put_u32 (word32_at xs) = take 4 xs"
proof -
  assume "4 \<le> length xs"
  then obtain a b c d ys where xs: "xs = a # b # c # d # ys"
    by (auto simp: numeral_eq_Suc Suc_le_length_iff)
  have "put_u32 (push_bit 24 (ucast a) OR push_bit 16 (ucast b) OR push_bit 8 (ucast c) OR ucast d) = [a, b, c, d]"
    by (simp add: put_u32_def upt_rec put_u8_def)
      (intro conjI; rule bit_word_eqI; auto simp: bit_simps dest: bit_imp_le_length)
  then show ?thesis
    by (simp add: xs word32_at_def get_u32_def need_def bind_def)
qed

definition join_bytes :: "bytes \<Rightarrow> u64" where
  "join_bytes bs = foldl (\<lambda>r b. push_bit 8 r OR ucast b) 0 bs"

lemma get_loop_join:
  "n \<le> length xs \<Longrightarrow> get_loop n r xs = Done (foldl (\<lambda>r b. push_bit 8 r OR ucast b) r (take n xs)) (drop n xs)"
proof (induction n arbitrary: r xs)
  case (Suc n)
  then obtain y ys where "xs = y # ys" by (cases xs) auto
  with Suc show ?case by (simp add: bind_def)
qed simp

lemma word64_at_join: "8 \<le> length xs \<Longrightarrow> word64_at xs = join_bytes (take 8 xs)"
  by (simp add: word64_at_def get_u64_def need_def get_loop_join join_bytes_def)

lemma put_word64_at: "8 \<le> length xs \<Longrightarrow> put_u64 (word64_at xs) = take 8 xs"
proof -
  assume len: "8 \<le> length xs"
  then obtain a b c d e f g h ys where xs: "xs = a # b # c # d # e # f # g # h # ys"
    by (auto simp: numeral_eq_Suc Suc_le_length_iff)
  have "put_u64 (join_bytes [a, b, c, d, e, f, g, h]) = [a, b, c, d, e, f, g, h]"
    by (simp add: put_u64_def upt_rec put_u8_def join_bytes_def)
      (intro conjI; rule bit_word_eqI; auto simp: bit_simps dest: bit_imp_le_length)
  then show ?thesis
    using len by (simp add: word64_at_join xs)
qed

lemma word_at_put [simp]: "word32_at (put_u32 v @ ys) = v" "word64_at (put_u64 w @ ys) = w"
  by (simp_all add: word32_at_def word64_at_def u32.round_trip u64.round_trip)

text \<open>Big-endian words are ordered like their bytes.\<close>

lemma unat_byte: "unat (b :: u8) < 256"
  using unsigned_less [of b, where 'a = nat] by simp

lemma push_byte: "unat r < 2 ^ 56 \<Longrightarrow> unat (push_bit 8 r OR ucast b :: u64) = unat r * 256 + unat (b :: u8)"
proof -
  assume r: "unat r < 2 ^ 56"
  have disjoint: "push_bit 8 r AND ucast b = (0 :: u64)"
    by (rule bit_word_eqI) (auto simp: bit_simps dest: bit_imp_le_length)
  have b: "unat (ucast b :: u64) = unat b"
  proof -
    have "unat b < 2 ^ 64" using unat_byte [of b] by simp
    then show ?thesis by (simp add: unsigned_ucast_eq take_bit_nat_eq_self)
  qed
  have "unat (push_bit 8 r) = unat r * 256"
    using r by (simp add: push_bit_eq_mult unat_word_ariths)
  moreover have "push_bit 8 r OR ucast b = push_bit 8 r + (ucast b :: u64)"
    using disjoint by (simp add: disjunctive_add_eq_or)
  moreover have "unat b < 256" by (rule unat_byte)
  ultimately show ?thesis
    using r b by (simp add: unat_word_ariths)
qed

lemma join_value:
  assumes "length (bs :: bytes) \<le> 8" and "unat r < 2 ^ (8 * (8 - length bs))"
  shows "unat (foldl (\<lambda>r b. push_bit 8 r OR ucast b) (r :: u64) bs) = foldl (\<lambda>m b. m * 256 + unat b) (unat r) bs"
  using assms
proof (induction bs arbitrary: r)
  case (Cons b bs)
  have small: "unat r < 2 ^ 56"
  proof -
    have "unat r < 2 ^ (8 * (8 - length (b # bs)))" using Cons.prems by simp
    also have "\<dots> \<le> 2 ^ 56"
      using Cons.prems by (intro power_increasing) simp_all
    finally show ?thesis .
  qed
  have "unat b < 256" by (rule unat_byte)
  moreover have "unat r + 1 \<le> 2 ^ (8 * (8 - length (b # bs)))"
    using Cons.prems by simp
  then have "(unat r + 1) * 256 \<le> 2 ^ (8 * (8 - length (b # bs))) * 256"
    by (rule mult_right_mono) simp
  moreover have "(2 :: nat) ^ (8 * (8 - length (b # bs))) * 256 = 2 ^ (8 * (8 - length bs))"
  proof -
    have "8 * (8 - length bs) = 8 * (8 - length (b # bs)) + 8" using Cons.prems by simp
    then show ?thesis by (simp only: power_add) simp
  qed
  ultimately have "unat (push_bit 8 r OR ucast b :: u64) < 2 ^ (8 * (8 - length bs))"
    by (simp add: push_byte [OF small])
  with Cons.IH [of "push_bit 8 r OR ucast b"] Cons.prems show ?case
    by (simp add: push_byte [OF small])
qed simp

lemma base256_mono: "m < m' \<Longrightarrow> foldl (\<lambda>m b. m * 256 + unat (b :: u8)) m bs < foldl (\<lambda>m b. m * 256 + unat b) m' bs"
  by (induction bs arbitrary: m m') auto

lemma join_bytes_increase:
  assumes "length bs = 8" and "i < 8" and "bs ! i < b"
  shows "unat (join_bytes bs) < unat (join_bytes (bs[i := b]))"
proof -
  let ?f = "\<lambda>m b. m * 256 + unat (b :: u8)"
  have horner: "unat (join_bytes xs) = foldl ?f 0 xs" if "length xs = 8" for xs
    using that join_value [of xs 0] by (simp add: join_bytes_def)
  have split: "bs = take i bs @ bs ! i # drop (Suc i) bs" "bs[i := b] = take i bs @ b # drop (Suc i) bs"
    using assms by (simp_all add: id_take_nth_drop upd_conv_take_nth_drop)
  have "foldl ?f 0 bs = foldl ?f (?f (foldl ?f 0 (take i bs)) (bs ! i)) (drop (Suc i) bs)"
    by (subst split(1)) simp
  also have "\<dots> < foldl ?f (?f (foldl ?f 0 (take i bs)) b) (drop (Suc i) bs)"
    using assms(3) by (intro base256_mono) (simp add: word_less_nat_alt)
  also have "\<dots> = foldl ?f 0 (bs[i := b])"
    by (simp add: split(2))
  finally show ?thesis
    using assms(1) by (simp add: horner)
qed

section \<open>What the frame detects\<close>

lemma frame_parts:
  assumes "size_fits (encode w)"
  shows "length (encodeWorkload w) = length (encode w) + 24"
    "take 4 (encodeWorkload w) = put_u32 kPersistenceMagic"
    "take 4 (drop 4 (encodeWorkload w)) = put_u32 kPersistenceFormatVersion"
    "take 8 (drop 8 (encodeWorkload w)) = put_u64 (word_of_nat (length (encode w)))"
    "take (length (encode w)) (drop 16 (encodeWorkload w)) = encode w"
    "drop (16 + length (encode w)) (encodeWorkload w) = put_u64 (fnv1a64 (encode w))"
  by (simp_all add: encodeWorkload_def Let_def)

lemma good_frame_parts:
  assumes "good_frame data"
  shows "24 \<le> length data" "take 4 data = put_u32 kPersistenceMagic"
    "take 4 (drop 4 data) = put_u32 kPersistenceFormatVersion"
    "unat (join_bytes (take 8 (drop 8 data))) + 24 \<le> length data"
    "take 8 (drop (16 + unat (join_bytes (take 8 (drop 8 data)))) data) =
       put_u64 (fnv1a64 (take (unat (join_bytes (take 8 (drop 8 data)))) (drop 16 data)))"
proof -
  show len: "24 \<le> length data" using assms by (simp add: good_frame_def)
  then have n: "word64_at (drop 8 data) = join_bytes (take 8 (drop 8 data))"
    by (simp add: word64_at_join)
  show "take 4 data = put_u32 kPersistenceMagic" "take 4 (drop 4 data) = put_u32 kPersistenceFormatVersion"
    using assms len put_word32_at [of data] put_word32_at [of "drop 4 data"] by (simp_all add: good_frame_def)
  show room: "unat (join_bytes (take 8 (drop 8 data))) + 24 \<le> length data"
    using assms by (simp add: good_frame_def Let_def n)
  show "take 8 (drop (16 + unat (join_bytes (take 8 (drop 8 data)))) data) =
      put_u64 (fnv1a64 (take (unat (join_bytes (take 8 (drop 8 data)))) (drop 16 data)))"
    using assms room put_word64_at [of "drop (16 + unat (join_bytes (take 8 (drop 8 data)))) data"]
    by (simp add: good_frame_def Let_def n)
qed

lemma join_put [simp]: "join_bytes (put_u64 v) = v"
  using word64_at_join [of "put_u64 v"] word_at_put(2) [of v "[]"] by simp

lemma truncated_bad_frame:
  assumes "size_fits (encode w)" and "n < length (encodeWorkload w)"
  shows "\<not> good_frame (take n (encodeWorkload w))"
proof
  assume good: "good_frame (take n (encodeWorkload w))"
  note parts = good_frame_parts [OF good]
  have n: "24 \<le> n" using parts(1) by simp
  then have "take 8 (drop 8 (take n (encodeWorkload w))) = put_u64 (word_of_nat (length (encode w)))"
    using frame_parts(4) [OF assms(1)] by (auto simp: drop_take min_def)
  then have "length (encode w) + 24 \<le> length (take n (encodeWorkload w))"
    using parts(4) assms(1) by simp
  then show False
    using assms frame_parts(1) [OF assms(1)] by simp
qed

lemma changed_slice:
  assumes "i < length xs" and "b \<noteq> xs ! i" and "j \<le> i" and "i < j + k"
  shows "take k (drop j (xs[i := b])) \<noteq> take k (drop j xs)"
proof
  assume "take k (drop j (xs[i := b])) = take k (drop j xs)"
  then have "take k (drop j (xs[i := b])) ! (i - j) = take k (drop j xs) ! (i - j)" by (rule arg_cong)
  with assms show False by simp
qed

text \<open>A changed byte of the payload changes the checksum that the frame must carry.\<close>

lemma changed_payload:
  assumes "size_fits (encode w)" and "16 \<le> i" and "i < 16 + length (encode w)" and "b \<noteq> encodeWorkload w ! i"
  shows "put_u64 (fnv1a64 (take (length (encode w)) (drop 16 ((encodeWorkload w)[i := b])))) \<noteq>
    take 8 (drop (16 + length (encode w)) ((encodeWorkload w)[i := b]))"
proof
  note orig = frame_parts [OF assms(1)]
  assume sum: "put_u64 (fnv1a64 (take (length (encode w)) (drop 16 ((encodeWorkload w)[i := b])))) =
    take 8 (drop (16 + length (encode w)) ((encodeWorkload w)[i := b]))"
  have "take (length (encode w)) (drop 16 ((encodeWorkload w)[i := b])) = (encode w)[i - 16 := b]"
    using assms(2) orig(5) by (simp add: drop_update_swap take_update_swap)
  moreover have "drop (16 + length (encode w)) ((encodeWorkload w)[i := b]) = put_u64 (fnv1a64 (encode w))"
    using assms(3) orig(6) by simp
  ultimately have "fnv1a64 (encode w) = fnv1a64 ((encode w)[i - 16 := b])"
    using sum by (metis join_put length_put(4) take_all order_refl)
  moreover have "b \<noteq> encode w ! (i - 16)"
  proof -
    have "encode w ! (i - 16) = take (length (encode w)) (drop 16 (encodeWorkload w)) ! (i - 16)" using orig(5) by simp
    with assms(2-4) orig(1) show ?thesis by simp
  qed
  moreover have "i - 16 < length (encode w)" using assms(2,3) by linarith
  ultimately show False
    using fnv_one_byte [of "i - 16" "encode w" b] by simp
qed

lemma corrupt_bad_frame:
  assumes fits: "size_fits (encode w)"
    and i: "i < length (encodeWorkload w)" "b \<noteq> encodeWorkload w ! i"
    and len_field: "i < 8 \<or> 16 \<le> i \<or> encodeWorkload w ! i < b"
  shows "\<not> good_frame ((encodeWorkload w)[i := b])"
proof
  let ?d = "encodeWorkload w" and ?n = "length (encode w)"
  let ?d' = "?d[i := b]"
  assume good: "good_frame ?d'"
  note parts = good_frame_parts [OF good] and orig = frame_parts [OF fits] and changed = changed_slice [OF i]
  have "\<not> i < 4" using changed [of 0 4] parts(2) orig(2) by auto
  moreover have "\<not> (4 \<le> i \<and> i < 8)" using changed [of 4 4] parts(3) orig(3) by auto
  moreover have False if "8 \<le> i" "i < 16"
  proof -
    have "unat (join_bytes (take 8 (drop 8 ?d))) < unat (join_bytes ((take 8 (drop 8 ?d))[i - 8 := b]))"
      using that i len_field orig(1) by (intro join_bytes_increase) auto
    moreover have "take 8 (drop 8 ?d') = (take 8 (drop 8 ?d))[i - 8 := b]"
      using that by (simp add: drop_update_swap take_update_swap)
    ultimately have "?n < unat (join_bytes (take 8 (drop 8 ?d')))"
      using orig(4) fits by simp
    with parts(4) orig(1) show False by simp
  qed
  moreover have False if "16 \<le> i"
  proof -
    have "unat (join_bytes (take 8 (drop 8 ?d'))) = ?n"
      using that orig(4) fits by (simp add: drop_update_swap)
    then have sum: "take 8 (drop (16 + ?n) ?d') = put_u64 (fnv1a64 (take ?n (drop 16 ?d')))"
      using parts(5) by (simp only:)
    have outside: "16 + ?n \<le> i"
      using changed_payload [OF fits that _ i(2)] sum by fastforce
    then have "take ?n (drop 16 ?d') = encode w"
      using that orig(5) by (simp add: drop_update_swap)
    then have "take 8 (drop (16 + ?n) ?d') = take 8 (drop (16 + ?n) ?d)"
      using sum orig(6) by simp
    with changed [of "16 + ?n" 8] outside i(1) orig(1) show False by auto
  qed
  ultimately show False by linarith
qed

text \<open>A length field that was made smaller selects a proper prefix of the payload.\<close>

lemma shortened_frame:
  assumes fits: "size_fits (encode w)" and i: "8 \<le> i" "i < 16" and b: "b < encodeWorkload w ! i"
    and good: "good_frame ((encodeWorkload w)[i := b])"
  shows "\<exists>n<length (encode w). read_frame ((encodeWorkload w)[i := b]) =
    Done (take n (encode w)) (drop (24 + n) ((encodeWorkload w)[i := b]))"
proof -
  let ?d = "encodeWorkload w"
  let ?d' = "?d[i := b]"
  let ?field = "take 8 (drop 8 ?d')"
  note orig = frame_parts [OF fits]
  have len: "length ?field = 8" using orig(1) by simp
  have "take 8 (drop 8 ?d) ! (i - 8) = ?d ! i" using i orig(1) by simp
  then have old: "take 8 (drop 8 ?d) = ?field[i - 8 := ?d ! i]"
    using i by (metis drop_update_swap list_update_id list_update_overwrite take_update_swap)
  have "?field ! (i - 8) < ?d ! i"
    using i b orig(1) by simp
  then have "unat (join_bytes ?field) < unat (join_bytes (?field[i - 8 := ?d ! i]))"
    using i len by (intro join_bytes_increase) auto
  then have less: "unat (join_bytes ?field) < length (encode w)"
    using orig(4) fits unfolding old [symmetric] by simp
  have "word64_at (drop 8 ?d') = join_bytes ?field"
    using orig(1) by (simp add: word64_at_join)
  moreover have "take (unat (join_bytes ?field)) (drop 16 ?d') = take (unat (join_bytes ?field)) (encode w)"
  proof -
    have "take (unat (join_bytes ?field)) (drop 16 ?d') =
        take (unat (join_bytes ?field)) (take (length (encode w)) (drop 16 ?d))"
      using i less by simp
    then show ?thesis by (simp only: orig(5))
  qed
  ultimately have "read_frame ?d' = Done (take (unat (join_bytes ?field)) (encode w))
      (drop (24 + unat (join_bytes ?field)) ?d')"
    using read_frame_cases [of ?d'] good by simp
  with less show ?thesis by blast
qed

text \<open>
  C25. Every proper prefix of a workload's record is rejected, at whatever byte it
  was cut off, with the default workload in its place.
\<close>

theorem truncation_rejected:
  assumes "size_fits (encode w)" and "n < length (encodeWorkload w)"
  shows "decodeWorkload oc od (take n (encodeWorkload w)) = Some (Outcome.REJECT_UNKNOWN, default_workload)"
  using assms by (intro bad_frame_rejected truncated_bad_frame)

theorem truncation_rejected_witness:
  "decodeWorkload Left_to_right Left_to_right (take 100 (encodeWorkload sample_running)) =
     Some (Outcome.REJECT_UNKNOWN, default_workload)"
proof (rule truncation_rejected)
  show fits: "size_fits (encode sample_running)"
    using sample_running_fits(1) by (simp add: workload_fits_def)
  have "76 < length (encode sample_running)" by code_simp
  then show "100 < length (encodeWorkload sample_running)" by (simp add: frame_parts(1) [OF fits])
qed

section \<open>Records the decoder does not survive\<close>

lemma decode_too_many_states:
  assumes "workload_fits w" and "length (dset_defs (wl_deps w)) < length (dset_states (wl_deps w))"
  shows "decode oc od (encode w) = Terminated"
proof -
  have "bind (get_deps od) k (put_deps (wl_deps w) @ ys) = Terminated"
    for k :: "DependencySet \<Rightarrow> Workload reader" and ys
    using assms get_deps_put [of "wl_deps w" od ys] by (simp add: bind_def workload_fits_def)
  then have "decode_fields oc od (encode w) = Terminated"
    using assms(1)
    by (simp add: encode_def decode_fields_def workload_fits_def read_back enum_read_back
        policy_wire.bind_put bind_contract_put)
  then show ?thesis by (simp add: decode_def bind_def)
qed

text \<open>
  A record with a valid frame and checksum that holds more dependency
  states than dependency definitions is not rejected: storing the first state beyond the
  definitions throws inside a \<open>noexcept\<close> function, which terminates the process.
\<close>

theorem excess_states_terminate:
  assumes "workload_fits w" and "length (dset_defs (wl_deps w)) < length (dset_states (wl_deps w))"
  shows "decodeWorkload oc od (encodeWorkload w) = None"
  using decodeWorkload_frame [of w oc od "[]"] decode_too_many_states [OF assms, of oc od] assms(1)
  by (simp add: workload_fits_def)

theorem excess_states_terminate_witness:
  "decodeWorkload Left_to_right Left_to_right (encodeWorkload (sample_running
     \<lparr>wl_deps := (wl_deps sample_running)\<lparr>dset_states := [default_dependency_state]\<rparr>\<rparr>)) = None"
proof (rule excess_states_terminate)
  let ?w = "sample_running\<lparr>wl_deps := (wl_deps sample_running)\<lparr>dset_states := [default_dependency_state]\<rparr>\<rparr>"
  show "workload_fits ?w" by code_simp
  show "length (dset_defs (wl_deps ?w)) < length (dset_states (wl_deps ?w))" by code_simp
qed

text \<open>
  The aggregate accepts a resource requirement whatever its amounts are, and the stores save it; the
  decoder does not accept it back. Such a workload is lost when the coordinator restarts.
\<close>

lemma get_requirement_bad:
  assumes "\<not> f64_isfinite (rr_minValue r) \<or> \<not> f64_isfinite (rr_maxValue r) \<or> f64_less (rr_minValue r) f64_zero"
  shows "get_requirement (put_requirement r @ ys) = Rejected Outcome.REJECT_UNKNOWN"
  using assms
  by (auto simp: get_requirement_def put_requirement_def read_back enum_read_back)

lemma get_contract_bad:
  assumes "rc_reqs c = r # rs" and "int (length (rc_reqs c)) < 2 ^ 32"
    and "\<not> f64_isfinite (rr_minValue r) \<or> \<not> f64_isfinite (rr_maxValue r) \<or> f64_less (rr_minValue r) f64_zero"
  shows "bind (get_contract ord) k (put_contract c @ ys) = Rejected Outcome.REJECT_UNKNOWN"
proof -
  have nat32: "unat (word_of_nat n :: u32) = n" if "int n < 2 ^ 32" for n
    using that by (simp add: unat_of_nat)
  have "unat (word_of_nat (length (rc_reqs c)) :: u32) = Suc (length rs)"
    using nat32 [OF assms(2)] assms(1) by (simp only: list.size)
  then have "bind (get_vec get_requirement) l (put_vec put_requirement (rc_reqs c) @ zs) =
      Rejected Outcome.REJECT_UNKNOWN" for l :: "ResourceRequirement list \<Rightarrow> ResourceContract reader" and zs
    using get_requirement_bad [OF assms(3)]
    by (simp add: get_vec_def put_vec_def bind_assoc read_back assms(1)) (simp add: bind_def)
  then have "get_contract ord (put_contract c @ ys) = Rejected Outcome.REJECT_UNKNOWN"
    by (cases ord) (simp_all add: put_contract_def get_contract_def get_args_ids)
  then show ?thesis by (simp add: bind_def)
qed

theorem bad_amount_not_reloadable:
  assumes "size_fits (wl_name w)" and "size_fits (wl_intent w)" and "size_fits (encode w)"
    and "rc_reqs (wl_contract w) = r # rs" and "int (length (rc_reqs (wl_contract w))) < 2 ^ 32"
    and "\<not> f64_isfinite (rr_minValue r) \<or> \<not> f64_isfinite (rr_maxValue r) \<or> f64_less (rr_minValue r) f64_zero"
  shows "decodeWorkload oc od (encodeWorkload w) = Some (Outcome.REJECT_UNKNOWN, default_workload)"
proof -
  have "decode_fields oc od (encode w) = Rejected Outcome.REJECT_UNKNOWN"
    using assms(1,2) get_contract_bad [OF assms(4-6)]
    by (simp add: encode_def decode_fields_def read_back enum_read_back policy_wire.bind_put)
  then have "decode oc od (encode w) = Rejected Outcome.REJECT_UNKNOWN"
    by (simp add: decode_def bind_def)
  then show ?thesis
    using decodeWorkload_frame [OF assms(3), of oc od "[]"] by simp
qed

definition negative_requirement :: ResourceRequirement where
  "negative_requirement = \<lparr>rr_kind = ResourceKind.DEVICE_MEMORY, rr_level = NeedLevel.REQUIRED,
     rr_minValue = F64 0xBFF0000000000000, rr_maxValue = f64_zero, rr_spec = []\<rparr>"

theorem bad_amount_not_reloadable_witness:
  "let r = call (AddRequirement negative_requirement) (create (UniqueValue 7) [] [])
   in fst r = Outcome.ALLOW \<and>
      decodeWorkload Left_to_right Left_to_right (encodeWorkload (snd r)) =
        Some (Outcome.REJECT_UNKNOWN, default_workload)"
proof -
  let ?w = "snd (call (AddRequirement negative_requirement) (create (UniqueValue 7) [] []))"
  have a: "fst (call (AddRequirement negative_requirement) (create (UniqueValue 7) [] [])) = Outcome.ALLOW"
    by code_simp
  have reqs: "rc_reqs (wl_contract ?w) = [negative_requirement]" by code_simp
  have fits: "size_fits (wl_name ?w)" "size_fits (wl_intent ?w)" "size_fits (encode ?w)" by code_simp+
  have "f64_less (rr_minValue negative_requirement) f64_zero" by code_simp
  then show ?thesis
    using bad_amount_not_reloadable [OF fits reqs] a reqs unfolding Let_def by simp
qed

section \<open>Migration after a reload\<close>

text \<open>
  Because the migration counter starts at 2000 again, a workload that
  has an episode 2000 already (from an earlier migration) gives the same identity to the next
  migrated episode after a reload; the authoritative episode is then shadowed by the old one and
  can never report progress, whatever is called afterwards.
\<close>

theorem reload_reuses_migration_ids:
  assumes "workload_fits w" and "dset_wf (wl_deps w)"
    and "episode_index (UniqueValue 2000) w = Some k"
    and "decodeWorkload oc od (encodeWorkload w) = Some (out, v)"
    and "fst (commitMigration e wk b v) = Outcome.ALLOW"
  shows "let m = snd (commitMigration e wk b v);
             r = reportProgress (UniqueValue 2000) eg d dur (run_calls cs m) in
    ep_id (last (wl_episodes m)) = UniqueValue 2000 \<and> ep_authoritative (last (wl_episodes m)) \<and>
    fst r \<noteq> Outcome.ALLOW"
proof -
  let ?m = "snd (commitMigration e wk b v)"
  have v: "v = restored oc od w"
    using decodeWorkload_intact [OF assms(1,2), of oc od "[]"] assms(4) by simp
  have k: "episode_index (UniqueValue 2000) u = Some k" if "wl_episodes u = wl_episodes w" for u
    using assms(3) that by (simp add: episode_index_def)
  have gen: "silenced k i (u\<lparr>wl_generation := g\<rparr>) = silenced k i u" for u i g
    by (simp add: silenced_def episode_index_def)
  have guarded: "silenced k i (snd (guardedTransition t g r u)) = silenced k i u" for u i t g r
    by (simp add: silenced_def episode_index_def)
  have "silenced k (UniqueValue 2000) ?m"
    using assms(5)
    by (auto simp: commitMigration_def Let_def isAllow_def gen guarded v restored_def split: if_splits
        intro!: silenced_append k)
  then have "fst (reportProgress (UniqueValue 2000) eg d dur (run_calls cs ?m)) \<noteq> Outcome.ALLOW"
    using silenced_report [OF silenced_runs, of k "UniqueValue 2000" ?m eg d dur cs] by auto
  moreover have "ep_id (last (wl_episodes ?m)) = UniqueValue 2000 \<and> ep_authoritative (last (wl_episodes ?m))"
    using assms(5)
    by (auto simp: commitMigration_def Let_def isAllow_def append_authoritative_def v restored_def
        default_episode_def fromU64_def split: if_splits)
  ultimately show ?thesis by (simp add: Let_def)
qed

definition sample_migrated :: Workload where
  "sample_migrated = run_calls
     [RequestMigration (UniqueValue 2), CommitMigration (UniqueValue 2) (UniqueValue 6) (UniqueValue 60),
      RequestMigration (UniqueValue 3)] sample_running"

theorem reload_reuses_migration_ids_witness:
  "let m = snd (commitMigration (UniqueValue 3) (UniqueValue 7) (UniqueValue 70)
             (restored Left_to_right Left_to_right sample_migrated));
       r = reportProgress (UniqueValue 2000) (UniqueValue 1) 1 True (run_calls [] m) in
    ep_id (last (wl_episodes m)) = UniqueValue 2000 \<and> ep_authoritative (last (wl_episodes m)) \<and>
    fst r \<noteq> Outcome.ALLOW"
proof (rule reload_reuses_migration_ids)
  show fits: "workload_fits sample_migrated" "dset_wf (wl_deps sample_migrated)" by code_simp+
  show "episode_index (UniqueValue 2000) sample_migrated = Some 1" by code_simp
  show "decodeWorkload Left_to_right Left_to_right (encodeWorkload sample_migrated) =
      Some (Outcome.ALLOW, restored Left_to_right Left_to_right sample_migrated)"
    using decodeWorkload_intact [OF fits, of Left_to_right Left_to_right "[]"] by simp
  show "fst (commitMigration (UniqueValue 3) (UniqueValue 7) (UniqueValue 70)
      (restored Left_to_right Left_to_right sample_migrated)) = Outcome.ALLOW" by code_simp
qed

end
