(* ===== verification/Stores.thy ===== *)
theory Stores
  imports Persistence Text "HOL-Library.AList"
begin

text \<open>
  The state stores (\<open>StateStore\<close>, \<open>MemoryStateStore\<close>, \<open>FileStateStore\<close>). The
  interface is the locale \<open>state_store\<close>; both implementations are interpreted in it, the file
  store for a file system whose calls succeed. What the file store does when they fail is stated
  separately.
\<close>

section \<open>The interface\<close>

record LoadResult =
  lr_workload :: "Workload option"
  lr_outcome :: Outcome
  lr_error :: string

definition loaded :: "Workload \<Rightarrow> LoadResult" where
  "loaded w = \<lparr>lr_workload = Some w, lr_outcome = Outcome.ALLOW, lr_error = []\<rparr>"

definition not_loaded :: "Outcome \<Rightarrow> string \<Rightarrow> LoadResult" where
  "not_loaded out err = \<lparr>lr_workload = None, lr_outcome = out, lr_error = err\<rparr>"

text \<open>
  \<open>load\<close> is \<open>None\<close> when decoding the record terminates the process. \<open>restore\<close> is what a
  stored workload looks like when it comes back.
\<close>

locale state_store =
  fixes save :: "Workload \<Rightarrow> 's \<Rightarrow> Outcome \<times> 's"
    and load :: "WorkloadId \<Rightarrow> 's \<Rightarrow> LoadResult option"
    and listIds :: "'s \<Rightarrow> WorkloadId list"
    and remove :: "WorkloadId \<Rightarrow> 's \<Rightarrow> bool \<times> 's"
    and inv :: "'s \<Rightarrow> bool"
    and storable :: "Workload \<Rightarrow> bool"
    and restore :: "Workload \<Rightarrow> Workload"
  assumes save_inv: "inv s \<Longrightarrow> inv (snd (save w s))"
    and save_ok: "inv s \<Longrightarrow> fst (save w s) = Outcome.ALLOW"
    and load_saved: "inv s \<Longrightarrow> storable w \<Longrightarrow> load (wl_id w) (snd (save w s)) = Some (loaded (restore w))"
    and load_other: "inv s \<Longrightarrow> i \<noteq> wl_id w \<Longrightarrow> load i (snd (save w s)) = load i s"
    and ids_saved: "inv s \<Longrightarrow> set (listIds (snd (save w s))) = insert (wl_id w) (set (listIds s))"
    and remove_inv: "inv s \<Longrightarrow> inv (snd (remove i s))"
    and removed: "inv s \<Longrightarrow> fst (remove i s) \<longleftrightarrow> i \<in> set (listIds s)"
    and ids_removed: "inv s \<Longrightarrow> set (listIds (snd (remove i s))) = set (listIds s) - {i}"
    and load_missing: "inv s \<Longrightarrow> i \<notin> set (listIds s) \<Longrightarrow>
      map_option lr_outcome (load i s) = Some Outcome.REJECT_WORKLOAD_NOT_FOUND"
begin

text \<open>A sequence of saves: the last record of an identity is the one that is loaded.\<close>

lemma saves_inv: "inv s \<Longrightarrow> inv (fold (\<lambda>w s. snd (save w s)) ws s)"
  by (induction ws arbitrary: s) (simp_all add: save_inv)

lemma saves_other:
  "inv s \<Longrightarrow> i \<notin> wl_id ` set ws \<Longrightarrow> load i (fold (\<lambda>w s. snd (save w s)) ws s) = load i s"
  by (induction ws arbitrary: s) (simp_all add: save_inv load_other)

lemma last_save_wins:
  assumes "inv s" and "storable w" and "wl_id w \<notin> wl_id ` set later"
  shows "load (wl_id w) (fold (\<lambda>w s. snd (save w s)) (earlier @ w # later) s) = Some (loaded (restore w))"
proof -
  let ?m = "fold (\<lambda>w s. snd (save w s)) earlier s"
  have "inv ?m" using assms(1) by (rule saves_inv)
  then show ?thesis
    using assms by (simp add: saves_other save_inv load_saved)
qed

lemma removed_is_gone:
  "inv s \<Longrightarrow> map_option lr_outcome (load i (snd (remove i s))) = Some Outcome.REJECT_WORKLOAD_NOT_FOUND"
  by (rule load_missing) (simp_all add: remove_inv ids_removed)

end

definition storable :: "Workload \<Rightarrow> bool" where
  "storable w \<longleftrightarrow> workload_fits w \<and> dset_wf (wl_deps w)"

lemma decode_storable:
  "storable w \<Longrightarrow> decodeWorkload oc od (encodeWorkload w) = Some (Outcome.ALLOW, restored oc od w)"
  using decodeWorkload_intact [of w oc od "[]"] by (simp add: storable_def)

section \<open>The memory store\<close>

type_synonym memory = "(WorkloadId \<times> bytes) list"

fun mem_put :: "WorkloadId \<Rightarrow> bytes \<Rightarrow> memory \<Rightarrow> memory" where
  "mem_put i bs [] = [(i, bs)]"
| "mem_put i bs (p # ps) = (if fst p = i then (i, bs) # ps else p # mem_put i bs ps)"

definition mem_save :: "Workload \<Rightarrow> memory \<Rightarrow> Outcome \<times> memory" where
  "mem_save w ps = (Outcome.ALLOW, mem_put (wl_id w) (encodeWorkload w) ps)"

definition load_result :: "arg_order \<Rightarrow> arg_order \<Rightarrow> string \<Rightarrow> bytes \<Rightarrow> LoadResult option" where
  "load_result oc od err bs =
     (case decodeWorkload oc od bs of
        None \<Rightarrow> None
      | Some (st, w) \<Rightarrow> Some (if \<not> isAllow st then not_loaded st err else loaded w))"

fun mem_load :: "arg_order \<Rightarrow> arg_order \<Rightarrow> WorkloadId \<Rightarrow> memory \<Rightarrow> LoadResult option" where
  "mem_load oc od i [] = Some (not_loaded Outcome.REJECT_WORKLOAD_NOT_FOUND ''no such workload'')"
| "mem_load oc od i (p # ps) =
     (if fst p = i then load_result oc od ''corrupt record'' (snd p) else mem_load oc od i ps)"

definition mem_listIds :: "memory \<Rightarrow> WorkloadId list" where
  "mem_listIds ps = map fst ps"

fun mem_remove :: "WorkloadId \<Rightarrow> memory \<Rightarrow> bool \<times> memory" where
  "mem_remove i [] = (False, [])"
| "mem_remove i (p # ps) =
     (if fst p = i then (True, ps) else let r = mem_remove i ps in (fst r, p # snd r))"

lemma mem_put_keys: "set (map fst (mem_put i bs ps)) = insert i (set (map fst ps))"
  by (induction ps) auto

lemma mem_put_distinct: "distinct (map fst ps) \<Longrightarrow> distinct (map fst (mem_put i bs ps))"
proof (induction ps)
  case (Cons p ps)
  then show ?case using mem_put_keys [of i bs ps] by auto
qed simp

lemma mem_load_put:
  "mem_load oc od j (mem_put i bs ps) = (if j = i then load_result oc od ''corrupt record'' bs else mem_load oc od j ps)"
  by (induction ps) auto

lemma mem_remove_facts:
  "distinct (map fst ps) \<Longrightarrow>
   (fst (mem_remove i ps) \<longleftrightarrow> i \<in> set (map fst ps)) \<and>
   set (map fst (snd (mem_remove i ps))) = set (map fst ps) - {i} \<and>
   distinct (map fst (snd (mem_remove i ps)))"
  by (induction ps) (auto simp: Let_def rev_image_eqI)

lemma mem_load_missing:
  "i \<notin> set (map fst ps) \<Longrightarrow>
   mem_load oc od i ps = Some (not_loaded Outcome.REJECT_WORKLOAD_NOT_FOUND ''no such workload'')"
  by (induction ps) auto

interpretation memory: state_store mem_save "mem_load oc od" mem_listIds mem_remove
  "\<lambda>ps. distinct (map fst ps)" storable "restored oc od" for oc od
proof
  fix s :: memory and w :: Workload and i :: WorkloadId
  assume inv: "distinct (map fst s)"
  show "distinct (map fst (snd (mem_save w s)))"
    using inv by (simp add: mem_save_def mem_put_distinct)
  show "fst (mem_save w s) = Outcome.ALLOW" by (simp add: mem_save_def)
  show "mem_load oc od (wl_id w) (snd (mem_save w s)) = Some (loaded (restored oc od w))" if "storable w"
    using that by (simp add: mem_save_def mem_load_put load_result_def decode_storable isAllow_def)
  show "mem_load oc od i (snd (mem_save w s)) = mem_load oc od i s" if "i \<noteq> wl_id w"
    using that by (simp add: mem_save_def mem_load_put)
  show "set (mem_listIds (snd (mem_save w s))) = insert (wl_id w) (set (mem_listIds s))"
    unfolding mem_listIds_def mem_save_def snd_conv by (rule mem_put_keys)
  show "distinct (map fst (snd (mem_remove i s)))" using inv mem_remove_facts by blast
  show "fst (mem_remove i s) \<longleftrightarrow> i \<in> set (mem_listIds s)"
    unfolding mem_listIds_def using inv mem_remove_facts by blast
  show "set (mem_listIds (snd (mem_remove i s))) = set (mem_listIds s) - {i}"
    unfolding mem_listIds_def using inv mem_remove_facts by blast
  show "map_option lr_outcome (mem_load oc od i s) = Some Outcome.REJECT_WORKLOAD_NOT_FOUND"
    if "i \<notin> set (mem_listIds s)"
    using mem_load_missing [of i s] that by (simp add: mem_listIds_def not_loaded_def)
qed

text \<open>
  After any sequence of saves into a memory store, loading an identity
  gives the workload that was saved last under it (as the codec restores it), whatever was saved
  before it and under other identities after it.
\<close>

theorem memory_store_last_save:
  assumes "storable w" and "wl_id w \<notin> wl_id ` set later"
  shows "mem_load Left_to_right Left_to_right (wl_id w)
      (fold (\<lambda>w s. snd (mem_save w s)) (earlier @ w # later) []) =
    Some (loaded (w\<lparr>wl_episodeCounterForMigration := 2000\<rparr>))"
  using memory.last_save_wins [of "[]" w later Left_to_right Left_to_right earlier] assms
  by (simp add: restored_def contract_read_def deps_read_def)

theorem memory_store_last_save_witness:
  "mem_load Left_to_right Left_to_right (UniqueValue 7)
      (fold (\<lambda>w s. snd (mem_save w s)) ([sample_created] @ sample_running # [create (UniqueValue 8) ''x'' ''y'']) []) =
    Some (loaded (sample_running\<lparr>wl_episodeCounterForMigration := 2000\<rparr>))"
proof -
  have i: "wl_id sample_running = UniqueValue 7" by code_simp
  have "storable sample_running" using sample_running_fits by (simp add: storable_def)
  moreover have "wl_id sample_running \<notin> wl_id ` set [create (UniqueValue 8) ''x'' ''y'']"
    by (simp add: i create_def default_workload_def)
  ultimately have "mem_load Left_to_right Left_to_right (wl_id sample_running)
      (fold (\<lambda>w s. snd (mem_save w s)) ([sample_created] @ sample_running # [create (UniqueValue 8) ''x'' ''y'']) []) =
    Some (loaded (sample_running\<lparr>wl_episodeCounterForMigration := 2000\<rparr>))"
    by (rule memory_store_last_save)
  then show ?thesis by (simp only: i)
qed

section \<open>The file store\<close>

text \<open>
  The files of the store's directory, by name, in the order the directory iterator lists them. How
  the calls of the file system end is given by the environment: whether the directory can be
  created, the file opened, and the stream is good after the write, and how many of the bytes have
  reached the file when the stream is closed (the write is buffered, and \<open>save\<close> does not look
  at the stream after it was flushed); \<open>None\<close> means all of them.
\<close>

type_synonym files = "(string \<times> bytes) list"

record file_env =
  fe_mkdir_ok :: bool
  fe_open_ok :: bool
  fe_write_ok :: bool
  fe_flushed :: "nat option"
  fe_tell_ok :: bool
  fe_read_ok :: bool

definition healthy :: file_env where
  "healthy = \<lparr>fe_mkdir_ok = True, fe_open_ok = True, fe_write_ok = True, fe_flushed = None,
     fe_tell_ok = True, fe_read_ok = True\<rparr>"

definition file_name :: "WorkloadId \<Rightarrow> string" where
  "file_name i = ''wf-'' @ to_string (toU64 i) @ ''.bin''"

definition filePath :: "string \<Rightarrow> WorkloadId \<Rightarrow> string" where
  "filePath dir i = dir @ ''/'' @ file_name i"

definition file_save :: "file_env \<Rightarrow> Workload \<Rightarrow> files \<Rightarrow> Outcome \<times> files" where
  "file_save env w fs =
     (if \<not> fe_mkdir_ok env then (Outcome.REJECT_UNKNOWN, fs)
      else
        let bs = encodeWorkload w
        in if \<not> fe_open_ok env then (Outcome.REJECT_UNKNOWN, fs)
           else
             let reached = (case fe_flushed env of None \<Rightarrow> bs | Some n \<Rightarrow> take n bs);
                 fs' = AList.update (file_name (wl_id w)) reached fs
             in if \<not> fe_write_ok env then (Outcome.REJECT_UNKNOWN, fs') else (Outcome.ALLOW, fs'))"

definition file_load :: "arg_order \<Rightarrow> arg_order \<Rightarrow> file_env \<Rightarrow> WorkloadId \<Rightarrow> files \<Rightarrow> LoadResult option" where
  "file_load oc od env i fs =
     (case map_of fs (file_name i) of
        None \<Rightarrow> Some (not_loaded Outcome.REJECT_WORKLOAD_NOT_FOUND ''file not found'')
      | Some data \<Rightarrow>
          if \<not> fe_open_ok env then Some (not_loaded Outcome.REJECT_WORKLOAD_NOT_FOUND ''file not found'')
          else if \<not> fe_tell_ok env then Some (not_loaded Outcome.REJECT_UNKNOWN ''bad stream'')
          else if \<not> fe_read_ok env then Some (not_loaded Outcome.REJECT_UNKNOWN ''read failed'')
          else load_result oc od ''corrupt/truncated record'' data)"

text \<open>
  The length argument of \<open>substr\<close> is an unsigned subtraction: for a name of six characters it
  wraps around, and the rest of the name is taken.
\<close>

definition id_of_file_name :: "string \<Rightarrow> WorkloadId option" where
  "id_of_file_name fn =
     (if take 3 fn = ''wf-'' \<and> length fn > 5
      then map_option fromU64 (stoull (take (unat ((word_of_nat (length fn) :: u64) - 7)) (drop 3 fn)))
      else None)"

definition file_listIds :: "files \<Rightarrow> WorkloadId list" where
  "file_listIds fs = List.map_filter id_of_file_name (map fst fs)"

definition file_remove :: "WorkloadId \<Rightarrow> files \<Rightarrow> bool \<times> files" where
  "file_remove i fs = (map_of fs (file_name i) \<noteq> None, AList.delete (file_name i) fs)"

definition files_wf :: "files \<Rightarrow> bool" where
  "files_wf fs \<longleftrightarrow> distinct (map fst fs) \<and> (\<forall>fn\<in>set (map fst fs). \<exists>i. fn = file_name i)"

lemma file_name_inject: "file_name i = file_name j \<longleftrightarrow> i = j"
proof
  assume "file_name i = file_name j"
  then have "unat (toU64 i) = unat (toU64 j)"
    by (simp add: file_name_def to_string_def decimal_inject)
  then have "toU64 i = toU64 j" by (rule unsigned_word_eqI)
  then show "i = j" by (rule unique_value.expand)
qed simp

lemma decimal_length: "n < 10 ^ k \<Longrightarrow> 0 < k \<Longrightarrow> length (decimal n) \<le> k"
proof (induction k arbitrary: n)
  case (Suc k)
  show ?case
  proof (cases "n < 10")
    case False
    then have "n div 10 < 10 ^ k" "0 < k"
      using Suc.prems by (cases k; simp add: less_mult_imp_div_less mult.commute)+
    with Suc.IH [of "n div 10"] False show ?thesis by (subst decimal.simps) simp
  qed (subst decimal.simps, simp)
qed simp

lemma id_of_file_name_inverse: "id_of_file_name (file_name i) = Some i"
proof -
  have "unat (toU64 i) < 10 ^ 20"
    using unsigned_less [of "toU64 i", where 'a = nat] by simp
  then have small: "length (to_string (toU64 i)) \<le> 20"
    unfolding to_string_def by (rule decimal_length) simp
  have len: "length (file_name i) = length (to_string (toU64 i)) + 7"
    by (simp add: file_name_def)
  have "0 < length (to_string (toU64 i))"
    by (simp add: to_string_def)
  have "unat ((word_of_nat (length (file_name i)) :: u64) - 7) = length (to_string (toU64 i))"
    using small by (simp add: len unat_of_nat)
  then show ?thesis
    using \<open>0 < length (to_string (toU64 i))\<close>
    by (simp add: id_of_file_name_def len) (simp add: file_name_def stoull_to_string fromU64_def)
qed

lemma file_listIds_set: "files_wf fs \<Longrightarrow> i \<in> set (file_listIds fs) \<longleftrightarrow> file_name i \<in> set (map fst fs)"
proof
  assume wf: "files_wf fs" and "i \<in> set (file_listIds fs)"
  then obtain fn where fn: "fn \<in> set (map fst fs)" "id_of_file_name fn = Some i"
    by (force simp: file_listIds_def map_filter_def)
  then obtain j where "fn = file_name j" using wf by (auto simp: files_wf_def)
  with fn show "file_name i \<in> set (map fst fs)" by (simp add: id_of_file_name_inverse)
next
  assume "file_name i \<in> set (map fst fs)"
  then show "i \<in> set (file_listIds fs)"
    using id_of_file_name_inverse [of i] by (force simp: file_listIds_def map_filter_def image_iff)
qed

interpretation files: state_store "file_save healthy" "file_load oc od healthy" file_listIds file_remove
  files_wf storable "restored oc od" for oc od
proof
  fix s :: files and w :: Workload and i :: WorkloadId
  assume inv: "files_wf s"
  have saved: "file_save healthy w s = (Outcome.ALLOW, AList.update (file_name (wl_id w)) (encodeWorkload w) s)"
    by (simp add: file_save_def healthy_def Let_def)
  have keys: "set (map fst (AList.update k v s)) = insert k (set (map fst s))" for k v
    by (simp add: AList.update_keys) auto
  show wf: "files_wf (snd (file_save healthy w s))"
    using inv keys by (auto simp: files_wf_def saved AList.distinct_update)
  show "fst (file_save healthy w s) = Outcome.ALLOW" by (simp add: saved)
  show "file_load oc od healthy (wl_id w) (snd (file_save healthy w s)) = Some (loaded (restored oc od w))"
    if "storable w"
    using that unfolding saved snd_conv file_load_def
    by (simp add: AList.update_conv' healthy_def load_result_def decode_storable isAllow_def)
  show "file_load oc od healthy i (snd (file_save healthy w s)) = file_load oc od healthy i s"
    if "i \<noteq> wl_id w"
    using that by (simp add: saved file_load_def AList.update_conv' file_name_inject)
  show "set (file_listIds (snd (file_save healthy w s))) = insert (wl_id w) (set (file_listIds s))"
    using file_listIds_set [OF inv] file_listIds_set [OF wf] keys
    by (auto simp: saved file_name_inject)
  have del: "set (map fst (AList.delete k s)) = set (map fst s) - {k}" for k
    by (auto simp: AList.delete_keys)
  show wf': "files_wf (snd (file_remove i s))"
    using inv del by (auto simp: files_wf_def file_remove_def AList.distinct_delete)
  show "fst (file_remove i s) \<longleftrightarrow> i \<in> set (file_listIds s)"
    using file_listIds_set [OF inv] by (simp add: file_remove_def map_of_eq_None_iff)
  show "set (file_listIds (snd (file_remove i s))) = set (file_listIds s) - {i}"
    using file_listIds_set [OF inv] file_listIds_set [OF wf'] del
    by (auto simp: file_remove_def file_name_inject)
  show "map_option lr_outcome (file_load oc od healthy i s) = Some Outcome.REJECT_WORKLOAD_NOT_FOUND"
    if "i \<notin> set (file_listIds s)"
    using that file_listIds_set [OF inv]
    by (auto simp: file_load_def not_loaded_def map_of_eq_None_iff [symmetric])
qed

text \<open>
  C26. In a directory whose files are all of the store's naming, and as long as the file system
  does not fail, any sequence of saves leaves what it should: loading the identity of a storable
  workload gives the workload saved last under it, as the codec restores it (itself with the
  migration counter at 2000, when constructor arguments are evaluated from left to right), an
  identity that was not saved loads what it did before, and the identities listed are those that
  were there and those saved.
\<close>

theorem file_store_last_save:
  assumes "files_wf fs" and "storable w" and "wl_id w \<notin> wl_id ` set later"
  shows "let fs' = fold (\<lambda>w s. snd (file_save healthy w s)) (earlier @ w # later) fs in
    file_load oc od healthy (wl_id w) fs' = Some (loaded (restored oc od w)) \<and>
    restored Left_to_right Left_to_right w = w\<lparr>wl_episodeCounterForMigration := 2000\<rparr> \<and>
    (i \<notin> wl_id ` set (earlier @ w # later) \<longrightarrow> file_load oc od healthy i fs' = file_load oc od healthy i fs) \<and>
    set (file_listIds fs') = set (file_listIds fs) \<union> wl_id ` set (earlier @ w # later)"
proof -
  have "set (file_listIds (fold (\<lambda>w s. snd (file_save healthy w s)) ws s)) =
      set (file_listIds s) \<union> wl_id ` set ws" if "files_wf s" for ws s
    using that by (induction ws arbitrary: s) (auto simp: files.save_inv files.ids_saved)
  then show ?thesis
    using files.last_save_wins [OF assms, of oc od earlier] assms(1)
      files.saves_other [OF assms(1), of i "earlier @ w # later" oc od]
    unfolding Let_def by (simp only: restored_left_to_right) blast
qed

theorem file_store_last_save_witness:
  "let fs' = fold (\<lambda>w s. snd (file_save healthy w s)) ([sample_created] @ sample_running # [])
               [(file_name (UniqueValue 3), [1, 2])] in
   file_load Right_to_left Left_to_right healthy (wl_id sample_running) fs' =
     Some (loaded (restored Right_to_left Left_to_right sample_running)) \<and>
   file_load Right_to_left Left_to_right healthy (UniqueValue 3) fs' =
     file_load Right_to_left Left_to_right healthy (UniqueValue 3) [(file_name (UniqueValue 3), [1, 2])] \<and>
   set (file_listIds fs') = set (file_listIds [(file_name (UniqueValue 3), [1, 2])]) \<union> {UniqueValue 7}"
proof -
  have i: "wl_id sample_running = UniqueValue 7" "wl_id sample_created = UniqueValue 7" by code_simp+
  have wf: "files_wf [(file_name (UniqueValue 3), [1, 2])]" by (auto simp: files_wf_def)
  have "storable sample_running" using sample_running_fits by (simp add: storable_def)
  from file_store_last_save [OF wf this, of "[]" "[sample_created]" Right_to_left Left_to_right "UniqueValue 3"]
  show ?thesis unfolding Let_def by (simp add: i)
qed

text \<open>
  Saving truncates the file in place and never checks the stream
  after it was flushed. When fewer bytes reach the file than were written, \<open>save\<close> can return
  ALLOW, and the workload cannot be loaded any more, whatever record the file held before.
\<close>

theorem failed_save_destroys_record:
  assumes "fe_mkdir_ok env" and "fe_open_ok env" and "fe_write_ok env"
    and "fe_flushed env = Some n" and "n < length (encodeWorkload w)" and "size_fits (encode w)"
  shows "fst (file_save env w fs) = Outcome.ALLOW \<and>
    file_load oc od healthy (wl_id w) (snd (file_save env w fs)) =
      Some (not_loaded Outcome.REJECT_UNKNOWN ''corrupt/truncated record'')"
proof -
  have cut: "decodeWorkload oc od (take n (encodeWorkload w)) = Some (Outcome.REJECT_UNKNOWN, default_workload)"
    using assms(5,6) by (intro bad_frame_rejected truncated_bad_frame)
  have saved: "file_save env w fs = (Outcome.ALLOW, AList.update (file_name (wl_id w)) (take n (encodeWorkload w)) fs)"
    using assms(1-4) by (simp add: file_save_def Let_def)
  show ?thesis
    unfolding saved file_load_def
    by (simp add: AList.update_conv' healthy_def load_result_def cut isAllow_def)
qed

theorem failed_save_destroys_record_witness:
  "fst (file_save (healthy\<lparr>fe_flushed := Some 0\<rparr>) sample_running []) = Outcome.ALLOW \<and>
   file_load Left_to_right Left_to_right healthy (wl_id sample_running)
     (snd (file_save (healthy\<lparr>fe_flushed := Some 0\<rparr>) sample_running [])) =
   Some (not_loaded Outcome.REJECT_UNKNOWN ''corrupt/truncated record'')"
proof (rule failed_save_destroys_record)
  show "size_fits (encode sample_running)"
    using sample_running_fits(1) by (simp add: workload_fits_def)
  show "0 < length (encodeWorkload sample_running)" by code_simp
qed (simp_all add: healthy_def)

end
