(* ===== verification/Engine.thy ===== *)
theory Engine
  imports Stores Explain "HOL-Library.Mapping" "HOL-Library.AList_Mapping"
begin

text \<open>
  The controller (\<open>WorkloadEngine\<close>, \<open>coordinator.hpp\<close>, \<open>coordinator.cpp\<close>): a map of
  workloads, an optional state store and a counter of episode identities. Every method takes the
  lock for its whole body, so that it is one step here (\<open>Concurrency\<close> justifies this). The store is a
  parameter: its \<open>save\<close> is an argument of the methods, and the lemmas about it are proved in
  the locale \<open>state_store\<close>.
\<close>

section \<open>State and results\<close>

record EngineResult =
  er_outcome :: Outcome
  er_episodeId :: "ExecutionEpisodeId option"
  er_workloadGeneration :: WorkloadGeneration
  er_explanation :: "Explanation option"

definition default_result :: EngineResult where
  "default_result = \<lparr>er_outcome = Outcome.UNKNOWN, er_episodeId = None,
     er_workloadGeneration = no_value, er_explanation = None\<rparr>"

record 's engine =
  en_workloads :: "(WorkloadId, Workload) mapping"
  en_store :: "'s option"
  en_episodeCounter :: u64

type_synonym 's save = "Workload \<Rightarrow> 's \<Rightarrow> Outcome \<times> 's"

definition new_engine :: "'s option \<Rightarrow> 's engine" where
  "new_engine store = \<lparr>en_workloads = Mapping.empty, en_store = store, en_episodeCounter = 1000\<rparr>"

definition engine_get :: "WorkloadId \<Rightarrow> 's engine \<Rightarrow> Workload option" where
  "engine_get i e = Mapping.lookup (en_workloads e) i"

definition engine_exists :: "WorkloadId \<Rightarrow> 's engine \<Rightarrow> bool" where
  "engine_exists i e \<longleftrightarrow> engine_get i e \<noteq> None"

definition put_workload :: "WorkloadId \<Rightarrow> Workload \<Rightarrow> 's engine \<Rightarrow> 's engine" where
  "put_workload i w e = e\<lparr>en_workloads := Mapping.update i w (en_workloads e)\<rparr>"

definition persist :: "'s save \<Rightarrow> Workload \<Rightarrow> 's engine \<Rightarrow> 's engine" where
  "persist save w e =
     (case en_store e of None \<Rightarrow> e | Some s \<Rightarrow> e\<lparr>en_store := Some (snd (save w s))\<rparr>)"

section \<open>Methods\<close>

text \<open>
  The shape of the methods: look the workload up, run an operation on it in place, report the
  outcome and the generation afterwards, and persist it if the operation was allowed.
\<close>

definition on_workload ::
  "(Workload \<Rightarrow> Outcome \<times> Workload) \<Rightarrow> 's save \<Rightarrow> WorkloadId \<Rightarrow> 's engine \<Rightarrow> EngineResult \<times> 's engine" where
  "on_workload f save i e =
     (case engine_get i e of
        None \<Rightarrow> (default_result\<lparr>er_outcome := Outcome.REJECT_WORKLOAD_NOT_FOUND\<rparr>, e)
      | Some w \<Rightarrow>
          let a = f w;
              r = default_result\<lparr>er_outcome := fst a, er_workloadGeneration := wl_generation (snd a)\<rparr>;
              e1 = put_workload i (snd a) e
          in (r, if isAllow (fst a) then persist save (snd a) e1 else e1))"

definition engine_create ::
  "WorkloadId \<Rightarrow> string \<Rightarrow> string \<Rightarrow> Policy \<Rightarrow> 's save \<Rightarrow> 's engine \<Rightarrow> EngineResult \<times> 's engine" where
  "engine_create i name intent policy save e =
     (if engine_get i e \<noteq> None
      then (default_result\<lparr>er_outcome := Outcome.REJECT_DUPLICATE_WORKLOAD\<rparr>, e)
      else
        let w = (create i name intent)\<lparr>wl_policy := policy\<rparr>
        in (default_result\<lparr>er_outcome := Outcome.ALLOW, er_workloadGeneration := fromU64 1\<rparr>,
            persist save w (put_workload i w e)))"

definition engine_validate :: "'s save \<Rightarrow> WorkloadId \<Rightarrow> 's engine \<Rightarrow> EngineResult \<times> 's engine" where
  "engine_validate save i e =
     (case engine_get i e of
        None \<Rightarrow> (default_result\<lparr>er_outcome := Outcome.REJECT_WORKLOAD_NOT_FOUND\<rparr>, e)
      | Some w \<Rightarrow>
          let a = transition WorkloadState.VALIDATING (wl_generation w) ''validate'' w;
              r = default_result\<lparr>er_workloadGeneration := wl_generation w, er_outcome := fst a\<rparr>;
              e1 = put_workload i (snd a) e
          in (r, if isAllow (fst a) then persist save (snd a) e1 else e1))"

definition engine_setPolicy :: "Policy \<Rightarrow> 's save \<Rightarrow> WorkloadId \<Rightarrow> 's engine \<Rightarrow> EngineResult \<times> 's engine" where
  "engine_setPolicy policy save i e =
     (case engine_get i e of
        None \<Rightarrow> (default_result\<lparr>er_outcome := Outcome.REJECT_WORKLOAD_NOT_FOUND\<rparr>, e)
      | Some w \<Rightarrow>
          let w1 = w\<lparr>wl_policy := policy\<rparr>
          in (default_result\<lparr>er_outcome := Outcome.ALLOW, er_workloadGeneration := wl_generation w1\<rparr>,
              persist save w1 (put_workload i w1 e)))"

definition engine_addDependency ::
  "DependencyDef \<Rightarrow> 's save \<Rightarrow> WorkloadId \<Rightarrow> 's engine \<Rightarrow> EngineResult \<times> 's engine" where
  "engine_addDependency d = on_workload (on_deps (define_dependency d))"

definition engine_setDependencyStatus ::
  "nat \<Rightarrow> DependencyStatus \<Rightarrow> DependencyGeneration \<Rightarrow> 's save \<Rightarrow> WorkloadId \<Rightarrow> 's engine \<Rightarrow> EngineResult \<times> 's engine" where
  "engine_setDependencyStatus k st observed = on_workload (on_deps (setStatus k st observed))"

definition engine_addResourceRequirement ::
  "ResourceRequirement \<Rightarrow> 's save \<Rightarrow> WorkloadId \<Rightarrow> 's engine \<Rightarrow> EngineResult \<times> 's engine" where
  "engine_addResourceRequirement r = on_workload (on_contract (add_requirement r))"

definition engine_applyGrant ::
  "ResourceGrant \<Rightarrow> 's save \<Rightarrow> WorkloadId \<Rightarrow> 's engine \<Rightarrow> EngineResult \<times> 's engine" where
  "engine_applyGrant g = on_workload (on_contract (applyGrant g))"

definition engine_settle :: "'s save \<Rightarrow> WorkloadId \<Rightarrow> 's engine \<Rightarrow> EngineResult \<times> 's engine" where
  "engine_settle = on_workload (\<lambda>w. settle (wl_generation w) w)"

definition engine_startEpisode ::
  "OwnerId \<Rightarrow> OwnerGeneration \<Rightarrow> 's save \<Rightarrow> WorkloadId \<Rightarrow> 's engine \<Rightarrow> EngineResult \<times> 's engine" where
  "engine_startEpisode owner ownerGen save i e =
     (case engine_get i e of
        None \<Rightarrow> (default_result\<lparr>er_outcome := Outcome.REJECT_WORKLOAD_NOT_FOUND\<rparr>, e)
      | Some w \<Rightarrow>
          let ep = UniqueValue (en_episodeCounter e);
              e1 = e\<lparr>en_episodeCounter := en_episodeCounter e + 1\<rparr>;
              a = startEpisode ep owner ownerGen True w;
              e2 = put_workload i (snd a) e1;
              r = default_result\<lparr>er_outcome := fst a\<rparr>;
              r1 = (if isAllow (fst a) then r\<lparr>er_episodeId := Some ep\<rparr> else r)
          in (r1\<lparr>er_workloadGeneration := wl_generation (snd a)\<rparr>,
              if isAllow (fst a) then persist save (snd a) e2 else e2))"

definition engine_admitDispatch ::
  "ExecutionEpisodeId \<Rightarrow> WorkerId \<Rightarrow> WorkerBootId \<Rightarrow> 's save \<Rightarrow> WorkloadId \<Rightarrow> 's engine \<Rightarrow> EngineResult \<times> 's engine" where
  "engine_admitDispatch ep wk b = on_workload (admitDispatch ep wk b)"

definition engine_progress ::
  "ExecutionEpisodeId \<Rightarrow> ExecutionEpisodeGeneration \<Rightarrow> u64 \<Rightarrow> bool \<Rightarrow> 's save \<Rightarrow> WorkloadId \<Rightarrow> 's engine \<Rightarrow>
    EngineResult \<times> 's engine" where
  "engine_progress ep eg d dur = on_workload (reportProgress ep eg d dur)"

definition engine_episodeCompleted ::
  "ExecutionEpisodeId \<Rightarrow> 's save \<Rightarrow> WorkloadId \<Rightarrow> 's engine \<Rightarrow> EngineResult \<times> 's engine" where
  "engine_episodeCompleted ep = on_workload (markEpisodeCompleted ep)"

definition engine_commitCompletion ::
  "WorkloadGeneration \<Rightarrow> 's save \<Rightarrow> WorkloadId \<Rightarrow> 's engine \<Rightarrow> EngineResult \<times> 's engine" where
  "engine_commitCompletion g = on_workload (commitCompletion g)"

definition engine_onWorkerLost ::
  "WorkerId \<Rightarrow> WorkerBootId \<Rightarrow> WorkloadGeneration \<Rightarrow> 's save \<Rightarrow> WorkloadId \<Rightarrow> 's engine \<Rightarrow> EngineResult \<times> 's engine" where
  "engine_onWorkerLost wk b g = on_workload (onWorkerLost wk b g)"

definition engine_planRestart ::
  "string \<Rightarrow> WorkloadGeneration \<Rightarrow> 's save \<Rightarrow> WorkloadId \<Rightarrow> 's engine \<Rightarrow> EngineResult \<times> 's engine" where
  "engine_planRestart reason g = on_workload (planRestart g reason)"

definition engine_requestSuspend ::
  "WorkloadGeneration \<Rightarrow> 's save \<Rightarrow> WorkloadId \<Rightarrow> 's engine \<Rightarrow> EngineResult \<times> 's engine" where
  "engine_requestSuspend g = on_workload (requestSuspend g)"

definition engine_completeSuspend ::
  "WorkloadGeneration \<Rightarrow> 's save \<Rightarrow> WorkloadId \<Rightarrow> 's engine \<Rightarrow> EngineResult \<times> 's engine" where
  "engine_completeSuspend g = on_workload (completeSuspend g)"

definition engine_requestResume ::
  "WorkloadGeneration \<Rightarrow> 's save \<Rightarrow> WorkloadId \<Rightarrow> 's engine \<Rightarrow> EngineResult \<times> 's engine" where
  "engine_requestResume g = on_workload (requestResume g)"

definition engine_requestMigration ::
  "WorkloadGeneration \<Rightarrow> 's save \<Rightarrow> WorkloadId \<Rightarrow> 's engine \<Rightarrow> EngineResult \<times> 's engine" where
  "engine_requestMigration g = on_workload (requestMigration g)"

definition engine_commitMigration ::
  "WorkloadGeneration \<Rightarrow> WorkerId \<Rightarrow> WorkerBootId \<Rightarrow> 's save \<Rightarrow> WorkloadId \<Rightarrow> 's engine \<Rightarrow> EngineResult \<times> 's engine" where
  "engine_commitMigration g wk b = on_workload (commitMigration g wk b)"

definition engine_cancel ::
  "WorkloadGeneration \<Rightarrow> 's save \<Rightarrow> WorkloadId \<Rightarrow> 's engine \<Rightarrow> EngineResult \<times> 's engine" where
  "engine_cancel g = on_workload (requestCancellationWorkloadScope g)"

definition engine_completeCancellation ::
  "WorkloadGeneration \<Rightarrow> 's save \<Rightarrow> WorkloadId \<Rightarrow> 's engine \<Rightarrow> EngineResult \<times> 's engine" where
  "engine_completeCancellation g = on_workload (completeCancellation g)"

definition snapshot :: "WorkloadId \<Rightarrow> 's engine \<Rightarrow> Workload" where
  "snapshot i e = (case engine_get i e of None \<Rightarrow> default_workload | Some w \<Rightarrow> w)"

definition engine_list :: "'s engine \<Rightarrow> WorkloadId list" where
  "engine_list e = Mapping.ordered_keys (en_workloads e)"

definition engine_find :: "WorkloadId \<Rightarrow> 's engine \<Rightarrow> Workload option" where
  "engine_find i e = engine_get i e"

section \<open>Requests\<close>

text \<open>
  A history of the engine is a sequence of requests. \<open>workload_step\<close> is the operation a request
  performs on its workload; the episode identity a start uses is the engine's counter.
\<close>

datatype engine_request =
    Create WorkloadId string string Policy
  | Validate WorkloadId
  | SetPolicy WorkloadId Policy
  | Request WorkloadId workload_call
  | SettleNow WorkloadId
  | Start WorkloadId OwnerId OwnerGeneration

text \<open>The calls on a workload the engine offers; the others have no method of their own.\<close>

definition offered :: "workload_call \<Rightarrow> bool" where
  "offered c \<longleftrightarrow>
     (case c of Transition t e r \<Rightarrow> False | Settle e \<Rightarrow> False | StartEpisode i ow og adv \<Rightarrow> False
      | Finalize e \<Rightarrow> False | MarkEpisodeFailed i \<Rightarrow> False | ReleaseGrant g \<Rightarrow> False | _ \<Rightarrow> True)"

primrec target :: "engine_request \<Rightarrow> WorkloadId" where
  "target (Create i name intent p) = i"
| "target (Validate i) = i"
| "target (SetPolicy i p) = i"
| "target (Request i c) = i"
| "target (SettleNow i) = i"
| "target (Start i ow og) = i"

primrec serve :: "'s save \<Rightarrow> engine_request \<Rightarrow> 's engine \<Rightarrow> EngineResult \<times> 's engine" where
  "serve save (Create i name intent p) = engine_create i name intent p save"
| "serve save (Validate i) = engine_validate save i"
| "serve save (SetPolicy i p) = engine_setPolicy p save i"
| "serve save (Request i c) =
     (case c of
        DefineDependency d \<Rightarrow> engine_addDependency d save i
      | SetDependencyStatus k st g \<Rightarrow> engine_setDependencyStatus k st g save i
      | AddRequirement r \<Rightarrow> engine_addResourceRequirement r save i
      | ApplyGrant g \<Rightarrow> engine_applyGrant g save i
      | AdmitDispatch ep wk b \<Rightarrow> engine_admitDispatch ep wk b save i
      | ReportProgress ep eg d dur \<Rightarrow> engine_progress ep eg d dur save i
      | MarkEpisodeCompleted ep \<Rightarrow> engine_episodeCompleted ep save i
      | CommitCompletion g \<Rightarrow> engine_commitCompletion g save i
      | OnWorkerLost wk b g \<Rightarrow> engine_onWorkerLost wk b g save i
      | PlanRestart g reason \<Rightarrow> engine_planRestart reason g save i
      | RequestSuspend g \<Rightarrow> engine_requestSuspend g save i
      | CompleteSuspend g \<Rightarrow> engine_completeSuspend g save i
      | RequestResume g \<Rightarrow> engine_requestResume g save i
      | RequestMigration g \<Rightarrow> engine_requestMigration g save i
      | CommitMigration g wk b \<Rightarrow> engine_commitMigration g wk b save i
      | RequestCancellation g \<Rightarrow> engine_cancel g save i
      | CompleteCancellation g \<Rightarrow> engine_completeCancellation g save i
      | _ \<Rightarrow> (\<lambda>e. (default_result, e)))"
| "serve save (SettleNow i) = engine_settle save i"
| "serve save (Start i ow og) = engine_startEpisode ow og save i"

primrec workload_step :: "engine_request \<Rightarrow> u64 \<Rightarrow> Workload \<Rightarrow> Outcome \<times> Workload" where
  "workload_step (Create i name intent p) n = (\<lambda>w. (Outcome.REJECT_DUPLICATE_WORKLOAD, w))"
| "workload_step (Validate i) n = (\<lambda>w. call (Transition WorkloadState.VALIDATING (wl_generation w) ''validate'') w)"
| "workload_step (SetPolicy i p) n = (\<lambda>w. (Outcome.ALLOW, w\<lparr>wl_policy := p\<rparr>))"
| "workload_step (Request i c) n = (if offered c then call c else (\<lambda>w. (Outcome.UNKNOWN, w)))"
| "workload_step (SettleNow i) n = (\<lambda>w. call (Settle (wl_generation w)) w)"
| "workload_step (Start i ow og) n = call (StartEpisode (UniqueValue n) ow og True)"

lemma engine_lookup [simp]:
  "engine_get j (put_workload i w e) = (if j = i then Some w else engine_get j e)"
  "engine_get j (persist save w e) = engine_get j e"
  "engine_get j (e\<lparr>en_episodeCounter := n\<rparr>) = engine_get j e"
  "en_store (put_workload i w e) = en_store e"
  "en_store (persist save w e) = map_option (\<lambda>s. snd (save w s)) (en_store e)"
  "en_episodeCounter (put_workload i w e) = en_episodeCounter e"
  "en_episodeCounter (persist save w e) = en_episodeCounter e"
  by (simp_all add: engine_get_def put_workload_def persist_def Mapping.lookup_update' split: option.split)

lemma default_result_simps [simp]:
  "er_outcome default_result = Outcome.UNKNOWN" "er_episodeId default_result = None"
  by (simp_all add: default_result_def)

lemma step_id: "wl_id (snd (workload_step r n w)) = wl_id w"
  by (cases r) (simp_all add: call.same_id del: call.simps)

text \<open>Serving a request on a known workload, and on an unknown one.\<close>

definition is_create :: "engine_request \<Rightarrow> bool" where
  "is_create r \<longleftrightarrow> (case r of Create i name intent p \<Rightarrow> True | _ \<Rightarrow> False)"

lemma on_workload_found:
  "engine_get i e = Some w \<Longrightarrow>
   on_workload f save i e = (default_result\<lparr>er_outcome := fst (f w), er_workloadGeneration := wl_generation (snd (f w))\<rparr>,
     if isAllow (fst (f w)) then persist save (snd (f w)) (put_workload i (snd (f w)) e)
     else put_workload i (snd (f w)) e)"
  by (simp add: on_workload_def Let_def)

lemmas method_defs = engine_addDependency_def engine_setDependencyStatus_def engine_addResourceRequirement_def
  engine_applyGrant_def engine_settle_def engine_admitDispatch_def engine_progress_def
  engine_episodeCompleted_def engine_commitCompletion_def engine_onWorkerLost_def engine_planRestart_def
  engine_requestSuspend_def engine_completeSuspend_def engine_requestResume_def engine_requestMigration_def
  engine_commitMigration_def engine_cancel_def engine_completeCancellation_def

lemma serve_request:
  "serve save (Request i c) e = (if offered c then on_workload (call c) save i e else (default_result, e))"
  by (cases c) (simp_all add: method_defs offered_def)

lemma serve_found:
  assumes "engine_get (target r) e = Some w"
  defines "a \<equiv> workload_step r (en_episodeCounter e) w"
  shows "er_outcome (fst (serve save r e)) = fst a"
    and "engine_get j (snd (serve save r e)) = (if j = target r then Some (snd a) else engine_get j e)"
    and "en_store (snd (serve save r e)) =
      (if fst a = Outcome.ALLOW then map_option (\<lambda>s. snd (save (snd a) s)) (en_store e) else en_store e)"
proof -
  have "er_outcome (fst (serve save r e)) = fst a \<and>
    engine_get j (snd (serve save r e)) = (if j = target r then Some (snd a) else engine_get j e) \<and>
    en_store (snd (serve save r e)) =
      (if fst a = Outcome.ALLOW then map_option (\<lambda>s. snd (save (snd a) s)) (en_store e) else en_store e)"
  proof (cases r)
    case (Request i c)
    with assms show ?thesis
      by (simp add: serve_request on_workload_found isAllow_def del: serve.simps(4))
  qed (use assms in \<open>auto simp: engine_create_def engine_validate_def engine_setPolicy_def
        engine_startEpisode_def engine_settle_def on_workload_found isAllow_def Let_def\<close>)
  then show "er_outcome (fst (serve save r e)) = fst a"
    "engine_get j (snd (serve save r e)) = (if j = target r then Some (snd a) else engine_get j e)"
    "en_store (snd (serve save r e)) =
      (if fst a = Outcome.ALLOW then map_option (\<lambda>s. snd (save (snd a) s)) (en_store e) else en_store e)"
    by blast+
qed

lemma serve_unknown:
  assumes "engine_get (target r) e = None" and "\<not> is_create r"
  shows "snd (serve save r e) = e" and "er_outcome (fst (serve save r e)) \<noteq> Outcome.ALLOW"
proof -
  have "snd (serve save r e) = e \<and> er_outcome (fst (serve save r e)) \<noteq> Outcome.ALLOW"
  proof (cases r)
    case (Request i c)
    with assms show ?thesis
      by (simp add: serve_request on_workload_def del: serve.simps(4))
  qed (use assms in \<open>auto simp: is_create_def engine_validate_def engine_setPolicy_def
        engine_startEpisode_def engine_settle_def on_workload_def\<close>)
  then show "snd (serve save r e) = e" "er_outcome (fst (serve save r e)) \<noteq> Outcome.ALLOW" by simp_all
qed

lemma serve_create:
  assumes "engine_get i e = None"
  shows "engine_get j (snd (serve save (Create i name intent p) e)) =
      (if j = i then Some ((create i name intent)\<lparr>wl_policy := p\<rparr>) else engine_get j e)"
    and "en_store (snd (serve save (Create i name intent p) e)) =
      map_option (\<lambda>s. snd (save ((create i name intent)\<lparr>wl_policy := p\<rparr>) s)) (en_store e)"
    and "er_outcome (fst (serve save (Create i name intent p) e)) = Outcome.ALLOW"
  using assms by (simp_all add: engine_create_def Let_def)

text \<open>What a request leaves in place of one workload, whether it was known or not.\<close>

lemma serve_other:
  assumes "j \<noteq> target r"
  shows "engine_get j (snd (serve save r e)) = engine_get j e"
proof (cases "engine_get (target r) e")
  case None
  show ?thesis
  proof (cases "is_create r")
    case True
    then obtain i name intent p where "r = Create i name intent p"
      by (cases r) (simp_all add: is_create_def)
    with None assms show ?thesis using serve_create(1) [of i e] by simp
  next
    case False
    with None show ?thesis by (simp add: serve_unknown)
  qed
next
  case (Some w)
  with assms show ?thesis by (simp add: serve_found)
qed

lemma serve_store_cases:
  obtains "en_store (snd (serve save r e)) = en_store e"
  | w where "wl_id w = target r" "engine_get (target r) (snd (serve save r e)) = Some w"
      "en_store (snd (serve save r e)) = map_option (\<lambda>s. snd (save w s)) (en_store e)"
  | w where "engine_get (target r) e = Some w" "wl_id w \<noteq> target r"
proof (cases "engine_get (target r) e")
  case None
  show thesis
  proof (cases "is_create r")
    case True
    then obtain i name intent p where "r = Create i name intent p"
      by (cases r) (simp_all add: is_create_def)
    with None that(2) [of "(create i name intent)\<lparr>wl_policy := p\<rparr>"] show thesis
      using serve_create [of i e] by (simp add: create_def default_workload_def)
  next
    case False
    with None that(1) show thesis by (simp add: serve_unknown)
  qed
next
  case (Some w)
  let ?a = "workload_step r (en_episodeCounter e) w"
  consider "fst ?a \<noteq> Outcome.ALLOW" | "wl_id w \<noteq> target r" | "fst ?a = Outcome.ALLOW" "wl_id w = target r" by blast
  then show thesis
  proof cases
    case 1
    with Some that(1) show thesis by (simp add: serve_found)
  next
    case 2
    with Some that(3) show thesis by blast
  next
    case 3
    with Some that(2) [of "snd ?a"] show thesis by (simp add: serve_found step_id)
  qed
qed

definition keys_match :: "'s engine \<Rightarrow> bool" where
  "keys_match e \<longleftrightarrow> (\<forall>i w. engine_get i e = Some w \<longrightarrow> wl_id w = i)"

lemma serve_keys_match:
  assumes "keys_match e"
  shows "keys_match (snd (serve save r e))"
  unfolding keys_match_def
proof (intro allI impI)
  fix j v assume v: "engine_get j (snd (serve save r e)) = Some v"
  show "wl_id v = j"
  proof (cases "j = target r")
    case False
    with v assms show ?thesis by (simp add: serve_other keys_match_def)
  next
    case True
    show ?thesis
    proof (cases "engine_get (target r) e")
      case None
      then show ?thesis
        using v True serve_unknown [of r e save] serve_create(1) [of "target r" e "target r" save]
        by (cases r) (auto simp: is_create_def create_def default_workload_def)
    next
      case (Some w)
      with v True assms show ?thesis by (auto simp: serve_found step_id keys_match_def)
    qed
  qed
qed

section \<open>The engine and its store\<close>

context state_store
begin

lemma serve_durable:
  assumes "keys_match e" and "en_store e = Some s" and "inv s"
    and "er_outcome (fst (serve save r e)) = Outcome.ALLOW"
    and "engine_get (target r) (snd (serve save r e)) = Some w" and "storable w"
  shows "\<exists>s'. en_store (snd (serve save r e)) = Some s' \<and> inv s' \<and>
    load (target r) s' = Some (loaded (restore w))"
proof -
  have "wl_id w = target r"
    using serve_keys_match [OF assms(1)] assms(5) unfolding keys_match_def by blast
  moreover have "en_store (snd (serve save r e)) = Some (snd (save w s))"
  proof (cases "engine_get (target r) e")
    case None
    then have "is_create r" using serve_unknown [OF None] assms(4) by blast
    then obtain i name intent p where "r = Create i name intent p"
      by (cases r) (simp_all add: is_create_def)
    with None assms show ?thesis using serve_create [of i e] by simp
  next
    case (Some v)
    with assms show ?thesis by (simp add: serve_found)
  qed
  ultimately show ?thesis
    using save_inv [OF assms(3), of w] load_saved [OF assms(3,6)] by auto
qed

lemma serve_isolated:
  assumes "keys_match e" and "en_store e = Some s" and "inv s" and "j \<noteq> target r"
  shows "\<exists>s'. en_store (snd (serve save r e)) = Some s' \<and> inv s' \<and> load j s' = load j s"
proof (cases rule: serve_store_cases [of save r e])
  case 1
  with assms show ?thesis by simp
next
  case (2 w)
  with assms show ?thesis
    using save_inv [OF assms(3), of w] load_other [OF assms(3), of j w] by simp
next
  case (3 w)
  with assms(1) show ?thesis by (auto simp: keys_match_def)
qed

end

text \<open>
  What one request leaves in the attached store: after an allowed one the current version of its
  workload can be loaded, as the store restores it, if it is storable; after a rejected one on a known
  identity the store is as it was; and no other identity is affected, in memory or in the store.
\<close>

definition request_persisted ::
  "'s save \<Rightarrow> (WorkloadId \<Rightarrow> 's \<Rightarrow> LoadResult option) \<Rightarrow> (Workload \<Rightarrow> Workload) \<Rightarrow> engine_request \<Rightarrow> 's engine \<Rightarrow> bool" where
  "request_persisted save load restore r e \<longleftrightarrow>
     (let e' = snd (serve save r e); out = er_outcome (fst (serve save r e)) in
      (\<forall>w. out = Outcome.ALLOW \<and> engine_get (target r) e' = Some w \<and> storable w \<longrightarrow>
         map_option (load (target r)) (en_store e') = Some (Some (loaded (restore w)))) \<and>
      (engine_exists (target r) e \<and> out \<noteq> Outcome.ALLOW \<longrightarrow> en_store e' = en_store e) \<and>
      (\<forall>j. j \<noteq> target r \<longrightarrow> engine_get j e' = engine_get j e \<and>
         map_option (load j) (en_store e') = map_option (load j) (en_store e)))"

lemma request_persisted_rejected:
  "engine_exists (target r) e \<Longrightarrow> er_outcome (fst (serve save r e)) \<noteq> Outcome.ALLOW \<Longrightarrow>
   en_store (snd (serve save r e)) = en_store e"
  by (auto simp: engine_exists_def serve_found)

text \<open>
  C11. The engine keeps its store in step, with the memory store attached, and with the file store
  on a file system that does not fail and a directory that holds only files of the store's naming:
  after an allowed request the current version of its workload, if storable, can be loaded, and it
  is what the codec restores of it (the workload with the migration counter at 2000, for the order
  of constructor arguments from left to right); a rejected request on a known identity does not
  write; other identities are untouched, in memory and in the store.
\<close>

theorem engine_persistence:
  "(keys_match e \<and> en_store e = Some s \<and> distinct (map fst s) \<longrightarrow>
      request_persisted mem_save (mem_load oc od) (restored oc od) r e) \<and>
   (keys_match f \<and> en_store f = Some fs \<and> files_wf fs \<longrightarrow>
      request_persisted (file_save healthy) (file_load oc od healthy) (restored oc od) r f) \<and>
   restored Left_to_right Left_to_right w = w\<lparr>wl_episodeCounterForMigration := 2000\<rparr>"
proof (intro conjI impI)
  assume *: "keys_match e \<and> en_store e = Some s \<and> distinct (map fst s)"
  then have pre: "keys_match e" "en_store e = Some s" "distinct (map fst s)" by simp_all
  show "request_persisted mem_save (mem_load oc od) (restored oc od) r e"
    unfolding request_persisted_def Let_def
    using memory.serve_durable [OF pre, of r _ oc od] memory.serve_isolated [OF pre, of _ r oc od]
      request_persisted_rejected [of r e mem_save] pre(2)
    by (fastforce simp: serve_other)
next
  assume *: "keys_match f \<and> en_store f = Some fs \<and> files_wf fs"
  then have pre: "keys_match f" "en_store f = Some fs" "files_wf fs" by simp_all
  show "request_persisted (file_save healthy) (file_load oc od healthy) (restored oc od) r f"
    unfolding request_persisted_def Let_def
    using files.serve_durable [OF pre, of r _ oc od] files.serve_isolated [OF pre, of _ r oc od]
      request_persisted_rejected [of r f "file_save healthy"] pre(2)
    by (fastforce simp: serve_other)
qed (rule restored_left_to_right)

definition sample_engine :: "memory engine" where
  "sample_engine = snd (serve mem_save (Create (UniqueValue 7) ''w'' ''job'' default_policy) (new_engine (Some [])))"

lemma sample_engine_facts:
  "keys_match sample_engine"
  "en_store sample_engine = Some [(UniqueValue 7, encodeWorkload ((create (UniqueValue 7) ''w'' ''job'')\<lparr>wl_policy := default_policy\<rparr>))]"
  "engine_get (UniqueValue 7) sample_engine = Some ((create (UniqueValue 7) ''w'' ''job'')\<lparr>wl_policy := default_policy\<rparr>)"
proof -
  have unknown: "engine_get (UniqueValue 7) (new_engine (Some [])) = None"
    by (simp add: engine_get_def new_engine_def Mapping.lookup_empty)
  have "keys_match (new_engine (Some ([] :: memory)))"
    by (simp add: keys_match_def engine_get_def new_engine_def Mapping.lookup_empty)
  then show "keys_match sample_engine"
    unfolding sample_engine_def by (rule serve_keys_match)
  show "en_store sample_engine = Some [(UniqueValue 7, encodeWorkload ((create (UniqueValue 7) ''w'' ''job'')\<lparr>wl_policy := default_policy\<rparr>))]"
    using serve_create(2) [OF unknown, of mem_save "''w''" "''job''" default_policy]
    by (simp add: sample_engine_def new_engine_def mem_save_def create_def default_workload_def)
  show "engine_get (UniqueValue 7) sample_engine = Some ((create (UniqueValue 7) ''w'' ''job'')\<lparr>wl_policy := default_policy\<rparr>)"
    using serve_create(1) [OF unknown, of "UniqueValue 7" mem_save "''w''" "''job''" default_policy]
    by (simp add: sample_engine_def)
qed

definition sample_validated :: Workload where
  "sample_validated = snd (transition WorkloadState.VALIDATING (UniqueValue 1) ''validate''
     ((create (UniqueValue 7) ''w'' ''job'')\<lparr>wl_policy := default_policy\<rparr>))"

theorem engine_persistence_witness:
  "let r = Validate (UniqueValue 7); e' = snd (serve mem_save r sample_engine);
       again = Create (UniqueValue 7) ''x'' ''y'' default_policy
   in er_outcome (fst (serve mem_save r sample_engine)) = Outcome.ALLOW \<and>
      map_option (mem_load Left_to_right Left_to_right (UniqueValue 7)) (en_store e') =
        Some (Some (loaded (sample_validated\<lparr>wl_episodeCounterForMigration := 2000\<rparr>))) \<and>
      en_store (snd (serve mem_save again sample_engine)) = en_store sample_engine \<and>
      engine_get (UniqueValue 8) e' = engine_get (UniqueValue 8) sample_engine"
proof -
  let ?r = "Validate (UniqueValue 7)" and ?again = "Create (UniqueValue 7) ''x'' ''y'' default_policy"
  have store: "keys_match sample_engine \<and> en_store sample_engine = Some [(UniqueValue 7,
      encodeWorkload ((create (UniqueValue 7) ''w'' ''job'')\<lparr>wl_policy := default_policy\<rparr>))] \<and>
      distinct (map fst [(UniqueValue 7 :: WorkloadId,
        encodeWorkload ((create (UniqueValue 7) ''w'' ''job'')\<lparr>wl_policy := default_policy\<rparr>))])"
    using sample_engine_facts(1,2) by simp
  have p: "request_persisted mem_save (mem_load Left_to_right Left_to_right) (restored Left_to_right Left_to_right) q sample_engine" for q
    using engine_persistence [of sample_engine _ Left_to_right Left_to_right q] store by blast
  let ?w = "(create (UniqueValue 7) ''w'' ''job'')\<lparr>wl_policy := default_policy\<rparr>"
  have exists: "engine_exists (UniqueValue 7) sample_engine"
    using sample_engine_facts(3) by (simp add: engine_exists_def)
  have g: "wl_generation ?w = UniqueValue 1" "fst (transition WorkloadState.VALIDATING (UniqueValue 1) ''validate'' ?w) = Outcome.ALLOW"
    by code_simp+
  have ok: "er_outcome (fst (serve mem_save ?r sample_engine)) = Outcome.ALLOW"
    "engine_get (UniqueValue 7) (snd (serve mem_save ?r sample_engine)) = Some sample_validated"
    using g by (simp_all only: serve_found [where r = ?r, unfolded target.simps, OF sample_engine_facts(3)]
        workload_step.simps call.simps g(1) sample_validated_def if_True simp_thms)
  have "storable sample_validated" by code_simp
  then have "map_option (mem_load Left_to_right Left_to_right (UniqueValue 7)) (en_store (snd (serve mem_save ?r sample_engine))) =
      Some (Some (loaded (sample_validated\<lparr>wl_episodeCounterForMigration := 2000\<rparr>)))"
    using p [of ?r] ok by (simp add: request_persisted_def Let_def restored_left_to_right del: serve.simps)
  moreover have "er_outcome (fst (serve mem_save ?again sample_engine)) \<noteq> Outcome.ALLOW"
    using exists by (simp add: engine_create_def engine_exists_def default_result_def)
  then have "en_store (snd (serve mem_save ?again sample_engine)) = en_store sample_engine"
    using p [of ?again] exists by (simp add: request_persisted_def Let_def del: serve.simps)
  moreover have "engine_get (UniqueValue 8) (snd (serve mem_save ?r sample_engine)) = engine_get (UniqueValue 8) sample_engine"
    using p [of ?r] by (simp add: request_persisted_def Let_def del: serve.simps)
  ultimately show ?thesis using ok(1) by (simp only: Let_def simp_thms)
qed

text \<open>
  Creating a workload under an identity in use is rejected as a duplicate,
  and every other request for an unknown identity is rejected as not found; neither changes the
  engine, its store or its episode counter.
\<close>

theorem engine_lookup_errors:
  "(engine_exists i e \<longrightarrow> serve save (Create i name intent p) e =
      (default_result\<lparr>er_outcome := Outcome.REJECT_DUPLICATE_WORKLOAD\<rparr>, e)) \<and>
   (\<not> engine_exists (target r) e \<and> \<not> is_create r \<and> (\<forall>c. r = Request (target r) c \<longrightarrow> offered c) \<longrightarrow>
      serve save r e = (default_result\<lparr>er_outcome := Outcome.REJECT_WORKLOAD_NOT_FOUND\<rparr>, e))"
proof (intro conjI impI)
  show "serve save (Create i name intent p) e =
      (default_result\<lparr>er_outcome := Outcome.REJECT_DUPLICATE_WORKLOAD\<rparr>, e)" if "engine_exists i e"
    using that by (simp add: engine_exists_def engine_create_def)
  assume *: "\<not> engine_exists (target r) e \<and> \<not> is_create r \<and> (\<forall>c. r = Request (target r) c \<longrightarrow> offered c)"
  show "serve save r e = (default_result\<lparr>er_outcome := Outcome.REJECT_WORKLOAD_NOT_FOUND\<rparr>, e)"
  proof (cases r)
    case (Request i c)
    with * show ?thesis
      by (simp add: serve_request engine_exists_def on_workload_def del: serve.simps(4))
  qed (use * in \<open>auto simp: is_create_def engine_exists_def engine_validate_def engine_setPolicy_def
        engine_startEpisode_def engine_settle_def on_workload_def\<close>)
qed

theorem engine_lookup_errors_witness:
  "serve mem_save (Create (UniqueValue 7) ''a'' ''b'' default_policy) sample_engine =
     (default_result\<lparr>er_outcome := Outcome.REJECT_DUPLICATE_WORKLOAD\<rparr>, sample_engine)"
proof -
  have "engine_exists (UniqueValue 7) sample_engine"
    by (simp add: engine_exists_def sample_engine_facts(3))
  then show ?thesis
    using engine_lookup_errors [of "UniqueValue 7" sample_engine mem_save "''a''" "''b''" default_policy] by blast
qed

section \<open>Histories of the engine\<close>

fun serve_all :: "'s save \<Rightarrow> engine_request list \<Rightarrow> 's engine \<Rightarrow> 's engine" where
  "serve_all save [] e = e"
| "serve_all save (r # rs) e = serve_all save rs (snd (serve save r e))"

definition sound :: "WorkloadId \<Rightarrow> Workload \<Rightarrow> bool" where
  "sound i w \<longleftrightarrow> wl_id w = i \<and> authorities (wl_episodes w) \<le> Suc 0 \<and> dset_wf (wl_deps w) \<and>
     contract_wf (wl_contract w) \<and> within_total (wl_progress w) \<and>
     lifecycle_path WorkloadState.CREATED (wl_state w)"

lemma sound_create: "sound i ((create i name intent)\<lparr>wl_policy := p\<rparr>)"
  by (simp add: sound_def create_def default_workload_def authorities_def within_total_def
      default_progress_def contract_wf_def new_contract_def path_refl dset_wf_new)

lemma sound_step: "sound i w \<Longrightarrow> sound i (snd (workload_step r n w))"
proof -
  assume w: "sound i w"
  have "sound i (snd (call c w))" for c
    using w call.same_id [of c w] call.authority [of w c] call.deps_wf [of w c] call.contract [of w c]
      call_within_total [of w c] path_trans [OF _ call.path [of w c]]
    by (simp add: sound_def)
  with w show ?thesis
    by (cases r) (auto simp del: call.simps simp: sound_def)
qed

lemma serve_sound:
  assumes "\<forall>i w. engine_get i e = Some w \<longrightarrow> sound i w" and "engine_get j (snd (serve save r e)) = Some v"
  shows "sound j v"
proof (cases "j = target r")
  case False
  with assms show ?thesis by (simp add: serve_other)
next
  case True
  show ?thesis
  proof (cases "engine_get (target r) e")
    case None
    then show ?thesis
      using assms(2) True serve_unknown [of r e save] serve_create(1) [of "target r" e "target r" save]
      by (cases r) (auto simp: is_create_def sound_create)
  next
    case (Some w)
    with assms True show ?thesis by (auto simp: serve_found sound_step)
  qed
qed

text \<open>
  After any sequence of requests to a new engine, every workload is filed
  under its own identity, has at most one authoritative episode, well-formed dependencies and a
  well-formed contract, progress within its known total, and a state reached from CREATED along
  the transition table. Changing the policy at any time does not break this.
\<close>

theorem engine_workloads_sound:
  assumes "engine_get i (serve_all save rs (new_engine store)) = Some w"
  shows "sound i w"
proof -
  have "\<forall>i w. engine_get i (serve_all save rs e) = Some w \<longrightarrow> sound i w"
    if "\<forall>i w. engine_get i e = Some w \<longrightarrow> sound i w" for e
    using that
  proof (induction rs arbitrary: e)
    case (Cons r rs)
    have "\<forall>i w. engine_get i (snd (serve save r e)) = Some w \<longrightarrow> sound i w"
      using serve_sound [OF Cons.prems] by blast
    then show ?case using Cons.IH [of "snd (serve save r e)"] by simp
  qed simp
  moreover have "\<forall>i w. engine_get i (new_engine store) = Some w \<longrightarrow> sound i w"
    by (simp add: engine_get_def new_engine_def Mapping.lookup_empty)
  ultimately show ?thesis using assms by blast
qed

theorem engine_workloads_sound_witness:
  "sound (UniqueValue 7) ((create (UniqueValue 7) ''w'' ''job'')\<lparr>wl_policy := default_policy\<rparr>)"
proof (rule engine_workloads_sound)
  show "engine_get (UniqueValue 7) (serve_all mem_save [Create (UniqueValue 7) ''w'' ''job'' default_policy]
      (new_engine (Some []))) = Some ((create (UniqueValue 7) ''w'' ''job'')\<lparr>wl_policy := default_policy\<rparr>)"
    using sample_engine_facts(3) by (simp only: serve_all.simps sample_engine_def)
qed

text \<open>
  A workload of the engine in a terminal state stays in it, with its
  generation, progress and episodes frozen, through every later sequence of requests.
\<close>

theorem engine_keeps_terminal:
  assumes "engine_get i e = Some w" and "isTerminal (wl_state w)"
  shows "\<exists>v. engine_get i (serve_all save rs e) = Some v \<and> frozen_part v = frozen_part w"
  using assms
proof (induction rs arbitrary: e w)
  case (Cons r rs)
  have frozen: "frozen_part (snd (workload_step r n w)) = frozen_part w" for n
    using Cons.prems(2) by (cases r) (auto simp del: call.simps simp: frozen_part_call, simp add: frozen_part_def)
  then have state: "isTerminal (wl_state (snd (workload_step r n w)))" for n
    using Cons.prems(2) by (simp add: frozen_part_def)
  show ?case
  proof (cases "i = target r")
    case True
    then have "engine_get i (snd (serve save r e)) = Some (snd (workload_step r (en_episodeCounter e) w))"
      using Cons.prems(1) by (simp add: serve_found)
    from Cons.IH [OF this state] frozen show ?thesis by simp
  next
    case False
    then have "engine_get i (snd (serve save r e)) = Some w"
      using Cons.prems(1) by (simp add: serve_other)
    from Cons.IH [OF this Cons.prems(2)] show ?thesis by simp
  qed
qed auto

theorem engine_keeps_terminal_witness:
  "\<exists>v. engine_get (UniqueValue 7) (serve_all mem_save [SettleNow (UniqueValue 7), Start (UniqueValue 7) (UniqueValue 1) (UniqueValue 1)]
      (put_workload (UniqueValue 7) sample_completed (new_engine (Some [])))) = Some v \<and>
    frozen_part v = frozen_part sample_completed"
proof (rule engine_keeps_terminal)
  show "engine_get (UniqueValue 7) (put_workload (UniqueValue 7) sample_completed (new_engine (Some ([] :: memory)))) =
      Some sample_completed" by simp
  show "isTerminal (wl_state sample_completed)" by code_simp
qed

section \<open>Episode identities\<close>

lemma serve_counter:
  "en_episodeCounter (snd (serve save r e)) = en_episodeCounter e \<and> er_episodeId (fst (serve save r e)) = None \<or>
   en_episodeCounter (snd (serve save r e)) = en_episodeCounter e + 1 \<and>
     er_episodeId (fst (serve save r e)) \<in> {None, Some (UniqueValue (en_episodeCounter e))}"
proof (cases r)
  case (Request i c)
  then show ?thesis
    by (auto simp: serve_request on_workload_def Let_def simp del: serve.simps(4) split: option.split)
qed (auto simp: engine_create_def engine_validate_def engine_setPolicy_def engine_startEpisode_def
    engine_settle_def on_workload_def Let_def split: option.split)

text \<open>The identities given to the episodes a sequence of requests starts.\<close>

fun issued :: "'s save \<Rightarrow> engine_request list \<Rightarrow> 's engine \<Rightarrow> ExecutionEpisodeId list" where
  "issued save [] e = []"
| "issued save (r # rs) e =
     (case er_episodeId (fst (serve save r e)) of None \<Rightarrow> [] | Some i \<Rightarrow> [i]) @
     issued save rs (snd (serve save r e))"

lemma issued_fresh:
  assumes "unat (en_episodeCounter e) + length rs < 2 ^ 64"
  shows "distinct (issued save rs e) \<and> (\<forall>i\<in>set (issued save rs e). en_episodeCounter e \<le> toU64 i)"
  using assms
proof (induction rs arbitrary: e)
  case (Cons r rs)
  let ?e' = "snd (serve save r e)"
  have "en_episodeCounter e \<noteq> - 1"
  proof
    assume "en_episodeCounter e = - 1"
    then have "unat (en_episodeCounter e) = 2 ^ 64 - 1"
      by (simp add: unsigned_minus_1_eq_mask mask_eq_exp_minus_1)
    with Cons.prems show False by simp
  qed
  then have succ: "unat (en_episodeCounter e + 1) = Suc (unat (en_episodeCounter e))"
    by (rule unat_succ_u64)
  have "en_episodeCounter ?e' = en_episodeCounter e \<and> er_episodeId (fst (serve save r e)) = None \<or>
    en_episodeCounter ?e' = en_episodeCounter e + 1 \<and>
      er_episodeId (fst (serve save r e)) \<in> {None, Some (UniqueValue (en_episodeCounter e))}"
    by (rule serve_counter)
  then consider
    "en_episodeCounter ?e' = en_episodeCounter e" "er_episodeId (fst (serve save r e)) = None"
    | "en_episodeCounter ?e' = en_episodeCounter e + 1"
      "er_episodeId (fst (serve save r e)) \<in> {None, Some (UniqueValue (en_episodeCounter e))}"
    by argo
  then show ?case
  proof cases
    case 1
    with Cons.IH [of ?e'] Cons.prems show ?thesis by simp
  next
    case 2
    have "distinct (issued save rs ?e') \<and> (\<forall>i\<in>set (issued save rs ?e'). en_episodeCounter ?e' \<le> toU64 i)"
      using Cons.prems 2(1) succ by (intro Cons.IH) simp
    moreover have "en_episodeCounter e < x" if "en_episodeCounter e + 1 \<le> x" for x
      using that succ by (simp add: word_le_nat_alt word_less_nat_alt)
    ultimately show ?thesis
      using 2 by (fastforce dest: less_imp_le)
  qed
qed simp

text \<open>
  The engine never gives one episode identity to two episodes, of the same or of
  different workloads, in any sequence of requests (as long as its 64-bit counter cannot have
  wrapped around); all identities are at least 1000.
\<close>

theorem episode_ids_fresh:
  assumes "1000 + length rs < 2 ^ 64"
  shows "distinct (issued save rs (new_engine store)) \<and>
    (\<forall>i\<in>set (issued save rs (new_engine store)). 1000 \<le> toU64 i)"
  using issued_fresh [of "new_engine store" rs save] assms by (simp add: new_engine_def)

theorem episode_ids_fresh_witness:
  "distinct (issued mem_save [Create (UniqueValue 7) ''w'' ''job'' default_policy,
     Start (UniqueValue 7) (UniqueValue 1) (UniqueValue 1)] (new_engine (Some [])))"
  using episode_ids_fresh [of "[Create (UniqueValue 7) ''w'' ''job'' default_policy,
     Start (UniqueValue 7) (UniqueValue 1) (UniqueValue 1)]" mem_save "Some []"] by simp

section \<open>Rejected requests that change the workload\<close>

text \<open>
  Some rejected requests do change the workload in memory, and the
  engine persists allowed ones only: after a rejected cancellation of a workload that has not
  started any work, the workload in memory is finally cancelled while the store still holds the
  version before, so that a reload brings it back to life.
\<close>

theorem rejected_change_not_persisted:
  assumes "engine_get i e = Some w" and "pre_execution (wl_state w)"
  shows "let r = serve save (Request i (CompleteCancellation (wl_generation w))) e in
    er_outcome (fst r) = Outcome.REJECT_INVALID_TRANSITION \<and> en_store (snd r) = en_store e \<and>
    (\<exists>v. engine_get i (snd r) = Some v \<and> wl_cancelledFinal v)"
proof -
  let ?req = "Request i (CompleteCancellation (wl_generation w))"
  let ?a = "completeCancellation (wl_generation w) w"
  have s: "\<not> isTerminal (wl_state w)" "\<not> canTransition (wl_state w) WorkloadState.CANCELLATION_REQUESTED"
    "wl_state w \<noteq> WorkloadState.CANCELLED" "wl_state w \<noteq> WorkloadState.CANCELLATION_REQUESTED"
    using assms(2) by (auto simp: pre_execution_def canTransition_iff)
  then have a: "fst ?a = Outcome.REJECT_INVALID_TRANSITION" "wl_cancelledFinal (snd ?a)"
    using guardedTransition_no_edge [of
        "w\<lparr>wl_cancelledFinal := True, wl_cancellationRequested := True\<rparr>"
        WorkloadState.CANCELLATION_REQUESTED "''cancelling''"]
    by (simp_all add: completeCancellation_def Let_def isAllow_def)
  have step: "workload_step ?req n w = ?a" for n by (simp add: offered_def)
  have found: "engine_get (target ?req) e = Some w" using assms(1) by simp
  show ?thesis
    using a by (simp add: Let_def serve_found [OF found] step del: serve.simps(4) workload_step.simps)
qed

theorem rejected_change_not_persisted_witness:
  "let r = serve mem_save (Request (UniqueValue 7) (CompleteCancellation (UniqueValue 1))) sample_engine in
    er_outcome (fst r) = Outcome.REJECT_INVALID_TRANSITION \<and> en_store (snd r) = en_store sample_engine"
proof -
  let ?w = "(create (UniqueValue 7) ''w'' ''job'')\<lparr>wl_policy := default_policy\<rparr>"
  have "pre_execution (wl_state ?w)" "wl_generation ?w = UniqueValue 1" by code_simp+
  with rejected_change_not_persisted [OF sample_engine_facts(3), of mem_save] show ?thesis
    unfolding Let_def by simp
qed

end
