(* ===== verification/Concurrency.thy ===== *)
theory Concurrency
  imports Engine
begin

text \<open>
  The engine under concurrent clients (\<open>coordinator.cpp\<close>, exercised by \<open>tests/concurrency.cpp\<close>).
  Every method starts with \<open>std::lock_guard<std::mutex> g(mtx_)\<close>: it waits for the mutex, runs its
  body in several steps on the shared members, and releases the mutex when it returns. Here the
  steps of a body are separate: the look-up, the operation in place, the write to the store, the
  return. Threads are scheduled in any order between any two of them. What a client does next
  may depend on everything it has been answered.
\<close>

section \<open>Methods as sequences of steps\<close>

datatype action =
    Mutate engine_request
  | AskExists WorkloadId
  | AskSnapshot WorkloadId
  | AskList
  | AskFind WorkloadId

datatype observation =
    Answered EngineResult
  | Existence bool
  | Copied Workload
  | Identities "WorkloadId list"
  | Found "Workload option"

text \<open>The whole method, as one step: the definitions of \<open>Engine\<close>.\<close>

primrec perform :: "'s save \<Rightarrow> action \<Rightarrow> 's engine \<Rightarrow> observation \<times> 's engine" where
  "perform save (Mutate r) e = (Answered (fst (serve save r e)), snd (serve save r e))"
| "perform save (AskExists i) e = (Existence (engine_exists i e), e)"
| "perform save (AskSnapshot i) e = (Copied (snapshot i e), e)"
| "perform save AskList e = (Identities (engine_list e), e)"
| "perform save (AskFind i) e = (Found (engine_find i e), e)"

text \<open>
  Where a thread is in a body: before the look-up; with a pointer to a workload in the map, before
  the operation on it; with the result, before the store is called; before the closing brace.
\<close>

datatype phase =
    Looking action
  | Operating engine_request
  | Saving WorkloadId EngineResult
  | Returning observation

definition start_of :: "engine_request \<Rightarrow> 's engine \<Rightarrow> 's engine" where
  "start_of r e = (case r of Start i ow og \<Rightarrow> e\<lparr>en_episodeCounter := en_episodeCounter e + 1\<rparr> | _ \<Rightarrow> e)"

definition in_place :: "engine_request \<Rightarrow> u64 \<Rightarrow> Workload \<Rightarrow> EngineResult \<times> Workload" where
  "in_place r n w =
     (let a = workload_step r n w
      in (default_result\<lparr>er_outcome := fst a,
            er_episodeId := (case r of Start i ow og \<Rightarrow> if isAllow (fst a) then Some (UniqueValue n) else None
                                     | _ \<Rightarrow> None),
            er_workloadGeneration := wl_generation (case r of Validate i \<Rightarrow> w | _ \<Rightarrow> snd a)\<rparr>,
          snd a))"

definition look :: "'s save \<Rightarrow> action \<Rightarrow> 's engine \<Rightarrow> phase" where
  "look save a e =
     (case a of
        Mutate r \<Rightarrow>
          if is_create r
          then (if engine_exists (target r) e
                then Returning (Answered (default_result\<lparr>er_outcome := Outcome.REJECT_DUPLICATE_WORKLOAD\<rparr>))
                else Operating r)
          else (if engine_exists (target r) e then Operating r
                else Returning (Answered (default_result\<lparr>er_outcome := Outcome.REJECT_WORKLOAD_NOT_FOUND\<rparr>)))
      | _ \<Rightarrow> Returning (fst (perform save a e)))"

definition operate :: "engine_request \<Rightarrow> 's engine \<Rightarrow> phase \<times> 's engine" where
  "operate r e =
     (case r of
        Create i name intent p \<Rightarrow>
          (Saving i (default_result\<lparr>er_outcome := Outcome.ALLOW, er_workloadGeneration := fromU64 1\<rparr>),
           put_workload i ((create i name intent)\<lparr>wl_policy := p\<rparr>) e)
      | _ \<Rightarrow>
          let x = in_place r (en_episodeCounter e) (snapshot (target r) e);
              e1 = put_workload (target r) (snd x) (start_of r e)
          in (if isAllow (er_outcome (fst x)) then Saving (target r) (fst x) else Returning (Answered (fst x)), e1))"

primrec run_phase :: "'s save \<Rightarrow> phase \<Rightarrow> 's engine \<Rightarrow> phase \<times> 's engine" where
  "run_phase save (Looking a) e = (look save a e, e)"
| "run_phase save (Operating r) e = operate r e"
| "run_phase save (Saving i x) e = (Returning (Answered x), persist save (snapshot i e) e)"
| "run_phase save (Returning o') e = (Returning o', e)"

text \<open>How many steps are left before the body returns.\<close>

primrec steps_left :: "phase \<Rightarrow> nat" where
  "steps_left (Looking a) = 3"
| "steps_left (Operating r) = 2"
| "steps_left (Saving i x) = 1"
| "steps_left (Returning o') = 0"

definition returning :: "phase \<Rightarrow> bool" where
  "returning p \<longleftrightarrow> steps_left p = 0"

lemma returning_iff: "returning p \<longleftrightarrow> (\<exists>o'. p = Returning o')"
  by (cases p) (simp_all add: returning_def)

lemma run_phase_decreases: "\<not> returning p \<Longrightarrow> steps_left (fst (run_phase save p e)) < steps_left p"
  by (cases p)
    (auto simp: returning_def look_def operate_def Let_def split: action.split engine_request.split)

function run_body :: "'s save \<Rightarrow> phase \<Rightarrow> 's engine \<Rightarrow> phase \<times> 's engine" where
  "run_body save p e =
     (if returning p then (p, e) else run_body save (fst (run_phase save p e)) (snd (run_phase save p e)))"
  by auto
termination by (relation "measure (\<lambda>(save, p, e). steps_left p)") (auto simp: run_phase_decreases case_prod_unfold)

declare run_body.simps [simp del]

lemma run_body_returning [simp]: "run_body save (Returning o') e = (Returning o', e)"
  by (simp add: run_body.simps returning_def)

lemma run_body_step:
  "\<not> returning p \<Longrightarrow>
   run_body save p e = run_body save (fst (run_phase save p e)) (snd (run_phase save p e))"
  by (simp add: run_body.simps [of save p e])

text \<open>The calls a client can make: a request with a method of its own, or a query.\<close>

definition callable :: "action \<Rightarrow> bool" where
  "callable a \<longleftrightarrow> (\<forall>i c. a = Mutate (Request i c) \<longrightarrow> offered c)"

lemma callable_code [code]:
  "callable a = (case a of Mutate r \<Rightarrow> (case r of Request i c \<Rightarrow> offered c | _ \<Rightarrow> True) | _ \<Rightarrow> True)"
  by (auto simp: callable_def split: action.split engine_request.split)

text \<open>Without interruption the steps of a body are the method.\<close>

lemma serve_known:
  assumes "engine_get (target r) e = Some w" and "\<not> is_create r" and "callable (Mutate r)"
  defines "x \<equiv> in_place r (en_episodeCounter e) w"
  defines "e1 \<equiv> put_workload (target r) (snd x) (start_of r e)"
  shows "serve save r e = (fst x, if isAllow (er_outcome (fst x)) then persist save (snd x) e1 else e1)"
proof (cases r)
  case (Request i c)
  with assms show ?thesis
    by (simp add: serve_request on_workload_found in_place_def start_of_def callable_def default_result_def
        Let_def del: serve.simps(4))
qed (use assms in \<open>auto simp: is_create_def engine_validate_def engine_setPolicy_def engine_startEpisode_def
      engine_settle_def on_workload_found isAllow_def in_place_def start_of_def default_result_def Let_def\<close>)

lemma serve_missing:
  assumes "engine_get (target r) e = None" and "\<not> is_create r" and "callable (Mutate r)"
  shows "serve save r e = (default_result\<lparr>er_outcome := Outcome.REJECT_WORKLOAD_NOT_FOUND\<rparr>, e)"
proof (cases r)
  case (Request i c)
  with assms show ?thesis
    by (simp add: serve_request callable_def on_workload_def del: serve.simps(4))
qed (use assms in \<open>auto simp: is_create_def engine_validate_def engine_setPolicy_def
      engine_startEpisode_def engine_settle_def on_workload_def\<close>)

lemma is_createE:
  assumes "is_create r"
  obtains i name intent p where "r = Create i name intent p"
  using assms by (cases r) (simp_all add: is_create_def)

lemma operate_known:
  assumes "engine_get (target r) e = Some w" and "\<not> is_create r"
  shows "operate r e =
    (let x = in_place r (en_episodeCounter e) w; e1 = put_workload (target r) (snd x) (start_of r e)
     in (if isAllow (er_outcome (fst x)) then Saving (target r) (fst x) else Returning (Answered (fst x)), e1))"
  using assms by (cases r) (simp_all add: operate_def is_create_def snapshot_def Let_def)

lemma body_steps:
  "run_body save (Looking a) e = run_body save (look save a e) e"
  "run_body save (Operating r) e = run_body save (fst (operate r e)) (snd (operate r e))"
  "run_body save (Saving i x) (put_workload i v e) = (Returning (Answered x), persist save v (put_workload i v e))"
  by (simp_all add: run_body_step returning_def snapshot_def)

lemma body_is_request:
  assumes "callable (Mutate r)"
  shows "run_body save (Looking (Mutate r)) e = (Returning (Answered (fst (serve save r e))), snd (serve save r e))"
proof (cases "engine_get (target r) e")
  case None
  show ?thesis
  proof (cases "is_create r")
    case True
    then obtain i name intent p where "r = Create i name intent p" by (rule is_createE)
    with None True show ?thesis
      by (simp add: body_steps look_def operate_def engine_exists_def engine_create_def Let_def)
  next
    case False
    with None show ?thesis
      using serve_missing [OF None False assms] by (simp add: body_steps look_def engine_exists_def)
  qed
next
  case (Some w)
  show ?thesis
  proof (cases "is_create r")
    case True
    then obtain i name intent p where "r = Create i name intent p" by (rule is_createE)
    with Some True show ?thesis
      by (simp add: body_steps look_def engine_exists_def engine_create_def)
  next
    case False
    with Some show ?thesis
      using serve_known [OF Some False assms, of save] operate_known [OF Some False]
      by (simp add: body_steps look_def engine_exists_def Let_def)
  qed
qed

lemma body_is_method:
  assumes "callable a"
  shows "run_body save (Looking a) e = (Returning (fst (perform save a e)), snd (perform save a e))"
  using assms by (cases a) (simp_all add: body_is_request, simp_all add: body_steps look_def)

section \<open>Threads\<close>

text \<open>
  A thread is between two calls, waits for the mutex in a call, or runs the body of a call. The
  mutex is held by at most one thread. \<open>sy_log\<close> is a record for the proofs: the calls in the order in
  which they returned, with the answers.
\<close>

datatype control = Outside | Waiting action | Inside action phase

record thread =
  th_control :: control
  th_answers :: "observation list"

record 's system =
  sy_engine :: "'s engine"
  sy_owner :: "nat option"
  sy_threads :: "nat \<Rightarrow> thread"
  sy_log :: "(nat \<times> action \<times> observation) list"

text \<open>What a client calls next, given the answers it has got; \<open>None\<close> when it has finished.\<close>

type_synonym clients = "nat \<Rightarrow> observation list \<Rightarrow> action option"

definition set_thread :: "nat \<Rightarrow> thread \<Rightarrow> 's system \<Rightarrow> 's system" where
  "set_thread t x s = s\<lparr>sy_threads := (sy_threads s)(t := x)\<rparr>"

definition new_system :: "'s engine \<Rightarrow> 's system" where
  "new_system e = \<lparr>sy_engine = e, sy_owner = None,
     sy_threads = (\<lambda>t. \<lparr>th_control = Outside, th_answers = []\<rparr>), sy_log = []\<rparr>"

text \<open>One step of thread \<open>t\<close>, if it can make one.\<close>

definition thread_step :: "'s save \<Rightarrow> clients \<Rightarrow> nat \<Rightarrow> 's system \<Rightarrow> 's system option" where
  "thread_step save client t s =
     (let x = sy_threads s t in
      case th_control x of
        Outside \<Rightarrow>
          (case client t (th_answers x) of
             None \<Rightarrow> None
           | Some a \<Rightarrow> if callable a then Some (set_thread t (x\<lparr>th_control := Waiting a\<rparr>) s) else None)
      | Waiting a \<Rightarrow>
          (case sy_owner s of
             None \<Rightarrow> Some (set_thread t (x\<lparr>th_control := Inside a (Looking a)\<rparr>) (s\<lparr>sy_owner := Some t\<rparr>))
           | Some u \<Rightarrow> None)
      | Inside a p \<Rightarrow>
          (case p of
             Returning r \<Rightarrow>
               Some (set_thread t \<lparr>th_control = Outside, th_answers = th_answers x @ [r]\<rparr>
                 (s\<lparr>sy_owner := None, sy_log := sy_log s @ [(t, a, r)]\<rparr>))
           | _ \<Rightarrow>
               let n = run_phase save p (sy_engine s)
               in Some (set_thread t (x\<lparr>th_control := Inside a (fst n)\<rparr>) (s\<lparr>sy_engine := snd n\<rparr>))))"

inductive reachable :: "'s save \<Rightarrow> clients \<Rightarrow> 's system \<Rightarrow> 's system \<Rightarrow> bool" for save client s where
  here: "reachable save client s s"
| later: "reachable save client s s1 \<Longrightarrow> thread_step save client t s1 = Some s2 \<Longrightarrow> reachable save client s s2"

text \<open>A step is a call, an acquisition, a step of the body or a return.\<close>

lemma thread_step_cases [consumes 1, case_names call acquire body return]:
  assumes "thread_step save client t s = Some s'"
  obtains
    (call) a where "th_control (sy_threads s t) = Outside" "callable a" "client t (th_answers (sy_threads s t)) = Some a"
      "s' = set_thread t ((sy_threads s t)\<lparr>th_control := Waiting a\<rparr>) s"
  | (acquire) a where "th_control (sy_threads s t) = Waiting a" "sy_owner s = None"
      "s' = set_thread t ((sy_threads s t)\<lparr>th_control := Inside a (Looking a)\<rparr>) (s\<lparr>sy_owner := Some t\<rparr>)"
  | (body) a p where "th_control (sy_threads s t) = Inside a p" "\<not> returning p"
      "s' = set_thread t ((sy_threads s t)\<lparr>th_control := Inside a (fst (run_phase save p (sy_engine s)))\<rparr>)
        (s\<lparr>sy_engine := snd (run_phase save p (sy_engine s))\<rparr>)"
  | (return) a r where "th_control (sy_threads s t) = Inside a (Returning r)"
      "s' = set_thread t \<lparr>th_control = Outside, th_answers = th_answers (sy_threads s t) @ [r]\<rparr>
        (s\<lparr>sy_owner := None, sy_log := sy_log s @ [(t, a, r)]\<rparr>)"
proof (cases "th_control (sy_threads s t)")
  case Outside
  with assms call show thesis
    by (auto simp: thread_step_def Let_def split: option.splits if_splits)
next
  case (Waiting a)
  with assms acquire show thesis
    by (auto simp: thread_step_def Let_def split: option.splits)
next
  case (Inside a p)
  with assms body [OF Inside] return [of a] show thesis
    by (cases p) (simp_all add: thread_step_def Let_def returning_def)
qed

lemma set_thread_simps [simp]:
  "sy_engine (set_thread t x s) = sy_engine s" "sy_owner (set_thread t x s) = sy_owner s"
  "sy_log (set_thread t x s) = sy_log s" "sy_threads (set_thread t x s) = (sy_threads s)(t := x)"
  by (simp_all add: set_thread_def)

lemma new_system_simps [simp]:
  "sy_engine (new_system e) = e" "sy_owner (new_system e) = None" "sy_log (new_system e) = []"
  "sy_threads (new_system e) t = \<lparr>th_control = Outside, th_answers = []\<rparr>"
  by (simp_all add: new_system_def)

section \<open>The invariant\<close>

text \<open>Calls performed one after the other, each as one step, with the answers they must have given.\<close>

fun serial :: "'s save \<Rightarrow> (nat \<times> action \<times> observation) list \<Rightarrow> 's engine \<Rightarrow> 's engine" where
  "serial save [] e = e"
| "serial save ((t, a, r) # cs) e = serial save cs (snd (perform save a e))"

fun serial_answers :: "'s save \<Rightarrow> (nat \<times> action \<times> observation) list \<Rightarrow> 's engine \<Rightarrow> bool" where
  "serial_answers save [] e \<longleftrightarrow> True"
| "serial_answers save ((t, a, r) # cs) e \<longleftrightarrow>
     r = fst (perform save a e) \<and> callable a \<and> serial_answers save cs (snd (perform save a e))"

lemma serial_append [simp]:
  "serial save (cs @ [(t, a, r)]) e = snd (perform save a (serial save cs e))"
  "serial_answers save (cs @ [(t, a, r)]) e \<longleftrightarrow>
     serial_answers save cs e \<and> r = fst (perform save a (serial save cs e)) \<and> callable a"
  by (induction save cs e rule: serial.induct) (simp_all add: conj_ac)

definition answers_of :: "nat \<Rightarrow> (nat \<times> action \<times> observation) list \<Rightarrow> observation list" where
  "answers_of t cs = [r. (u, a, r) \<leftarrow> cs, u = t]"

lemma answers_of_append [simp]:
  "answers_of t [] = []" "answers_of t (cs @ [(u, a, r)]) = answers_of t cs @ (if u = t then [r] else [])"
  by (simp_all add: answers_of_def)

text \<open>Every call in the log is the one its client makes after the answers before it.\<close>

definition follows :: "clients \<Rightarrow> (nat \<times> action \<times> observation) list \<Rightarrow> bool" where
  "follows client cs \<longleftrightarrow>
     (\<forall>n<length cs. client (fst (cs ! n)) (answers_of (fst (cs ! n)) (take n cs)) = Some (fst (snd (cs ! n))))"

lemma follows_append [simp]:
  "follows client []"
  "follows client (cs @ [(t, a, r)]) \<longleftrightarrow> follows client cs \<and> client t (answers_of t cs) = Some a"
  by (auto simp: follows_def nth_append less_Suc_eq)

text \<open>
  The thread that is inside is the owner of the mutex, and what it still has to do completes the
  method on the engine as the calls before have left it.
\<close>

definition consistent :: "'s save \<Rightarrow> clients \<Rightarrow> 's engine \<Rightarrow> 's system \<Rightarrow> bool" where
  "consistent save client e s \<longleftrightarrow>
     serial_answers save (sy_log s) e \<and> follows client (sy_log s) \<and>
     (\<forall>t. th_answers (sy_threads s t) = answers_of t (sy_log s)) \<and>
     (\<forall>t a. th_control (sy_threads s t) = Waiting a \<longrightarrow>
        callable a \<and> client t (answers_of t (sy_log s)) = Some a) \<and>
     (\<forall>t a p. th_control (sy_threads s t) = Inside a p \<longrightarrow>
        sy_owner s = Some t \<and> callable a \<and> client t (answers_of t (sy_log s)) = Some a) \<and>
     (case sy_owner s of
        None \<Rightarrow> sy_engine s = serial save (sy_log s) e
      | Some t \<Rightarrow> (\<exists>a p. th_control (sy_threads s t) = Inside a p \<and>
          run_body save p (sy_engine s) = run_body save (Looking a) (serial save (sy_log s) e)))"

lemma consistent_new: "consistent save client e (new_system e)"
  by (simp add: consistent_def)

lemma consistent_inside:
  assumes "consistent save client e s" and "th_control (sy_threads s t) = Inside a p"
  shows "sy_owner s = Some t" and "callable a" and "client t (answers_of t (sy_log s)) = Some a"
    and "run_body save p (sy_engine s) = run_body save (Looking a) (serial save (sy_log s) e)"
proof -
  show o: "sy_owner s = Some t" and "callable a" and "client t (answers_of t (sy_log s)) = Some a"
    using assms unfolding consistent_def by blast+
  show "run_body save p (sy_engine s) = run_body save (Looking a) (serial save (sy_log s) e)"
    using assms o by (simp add: consistent_def)
qed

lemma consistent_step:
  assumes "consistent save client e s" and "thread_step save client t s = Some s'"
  shows "consistent save client e s'"
  using assms(2)
proof (cases rule: thread_step_cases)
  case (call a)
  with assms(1) show ?thesis
    by (auto simp: consistent_def split: option.splits)
next
  case (acquire a)
  with assms(1) show ?thesis
    by (auto simp: consistent_def split: option.splits)
next
  case (body a p)
  moreover from this assms(1) have "sy_owner s = Some t" "callable a" "client t (answers_of t (sy_log s)) = Some a"
    by (simp_all add: consistent_inside)
  ultimately show ?thesis
    using assms(1) by (auto simp: consistent_def run_body_step [of p])
next
  case (return a r)
  note inside = consistent_inside [OF assms(1) return(1)]
  then have "r = fst (perform save a (serial save (sy_log s) e))"
    "sy_engine s = snd (perform save a (serial save (sy_log s) e))"
    by (simp_all add: body_is_method)
  moreover have "th_control (sy_threads s u) \<noteq> Inside b q" if "u \<noteq> t" for u b q
    using consistent_inside(1) [OF assms(1), of u b q] inside(1) that by auto
  ultimately show ?thesis
    using return inside(2,3) assms(1) by (auto simp: consistent_def)
qed

lemma reachable_consistent:
  assumes "reachable save client (new_system e) s"
  shows "consistent save client e s"
  using assms by induction (auto intro: consistent_new consistent_step)

section \<open>Growth of the log\<close>

lemma log_grows: "thread_step save client t s = Some s' \<Longrightarrow> \<exists>cs. sy_log s' = sy_log s @ cs"
  by (cases rule: thread_step_cases) auto

lemma reachable_log_grows: "reachable save client s s' \<Longrightarrow> \<exists>cs. sy_log s' = sy_log s @ cs"
proof (induction rule: reachable.induct)
  case (later s1 t s2)
  then show ?case using log_grows [OF later.hyps(2)] by auto
qed simp

lemma reachable_trans: "reachable save client s1 s2 \<Longrightarrow> reachable save client s s1 \<Longrightarrow> reachable save client s s2"
  by (induction rule: reachable.induct) (auto intro: reachable.intros)

definition requests_of :: "(nat \<times> action \<times> observation) list \<Rightarrow> engine_request list" where
  "requests_of cs = concat (map (\<lambda>(t, a, r). case a of Mutate q \<Rightarrow> [q] | _ \<Rightarrow> []) cs)"

lemma serial_serve_all: "serial save cs e = serve_all save (requests_of cs) e"
  by (induction save cs e rule: serial.induct) (auto simp: requests_of_def split: action.split)

section \<open>Schedules and scripts\<close>

text \<open>A schedule: the thread that is given the processor next; it does nothing when it is blocked.\<close>

fun run_schedule :: "'s save \<Rightarrow> clients \<Rightarrow> nat list \<Rightarrow> 's system \<Rightarrow> 's system" where
  "run_schedule save client [] s = s"
| "run_schedule save client (t # ts) s =
     run_schedule save client ts (case thread_step save client t s of None \<Rightarrow> s | Some s' \<Rightarrow> s')"

lemma run_schedule_reachable: "reachable save client s (run_schedule save client ts s)"
proof (induction ts arbitrary: s)
  case (Cons t ts)
  show ?case
  proof (cases "thread_step save client t s")
    case None
    then show ?thesis using Cons.IH by simp
  next
    case (Some s')
    then have "reachable save client s s'" by (auto intro: reachable.intros)
    then show ?thesis using Some reachable_trans [OF Cons.IH] by simp
  qed
qed (simp add: reachable.here)

text \<open>Clients that make a fixed sequence of calls each.\<close>

definition scripted :: "(nat \<Rightarrow> action list) \<Rightarrow> clients" where
  "scripted script t rs = (if length rs < length (script t) then Some (script t ! length rs) else None)"

text \<open>The threads of \<open>raceCancelComplete\<close>: one cancels, one completes the episode and commits.\<close>

definition race_script :: "WorkloadId \<Rightarrow> ExecutionEpisodeId \<Rightarrow> WorkloadGeneration \<Rightarrow> nat \<Rightarrow> action list" where
  "race_script i ep g t =
     (if t = 0 then [Mutate (Request i (RequestCancellation g))]
      else if t = 1 then [Mutate (Request i (MarkEpisodeCompleted ep)), Mutate (Request i (CommitCompletion g))]
      else [])"

text \<open>
  A run of \<open>raceCancelComplete\<close> for the witnesses: the threads alternate while the completing one is
  inside its first call, then the cancellation gets the mutex, then the commit.
\<close>

definition race_run :: "nat list \<Rightarrow> memory system" where
  "race_run ts = run_schedule mem_save (scripted (race_script (UniqueValue 7) (UniqueValue 1000) (UniqueValue 2))) ts
     (new_system (put_workload (UniqueValue 7) sample_running (new_engine None)))"

definition race_schedule :: "nat list" where
  "race_schedule = [1, 0, 1, 0, 1, 0, 1, 0, 1, 1] @ replicate 6 0 @ replicate 6 1"

lemma race_run_reachable:
  "reachable mem_save (scripted (race_script (UniqueValue 7) (UniqueValue 1000) (UniqueValue 2)))
     (new_system (put_workload (UniqueValue 7) sample_running (new_engine None))) (race_run ts)"
  unfolding race_run_def by (rule run_schedule_reachable)

section \<open>Linearizability\<close>

text \<open>
  C9. However the threads are scheduled between the steps of the method bodies:
  the calls that have returned, in the order in which they released the mutex, gave the answers
  they give when each is performed as one step; every thread has made its calls in the order of its
  program and has got these answers; a call that returned before another one was made stays before it; and whenever the mutex is free the
  engine is what serving the requests one after the other makes of it.
\<close>

theorem engine_linearizable:
  assumes "reachable save client (new_system e) s" and "reachable save client s s'"
  shows "serial_answers save (sy_log s) e \<and> follows client (sy_log s) \<and>
    (\<forall>t. th_answers (sy_threads s t) = answers_of t (sy_log s)) \<and>
    (sy_owner s = None \<longrightarrow> sy_engine s = serve_all save (requests_of (sy_log s)) e) \<and>
    take (length (sy_log s)) (sy_log s') = sy_log s"
proof -
  have "consistent save client e s" using assms(1) by (rule reachable_consistent)
  moreover have "take (length (sy_log s)) (sy_log s') = sy_log s"
    using reachable_log_grows [OF assms(2)] by auto
  moreover have "sy_engine s = serve_all save (requests_of (sy_log s)) e" if "sy_owner s = None"
    using calculation(1) that by (simp add: consistent_def serial_serve_all)
  ultimately show ?thesis unfolding consistent_def by blast
qed

theorem engine_linearizable_witness:
  "sy_engine (race_run race_schedule) =
     serve_all mem_save [Request (UniqueValue 7) (MarkEpisodeCompleted (UniqueValue 1000)),
       Request (UniqueValue 7) (RequestCancellation (UniqueValue 2)),
       Request (UniqueValue 7) (CommitCompletion (UniqueValue 2))]
       (put_workload (UniqueValue 7) sample_running (new_engine None))"
proof -
  have "sy_owner (race_run race_schedule) = None" by code_simp
  moreover have "requests_of (sy_log (race_run race_schedule)) =
      [Request (UniqueValue 7) (MarkEpisodeCompleted (UniqueValue 1000)),
       Request (UniqueValue 7) (RequestCancellation (UniqueValue 2)),
       Request (UniqueValue 7) (CommitCompletion (UniqueValue 2))]"
    by code_simp
  ultimately show ?thesis
    using engine_linearizable [OF race_run_reachable reachable.here, of race_schedule] by simp
qed

text \<open>
  At most one thread is in the body of a method, it holds the mutex, and no
  other thread changes the members of the engine.
\<close>

theorem mutual_exclusion:
  assumes "reachable save client (new_system e) s"
    and "th_control (sy_threads s t) = Inside a p"
  shows "sy_owner s = Some t \<and>
    (\<forall>u b q. th_control (sy_threads s u) = Inside b q \<longrightarrow> u = t) \<and>
    (\<forall>u s'. thread_step save client u s = Some s' \<and> sy_engine s' \<noteq> sy_engine s \<longrightarrow> u = t)"
proof -
  have inside: "sy_owner s = Some u" if "th_control (sy_threads s u) = Inside b q" for u b q
    using reachable_consistent [OF assms(1)] that by (rule consistent_inside(1))
  have "u = t" if "thread_step save client u s = Some s'" "sy_engine s' \<noteq> sy_engine s" for u s'
    using that(1)
  proof (cases rule: thread_step_cases)
    case (body b q)
    then show ?thesis using inside [OF body(1)] inside [OF assms(2)] by simp
  qed (use that(2) in simp_all)
  moreover have "u = t" if "th_control (sy_threads s u) = Inside b q" for u b q
    using inside [OF that] inside [OF assms(2)] by simp
  ultimately show ?thesis using inside [OF assms(2)] by blast
qed

text \<open>The completing thread is inside, the cancelling one is blocked.\<close>

theorem mutual_exclusion_witness:
  "sy_owner (race_run [1, 0, 1, 0]) = Some 1 \<and>
   (\<nexists>b q. th_control (sy_threads (race_run [1, 0, 1, 0]) 0) = Inside b q)"
proof -
  have "th_control (sy_threads (race_run [1, 0, 1, 0]) 1) =
      Inside (Mutate (Request (UniqueValue 7) (MarkEpisodeCompleted (UniqueValue 1000))))
        (Looking (Mutate (Request (UniqueValue 7) (MarkEpisodeCompleted (UniqueValue 1000)))))"
    by code_simp
  from mutual_exclusion [OF race_run_reachable this] show ?thesis by (metis zero_neq_one)
qed

section \<open>Progress\<close>

lemma others_do_not_interfere:
  assumes "consistent save client e s" and "sy_owner s = Some t" and "u \<noteq> t" and "thread_step save client u s = Some s'"
  shows "sy_owner s' = Some t \<and> sy_threads s' t = sy_threads s t \<and> sy_log s' = sy_log s"
  using assms(4)
proof (cases rule: thread_step_cases)
  case (body a p)
  then show ?thesis using consistent_inside(1) [OF assms(1) body(1)] assms(2,3) by simp
next
  case (return a r)
  then show ?thesis using consistent_inside(1) [OF assms(1) return(1)] assms(2,3) by simp
qed (use assms(2,3) in simp_all)

lemma owner_steps:
  assumes "th_control (sy_threads s t) = Inside a p"
  shows "\<exists>s'. thread_step save client t s = Some s' \<and>
    (if returning p then sy_owner s' = None \<and> (\<exists>r. sy_log s' = sy_log s @ [(t, a, r)])
     else \<exists>q. sy_owner s' = sy_owner s \<and> sy_log s' = sy_log s \<and>
       th_control (sy_threads s' t) = Inside a q \<and> steps_left q < steps_left p)"
  using assms run_phase_decreases [of p save "sy_engine s"]
  by (cases p) (simp_all add: thread_step_def returning_def Let_def)

text \<open>One turn of any thread: the owner comes closer to its return, or has returned.\<close>

lemma owner_turn:
  assumes "consistent save client e s" and "th_control (sy_threads s t) = Inside a p" and "sy_owner s = Some t"
    and s': "s' = (case thread_step save client u s of None \<Rightarrow> s | Some s' \<Rightarrow> s')"
  shows "consistent save client e s'"
    and "u = t \<and> sy_owner s' = None \<and> (\<exists>r. sy_log s' = sy_log s @ [(t, a, r)]) \<or>
      (\<exists>q. th_control (sy_threads s' t) = Inside a q \<and> sy_owner s' = Some t \<and> sy_log s' = sy_log s \<and>
        steps_left q + count_list [u] t \<le> steps_left p)"
proof -
  show "consistent save client e s'"
    using assms(1) consistent_step [OF assms(1)] by (auto simp: s' split: option.split)
  show "u = t \<and> sy_owner s' = None \<and> (\<exists>r. sy_log s' = sy_log s @ [(t, a, r)]) \<or>
      (\<exists>q. th_control (sy_threads s' t) = Inside a q \<and> sy_owner s' = Some t \<and> sy_log s' = sy_log s \<and>
        steps_left q + count_list [u] t \<le> steps_left p)"
  proof (cases "u = t")
    case True
    with owner_steps [OF assms(2), of save client] assms(3) show ?thesis
      by (auto simp: s' Suc_le_eq split: if_splits)
  next
    case False
    with others_do_not_interfere [OF assms(1,3) False] assms(2,3) show ?thesis
      by (auto simp: s' split: option.split)
  qed
qed

lemma owner_returns:
  assumes "consistent save client e s" and "th_control (sy_threads s t) = Inside a p" and "sy_owner s = Some t"
    and "steps_left p < count_list ts t"
  shows "\<exists>n r. sy_owner (run_schedule save client (take n ts) s) = None \<and>
    sy_log (run_schedule save client (take n ts) s) = sy_log s @ [(t, a, r)]"
  using assms
proof (induction ts arbitrary: s p)
  case (Cons u ts)
  let ?s = "case thread_step save client u s of None \<Rightarrow> s | Some s' \<Rightarrow> s'"
  have first: "run_schedule save client (take (Suc n) (u # ts)) s = run_schedule save client (take n ts) ?s" for n
    by simp
  from owner_turn [OF Cons.prems(1-3) refl, of u]
  have c: "consistent save client e ?s" and "u = t \<and> sy_owner ?s = None \<and> (\<exists>r. sy_log ?s = sy_log s @ [(t, a, r)]) \<or>
      (\<exists>q. th_control (sy_threads ?s t) = Inside a q \<and> sy_owner ?s = Some t \<and> sy_log ?s = sy_log s \<and>
        steps_left q + count_list [u] t \<le> steps_left p)" .
  from this(2) show ?case
  proof (elim disjE exE conjE)
    fix r assume "sy_owner ?s = None" "sy_log ?s = sy_log s @ [(t, a, r)]"
    then show ?thesis using first [of 0] by (intro exI [of _ "Suc 0"] exI [of _ r]) simp
  next
    fix q assume q: "th_control (sy_threads ?s t) = Inside a q" "sy_owner ?s = Some t" "sy_log ?s = sy_log s"
      "steps_left q + count_list [u] t \<le> steps_left p"
    then have "steps_left q < count_list ts t" using Cons.prems(4) by (auto split: if_splits)
    from Cons.IH [OF c q(1,2) this] show ?thesis unfolding q(3) first [symmetric] by blast
  qed
qed simp

lemma free_finished:
  assumes "\<forall>t x a. client t x = Some a \<longrightarrow> callable a" and "sy_owner s = None" and "thread_step save client t s = None"
  shows "th_control (sy_threads s t) = Outside \<and> client t (th_answers (sy_threads s t)) = None"
proof (cases "th_control (sy_threads s t)")
  case Outside
  with assms show ?thesis
    by (auto simp: thread_step_def Let_def split: option.splits)
next
  case (Waiting a)
  with assms show ?thesis by (simp add: thread_step_def Let_def)
next
  case (Inside a p)
  with assms owner_steps [OF Inside, of save client] show ?thesis by auto
qed

lemma stuck_free:
  assumes "consistent save client e s" and "\<forall>t. thread_step save client t s = None"
  shows "sy_owner s = None"
proof (rule ccontr)
  assume "sy_owner s \<noteq> None"
  with assms(1) obtain t a p where "th_control (sy_threads s t) = Inside a p"
    by (auto simp: consistent_def)
  with owner_steps [of s t a p save client] assms(2) show False by auto
qed

text \<open>
  C12. A thread in a body returns and releases the mutex when it has been given
  the processor four times, whatever the others do meanwhile; while the mutex is free every
  thread with something to call can step; so when no thread can step, all have finished.
\<close>

theorem every_call_returns:
  assumes "reachable save client (new_system e) s" and "\<forall>t x a. client t x = Some a \<longrightarrow> callable a"
  shows "(\<forall>t a p ts. th_control (sy_threads s t) = Inside a p \<and> 4 \<le> count_list ts t \<longrightarrow>
      (\<exists>n r. sy_owner (run_schedule save client (take n ts) s) = None \<and>
        sy_log (run_schedule save client (take n ts) s) = sy_log s @ [(t, a, r)])) \<and>
    (sy_owner s = None \<longrightarrow> (\<forall>t. thread_step save client t s = None \<longrightarrow>
        th_control (sy_threads s t) = Outside \<and> client t (th_answers (sy_threads s t)) = None)) \<and>
    ((\<forall>t. thread_step save client t s = None) \<longrightarrow>
       (\<forall>t. th_control (sy_threads s t) = Outside \<and> client t (th_answers (sy_threads s t)) = None))"
proof -
  have c: "consistent save client e s" using assms(1) by (rule reachable_consistent)
  have returns: "\<exists>n r. sy_owner (run_schedule save client (take n ts) s) = None \<and>
        sy_log (run_schedule save client (take n ts) s) = sy_log s @ [(t, a, r)]"
    if "th_control (sy_threads s t) = Inside a p" "4 \<le> count_list ts t" for t a p ts
  proof (rule owner_returns [OF c that(1)])
    show "sy_owner s = Some t" using c that(1) unfolding consistent_def by blast
    show "steps_left p < count_list ts t" using that(2) by (cases p) simp_all
  qed
  show ?thesis
    using returns free_finished [OF assms(2)] stuck_free [OF c] by blast
qed

theorem every_call_returns_witness:
  "\<exists>n r. sy_owner (run_schedule mem_save (scripted (race_script (UniqueValue 7) (UniqueValue 1000) (UniqueValue 2)))
       (take n [0, 1, 0, 1, 1, 0, 1]) (race_run [1, 0, 1, 0])) = None \<and>
     sy_log (run_schedule mem_save (scripted (race_script (UniqueValue 7) (UniqueValue 1000) (UniqueValue 2)))
       (take n [0, 1, 0, 1, 1, 0, 1]) (race_run [1, 0, 1, 0])) =
       [(1, Mutate (Request (UniqueValue 7) (MarkEpisodeCompleted (UniqueValue 1000))), r)]"
proof -
  let ?client = "scripted (race_script (UniqueValue 7) (UniqueValue 1000) (UniqueValue 2))"
  have inside: "th_control (sy_threads (race_run [1, 0, 1, 0]) 1) =
      Inside (Mutate (Request (UniqueValue 7) (MarkEpisodeCompleted (UniqueValue 1000))))
        (Looking (Mutate (Request (UniqueValue 7) (MarkEpisodeCompleted (UniqueValue 1000)))))"
    by code_simp
  have callable: "\<forall>t x a. ?client t x = Some a \<longrightarrow> callable a"
    by (auto simp: scripted_def race_script_def callable_def offered_def nth_Cons split: if_splits nat.splits)
  have log: "sy_log (race_run [1, 0, 1, 0]) = []" by code_simp
  have "4 \<le> count_list [0, 1, 0, 1, 1, 0, 1] (1 :: nat)" by simp
  with every_call_returns [OF race_run_reachable callable, of "[1, 0, 1, 0]"] inside show ?thesis
    unfolding log append_Nil by blast
qed


section \<open>What the clients are told\<close>

text \<open>A property every request keeps holds of every engine a concurrent call works on.\<close>

locale engine_invariant =
  fixes save :: "'s save" and P :: "'s engine \<Rightarrow> bool"
  assumes kept: "P e \<Longrightarrow> P (snd (serve save r e))"
begin

lemma perform_keeps: "P e \<Longrightarrow> P (snd (perform save a e))"
  by (cases a) (simp_all add: kept)

lemma serial_keeps: "P e \<Longrightarrow> P (serial save cs e)"
  by (induction cs arbitrary: e) (auto simp: perform_keeps)

lemma answered:
  assumes "P e" and "serial_answers save cs e" and "(t, a, r) \<in> set cs"
  shows "\<exists>f. P f \<and> r = fst (perform save a f)"
  using assms
proof (induction cs arbitrary: e)
  case (Cons c cs)
  obtain u b q where "c = (u, b, q)" by (cases c)
  with Cons.prems Cons.IH [of "snd (perform save b e)"] show ?case by (auto intro: perform_keeps)
qed simp

lemma observed:
  assumes "reachable save client (new_system e) s" and "P e" and "(t, a, r) \<in> set (sy_log s)"
  shows "\<exists>f. P f \<and> r = fst (perform save a f)"
  using answered [OF assms(2) _ assms(3)] reachable_consistent [OF assms(1)] by (simp add: consistent_def)

lemma unlocked:
  assumes "reachable save client (new_system e) s" and "P e" and "sy_owner s = None"
  shows "P (sy_engine s)"
  using serial_keeps [OF assms(2)] reachable_consistent [OF assms(1)] assms(3) by (simp add: consistent_def)

end

definition all_sound :: "'s engine \<Rightarrow> bool" where
  "all_sound e \<longleftrightarrow> (\<forall>i w. engine_get i e = Some w \<longrightarrow> sound i w)"

interpretation soundness: engine_invariant save all_sound for save
  by unfold_locales (auto simp: all_sound_def intro: serve_sound)

interpretation filing: engine_invariant save keys_match for save
  by unfold_locales (rule serve_keys_match)

lemma new_engine_sound: "all_sound (new_engine store)"
  by (simp add: all_sound_def engine_get_def new_engine_def Mapping.lookup_empty)

text \<open>
  C13. Whatever the clients do and however they are scheduled, every
  workload that \<open>snapshot\<close> or \<open>find\<close> returns satisfies the invariants of the aggregate (or is the
  default, for an unknown identity), and so does every workload of the engine while the mutex is free.
\<close>

theorem concurrent_observations_sound:
  assumes "reachable save client (new_system (new_engine store)) s"
  shows "(\<forall>t i w. (t, AskFind i, Found (Some w)) \<in> set (sy_log s) \<longrightarrow> sound i w) \<and>
    (\<forall>t i w. (t, AskSnapshot i, Copied w) \<in> set (sy_log s) \<longrightarrow> w = default_workload \<or> sound i w) \<and>
    (\<forall>i w. sy_owner s = None \<and> engine_get i (sy_engine s) = Some w \<longrightarrow> sound i w)"
proof (intro conjI allI impI)
  fix t i w assume "(t, AskFind i, Found (Some w)) \<in> set (sy_log s)"
  from soundness.observed [OF assms new_engine_sound this] show "sound i w"
    by (auto simp: all_sound_def engine_find_def)
next
  fix t i w assume "(t, AskSnapshot i, Copied w) \<in> set (sy_log s)"
  from soundness.observed [OF assms new_engine_sound this] show "w = default_workload \<or> sound i w"
    by (auto simp: all_sound_def snapshot_def split: option.splits)
next
  fix i w assume "sy_owner s = None \<and> engine_get i (sy_engine s) = Some w"
  with soundness.unlocked [OF assms new_engine_sound] show "sound i w" by (simp add: all_sound_def)
qed

definition look_client :: clients where
  "look_client = scripted (\<lambda>t. if t = 0 then [Mutate (Create (UniqueValue 7) ''w'' ''job'' default_policy)]
     else if t = 1 then [AskFind (UniqueValue 7)] else [])"

definition look_run :: "nat list \<Rightarrow> memory system" where
  "look_run ts = run_schedule mem_save look_client ts (new_system (new_engine None))"

lemma look_run_reachable: "reachable mem_save look_client (new_system (new_engine None)) (look_run ts)"
  unfolding look_run_def by (rule run_schedule_reachable)

text \<open>One thread creates a workload while another one looks for it, and finds it.\<close>

theorem concurrent_observations_sound_witness:
  "sound (UniqueValue 7) ((create (UniqueValue 7) ''w'' ''job'')\<lparr>wl_policy := default_policy\<rparr>)"
proof -
  let ?w = "(create (UniqueValue 7) ''w'' ''job'')\<lparr>wl_policy := default_policy\<rparr>"
  have "(1, AskFind (UniqueValue 7), Found (Some ?w)) \<in> set (sy_log (look_run [1, 0, 0, 1, 0, 0, 0, 0, 1, 1, 1]))"
    by code_simp
  with concurrent_observations_sound [OF look_run_reachable] show ?thesis by blast
qed

text \<open>The episode identities in the answers.\<close>

definition episode_answers :: "(nat \<times> action \<times> observation) list \<Rightarrow> ExecutionEpisodeId list" where
  "episode_answers cs = concat (map (\<lambda>(t, a, r).
     case r of Answered x \<Rightarrow> (case er_episodeId x of None \<Rightarrow> [] | Some i \<Rightarrow> [i]) | _ \<Rightarrow> []) cs)"

lemma episode_answers_issued:
  "serial_answers save cs e \<Longrightarrow> episode_answers cs = issued save (requests_of cs) e"
proof (induction save cs e rule: serial_answers.induct)
  case (2 save t a r cs e)
  then show ?case by (cases a) (simp_all add: episode_answers_def requests_of_def)
qed (simp add: episode_answers_def requests_of_def)

lemma requests_of_length: "length (requests_of cs) \<le> length cs"
  by (induction cs) (auto simp: requests_of_def split: action.split)

text \<open>
  C14. No two threads are ever given the same episode identity, for the same
  workload or for different ones (as long as the 64-bit counter cannot have wrapped around); all
  identities are fresh, from where the counter stood at the start.
\<close>

theorem concurrent_episode_ids:
  assumes "reachable save client (new_system e) s"
    and "unat (en_episodeCounter e) + length (sy_log s) < 2 ^ 64"
  shows "distinct (episode_answers (sy_log s)) \<and>
    (\<forall>i\<in>set (episode_answers (sy_log s)). en_episodeCounter e \<le> toU64 i)"
proof -
  have "serial_answers save (sy_log s) e"
    using reachable_consistent [OF assms(1)] by (simp add: consistent_def)
  then have "episode_answers (sy_log s) = issued save (requests_of (sy_log s)) e"
    by (rule episode_answers_issued)
  moreover have "unat (en_episodeCounter e) + length (requests_of (sy_log s)) < 2 ^ 64"
    using assms(2) requests_of_length [of "sy_log s"] by linarith
  ultimately show ?thesis
    using issued_fresh [of e "requests_of (sy_log s)" save] by simp
qed

definition start_client :: clients where
  "start_client = scripted (\<lambda>t. if t = 0 then [Mutate (Start (UniqueValue 7) (UniqueValue 1) (UniqueValue 1))]
     else if t = 1 then [Mutate (Start (UniqueValue 8) (UniqueValue 1) (UniqueValue 1))] else [])"

definition ready_engine :: "memory engine" where
  "ready_engine = put_workload (UniqueValue 8) sample_ready (put_workload (UniqueValue 7) sample_ready (new_engine None))"

text \<open>Two threads start two workloads.\<close>

theorem concurrent_episode_ids_witness:
  "episode_answers (sy_log (run_schedule mem_save start_client ([0, 1, 1, 0, 1, 1, 1, 1, 1] @ replicate 6 0)
     (new_system ready_engine))) = [UniqueValue 1000, UniqueValue 1001] \<and>
   distinct (episode_answers (sy_log (run_schedule mem_save start_client ([0, 1, 1, 0, 1, 1, 1, 1, 1] @ replicate 6 0)
     (new_system ready_engine))))"
proof -
  let ?s = "run_schedule mem_save start_client ([0, 1, 1, 0, 1, 1, 1, 1, 1] @ replicate 6 0) (new_system ready_engine)"
  have answers: "episode_answers (sy_log ?s) = [UniqueValue 1000, UniqueValue 1001]" by code_simp
  have "length (sy_log ?s) = 2" by code_simp
  moreover have "en_episodeCounter ready_engine = 1000"
    by (simp add: ready_engine_def new_engine_def)
  ultimately have "unat (en_episodeCounter ready_engine) + length (sy_log ?s) < 2 ^ 64" by simp
  from concurrent_episode_ids [OF run_schedule_reachable this] answers show ?thesis by blast
qed

section \<open>The race of a cancellation and a completion\<close>

definition calls_of :: "nat \<Rightarrow> (nat \<times> action \<times> observation) list \<Rightarrow> action list" where
  "calls_of t cs = map (\<lambda>(u, a, r). a) (filter (\<lambda>(u, a, r). u = t) cs)"

lemma calls_of_append [simp]:
  "calls_of t [] = []" "calls_of t (cs @ [(u, a, r)]) = calls_of t cs @ (if u = t then [a] else [])"
  by (simp_all add: calls_of_def)

lemma scripted_calls:
  assumes "follows (scripted script) cs"
  shows "length (answers_of t cs) \<le> length (script t) \<and> calls_of t cs = take (length (answers_of t cs)) (script t)"
  using assms
proof (induction cs rule: rev_induct)
  case (snoc c cs)
  obtain u a r where "c = (u, a, r)" by (cases c)
  with snoc show ?case
    by (auto simp: scripted_def take_Suc_conv_app_nth split: if_splits)
qed simp

lemma map_in_shuffles: "zs \<in> shuffles xs ys \<Longrightarrow> map f zs \<in> shuffles (map f xs) (map f ys)"
  by (induction xs ys arbitrary: zs rule: shuffles.induct) (auto intro: Cons_in_shuffles_leftI Cons_in_shuffles_rightI)

lemma race_orders:
  assumes "follows (scripted (race_script i ep g)) cs" and "length cs = 3"
  defines "cancel \<equiv> Request i (RequestCancellation g)" and "mark \<equiv> Request i (MarkEpisodeCompleted ep)"
    and "commit \<equiv> Request i (CommitCompletion g)"
  shows "requests_of cs \<in> {[cancel, mark, commit], [mark, cancel, commit], [mark, commit, cancel]}"
    and "scripted (race_script i ep g) t (answers_of t cs) = None"
proof -
  let ?P = "\<lambda>(u, a, r). u = (0 :: nat)" and ?act = "\<lambda>(u :: nat, a :: action, r :: observation). a"
  have calls: "length (answers_of t cs) \<le> length (race_script i ep g t)"
    "calls_of t cs = take (length (answers_of t cs)) (race_script i ep g t)" for t
    using scripted_calls [OF assms(1)] by simp_all
  have "calls_of (fst c) cs \<noteq> []" if "c \<in> set cs" for c
    using that by (force simp: calls_of_def filter_empty_conv)
  then have who: "fst c = 0 \<or> fst c = 1" if "c \<in> set cs" for c
    using calls(2) [of "fst c"] that by (auto simp: race_script_def split: if_splits)
  then have other: "filter (\<lambda>c. \<not> ?P c) cs = filter (\<lambda>(u, a, r). u = 1) cs"
    by (intro filter_cong refl) (use who in fastforce)
  have len: "length (calls_of 0 cs) + length (calls_of 1 cs) = 3"
    using sum_length_filter_compl [of ?P cs] assms(2) by (simp add: calls_of_def other)
  moreover have "length (calls_of 0 cs) \<le> 1" "length (calls_of 1 cs) \<le> 2"
    using calls [of 0] calls [of 1] by (simp_all add: race_script_def)
  ultimately have full: "calls_of 0 cs = race_script i ep g 0" "calls_of 1 cs = race_script i ep g 1"
    using calls [of 0] calls [of 1] by (simp_all add: race_script_def)
  have "length (answers_of t cs) = length (calls_of t cs)" for t
    by (simp add: answers_of_def calls_of_def) (induction cs, auto)
  then show "scripted (race_script i ep g) t (answers_of t cs) = None"
    using full by (cases "t = 0"; cases "t = 1") (simp_all add: scripted_def race_script_def)
  have "cs \<in> shuffles (filter ?P cs) (filter (\<lambda>c. \<not> ?P c) cs)" by (rule partition_in_shuffles)
  then have "map ?act cs \<in> shuffles (map ?act (filter ?P cs)) (map ?act (filter (\<lambda>c. \<not> ?P c) cs))"
    by (rule map_in_shuffles)
  then have "map ?act cs \<in> shuffles (race_script i ep g 0) (race_script i ep g 1)"
    unfolding other using full by (simp add: calls_of_def)
  moreover have "requests_of cs = concat (map (\<lambda>a. case a of Mutate q \<Rightarrow> [q] | _ \<Rightarrow> []) (map ?act cs))"
    by (simp add: requests_of_def comp_def case_prod_unfold)
  ultimately show "requests_of cs \<in> {[cancel, mark, commit], [mark, cancel, commit], [mark, commit, cancel]}"
    by (auto simp: race_script_def cancel_def mark_def commit_def)
qed


text \<open>A running workload in the race; with \<open>b\<close>, its current episode, at \<open>k\<close>, is marked completed already.\<close>

definition racing :: "ExecutionEpisodeId \<Rightarrow> nat \<Rightarrow> WorkloadGeneration \<Rightarrow> bool \<Rightarrow> Workload \<Rightarrow> bool" where
  "racing ep k g b w \<longleftrightarrow>
     wl_state w \<in> {WorkloadState.RUNNING, WorkloadState.CANCELLATION_REQUESTED} \<and> wl_generation w = g \<and>
     cp_kind (po_completion (wl_policy w)) = CompletionKind.SINGLE_RESULT \<and>
     po_cancelRace (wl_policy w) = CancelRaceSemantics.COMPLETION_FIRST \<and>
     episode_index ep w = Some k \<and> currentEpisode w = Some k \<and>
     (b \<longrightarrow> ep_completed (wl_episodes w ! k))"

lemma racing_cancel:
  assumes "racing ep k g b w"
  shows "racing ep k g b (snd (requestCancellationWorkloadScope g w))"
proof -
  let ?v = "w\<lparr>wl_cancellationRequested := True\<rparr>"
  have "wl_episodes (snd (guardedTransition t g r ?v)) = wl_episodes w" for t r by simp
  note moved = same_episodes [OF this]
  have "wl_episodes ?v = wl_episodes w" by simp
  note flagged = same_episodes [OF this]
  have "racing ep k g b (snd (guardedTransition WorkloadState.CANCELLATION_REQUESTED g r ?v))" for r
    using assms by (auto simp: racing_def moved guardedTransition_state)
  moreover have "racing ep k g b ?v"
    using assms by (simp add: racing_def flagged)
  ultimately show ?thesis
    using assms by (auto simp: requestCancellationWorkloadScope_def Let_def racing_def)
qed

lemma racing_mark:
  assumes "racing ep k g b w"
  shows "racing ep k g True (snd (markEpisodeCompleted ep w))"
proof -
  have k: "episode_index ep w = Some k" "currentEpisode w = Some k"
    using assms by (simp_all add: racing_def)
  let ?u = "update_episode k (\<lambda>e. e\<lparr>ep_completed := True, ep_state := EpisodeState.COMPLETED\<rparr>) w"
  have len: "k < length (wl_episodes w)"
    using k(1) find_index_less by (auto simp: episode_index_def)
  have "currentEpisode ?u = currentEpisode w"
    using len by (simp add: currentEpisode_def update_episode_def find_index_update split: option.split)
  moreover have "episode_index ep ?u = episode_index ep w"
    using len by (simp add: episode_index_def update_episode_def find_index_update)
  moreover have "ep_completed (wl_episodes ?u ! k)"
    using len by (simp add: update_episode_def)
  moreover have "snd (markEpisodeCompleted ep w) = ?u"
    using k by (simp add: markEpisodeCompleted_def)
  moreover have "wl_state ?u = wl_state w" "wl_generation ?u = wl_generation w" "wl_policy ?u = wl_policy w"
    by (simp_all add: update_episode_def)
  ultimately show ?thesis
    using assms k by (simp add: racing_def)
qed

lemma racing_commit:
  assumes "racing ep k g True w"
  shows "wl_state (snd (commitCompletion g w)) = WorkloadState.COMPLETED"
    "wl_generation (snd (commitCompletion g w)) = g"
proof -
  have "fst (commitCompletion g w) = Outcome.ALLOW"
    using assms by (auto simp: racing_def commitCompletion_fst completable_def completion_criterion_def)
  from commitCompletion_effect [OF this] assms
  show "wl_state (snd (commitCompletion g w)) = WorkloadState.COMPLETED"
    "wl_generation (snd (commitCompletion g w)) = g"
    by (simp_all add: racing_def)
qed

lemma served_request:
  assumes "engine_get i e = Some w" and "offered c"
  shows "engine_get i (snd (serve save (Request i c) e)) = Some (snd (call c w))"
    and "er_outcome (fst (serve save (Request i c) e)) = fst (call c w)"
  using serve_found(1,2) [where r = "Request i c" and e = e and w = w and save = save] assms by (simp_all del: serve.simps(4) call.simps)

text \<open>
  C10. A cancellation races with the completion of the current episode of a
  running workload, under COMPLETION_FIRST and a single-result policy. However the two threads
  are scheduled, when their three calls have returned the workload is COMPLETED, and
  every later cancellation of that generation is rejected as terminal.
\<close>

theorem race_ends_completed:
  assumes "reachable save (scripted (race_script i ep g)) (new_system e) s" and "length (sy_log s) = 3"
    and "engine_get i e = Some w" and "racing ep k g False w"
  shows "sy_owner s = None \<and>
    (\<exists>v. engine_get i (sy_engine s) = Some v \<and> wl_state v = WorkloadState.COMPLETED \<and>
      er_outcome (fst (serve save (Request i (RequestCancellation g)) (sy_engine s))) = Outcome.REJECT_TERMINAL)"
proof -
  let ?cancel = "Request i (RequestCancellation g)" and ?mark = "Request i (MarkEpisodeCompleted ep)"
    and ?commit = "Request i (CommitCompletion g)"
  have c: "consistent save (scripted (race_script i ep g)) e s" using assms(1) by (rule reachable_consistent)
  then have f: "follows (scripted (race_script i ep g)) (sy_log s)" by (simp add: consistent_def)
  note done' = race_orders(2) [OF f assms(2)]
  have free: "sy_owner s = None"
  proof (rule ccontr)
    assume "sy_owner s \<noteq> None"
    with c obtain t a p where "th_control (sy_threads s t) = Inside a p" by (auto simp: consistent_def)
    from consistent_inside(3) [OF c this] done' show False by simp
  qed
  then have engine: "sy_engine s = serve_all save (requests_of (sy_log s)) e"
    using c by (simp add: consistent_def serial_serve_all)
  have terminal: "requestCancellationWorkloadScope g v = (Outcome.REJECT_TERMINAL, v)"
    if "wl_state v = WorkloadState.COMPLETED" "wl_generation v = g" for v
    using that by (simp add: requestCancellationWorkloadScope_def)
  have off: "offered (RequestCancellation g)" "offered (MarkEpisodeCompleted ep)" "offered (CommitCompletion g)"
    by (simp_all add: offered_def)
  let ?c = "snd (requestCancellationWorkloadScope g w)" and ?m = "snd (markEpisodeCompleted ep w)"
  have "racing ep k g True (snd (markEpisodeCompleted ep ?c))"
    using racing_mark [OF racing_cancel [OF assms(4)]] .
  note order1 = racing_commit [OF this]
  have "racing ep k g True (snd (requestCancellationWorkloadScope g ?m))"
    using racing_cancel [OF racing_mark [OF assms(4)]] .
  note order2 = racing_commit [OF this]
  note order3 = racing_commit [OF racing_mark [OF assms(4)]]
  have "\<exists>v. engine_get i (serve_all save rs e) = Some v \<and> wl_state v = WorkloadState.COMPLETED \<and> wl_generation v = g"
    if "rs \<in> {[?cancel, ?mark, ?commit], [?mark, ?cancel, ?commit], [?mark, ?commit, ?cancel]}" for rs
    using that assms(3) off order1 order2 order3 terminal [OF order3]
    by (auto simp: served_request simp del: serve.simps(4))
  from this [OF race_orders(1) [OF f assms(2)]] obtain v where v: "engine_get i (sy_engine s) = Some v"
    "wl_state v = WorkloadState.COMPLETED" "wl_generation v = g"
    unfolding engine by blast
  with served_request(2) [OF v(1) off(1), of save] terminal [OF v(2,3)] free show ?thesis by simp
qed

theorem race_ends_completed_witness:
  "\<exists>v. engine_get (UniqueValue 7) (sy_engine (race_run race_schedule)) = Some v \<and>
     wl_state v = WorkloadState.COMPLETED"
proof -
  have "length (sy_log (race_run race_schedule)) = 3" by code_simp
  moreover have "racing (UniqueValue 1000) 0 (UniqueValue 2) False sample_running" by code_simp
  ultimately show ?thesis
    using race_ends_completed [OF race_run_reachable, of race_schedule sample_running 0] by auto
qed

end
