(* ===== verification/Protocol.thy ===== *)
theory Protocol
  imports Binary
begin

text \<open>
  The wire protocol between the coordinator and the workers (\<open>protocol.hpp\<close>,
  \<open>protocol.cpp\<close>): the message record, its encoding and its bounded decoding.
\<close>

datatype MsgType = HELLO | REGISTER | DISPATCH | PROGRESS | COMPLETE | CANCEL | SHUTDOWN | PING

primrec msgType_code :: "MsgType \<Rightarrow> nat" where
  "msgType_code MsgType.HELLO = 0"
| "msgType_code MsgType.REGISTER = 1"
| "msgType_code MsgType.DISPATCH = 2"
| "msgType_code MsgType.PROGRESS = 3"
| "msgType_code MsgType.COMPLETE = 4"
| "msgType_code MsgType.CANCEL = 5"
| "msgType_code MsgType.SHUTDOWN = 6"
| "msgType_code MsgType.PING = 7"

definition msgType_values :: "MsgType list" where
  "msgType_values = [MsgType.HELLO, MsgType.REGISTER, MsgType.DISPATCH, MsgType.PROGRESS,
     MsgType.COMPLETE, MsgType.CANCEL, MsgType.SHUTDOWN, MsgType.PING]"

interpretation msgType: wire_enum msgType_values msgType_code
proof
  show "map msgType_code msgType_values = [0..<length msgType_values]"
    by (simp add: msgType_values_def upt_rec)
  show "x \<in> set msgType_values" for x
    by (cases x) (simp_all add: msgType_values_def)
  show "length msgType_values \<le> 256"
    by (simp add: msgType_values_def)
qed

definition kProtocolMagic :: bytes where
  "kProtocolMagic = map byte_of_char ''WFP1''"

record Message =
  ms_type :: MsgType
  ms_workloadId :: u64
  ms_episodeId :: u64
  ms_episodeGen :: u64
  ms_workloadGen :: u64
  ms_workerId :: u64
  ms_bootId :: u64
  ms_value :: u64
  ms_flag1 :: bool
  ms_flag2 :: bool
  ms_payload :: string
  ms_extra :: string

definition default_message :: Message where
  "default_message = \<lparr>ms_type = MsgType.PING, ms_workloadId = 0, ms_episodeId = 0, ms_episodeGen = 0,
     ms_workloadGen = 0, ms_workerId = 0, ms_bootId = 0, ms_value = 0, ms_flag1 = False,
     ms_flag2 = False, ms_payload = [], ms_extra = []\<rparr>"

definition encodeMessage :: "Message \<Rightarrow> bytes" where
  "encodeMessage m =
     kProtocolMagic @ put_u8 (word_of_nat (msgType_code (ms_type m))) @
     put_u64 (ms_workloadId m) @ put_u64 (ms_episodeId m) @ put_u64 (ms_episodeGen m) @
     put_u64 (ms_workloadGen m) @ put_u64 (ms_workerId m) @ put_u64 (ms_bootId m) @
     put_u64 (ms_value m) @ put_bool (ms_flag1 m) @ put_bool (ms_flag2 m) @
     put_str (ms_payload m) @ put_str (ms_extra m)"

definition get_message :: "Message reader" where
  "get_message =
     bind get_u8 (\<lambda>t. if t > 7 then (\<lambda>_. Codec_error) else
     bind get_u64 (\<lambda>workloadId.
     bind get_u64 (\<lambda>episodeId.
     bind get_u64 (\<lambda>episodeGen.
     bind get_u64 (\<lambda>workloadGen.
     bind get_u64 (\<lambda>workerId.
     bind get_u64 (\<lambda>bootId.
     bind get_u64 (\<lambda>v.
     bind get_bool (\<lambda>flag1.
     bind get_bool (\<lambda>flag2.
     bind get_str (\<lambda>payload.
     bind get_str (\<lambda>extra.
     ret \<lparr>ms_type = msgType_values ! unat t, ms_workloadId = workloadId, ms_episodeId = episodeId,
          ms_episodeGen = episodeGen, ms_workloadGen = workloadGen, ms_workerId = workerId,
          ms_bootId = bootId, ms_value = v, ms_flag1 = flag1, ms_flag2 = flag2,
          ms_payload = payload, ms_extra = extra\<rparr>))))))))))))"

text \<open>\<open>None\<close> is the exception \<open>ProtocolError\<close>, into which a \<open>CodecError\<close> is turned.\<close>

definition decodeMessage :: "bytes \<Rightarrow> Message option" where
  "decodeMessage p =
     (if length p < 4 then None
      else if take 4 p \<noteq> kProtocolMagic then None
      else case get_message (drop 4 p) of Done m _ \<Rightarrow> Some m | _ \<Rightarrow> None)"

section \<open>Round trip\<close>

definition message_fits :: "Message \<Rightarrow> bool" where
  "message_fits m \<longleftrightarrow> size_fits (ms_payload m) \<and> size_fits (ms_extra m)"

lemma magic_length [simp]: "length kProtocolMagic = 4"
  by (simp add: kProtocolMagic_def)

definition message_body :: "Message \<Rightarrow> bytes" where
  "message_body m = drop 4 (encodeMessage m)"

lemma encodeMessage_split: "encodeMessage m = kProtocolMagic @ message_body m"
  by (simp add: message_body_def encodeMessage_def)

lemma get_message_put: "message_fits m \<Longrightarrow> get_message (message_body m @ ys) = Done m ys"
proof -
  assume fits: "message_fits m"
  have t: "\<not> (word_of_nat (msgType_code (ms_type m)) :: u8) > 7"
    using msgType.code_less [of "ms_type m"]
    by (simp add: word_less_nat_alt msgType.code_byte msgType_values_def)
  show ?thesis
    using fits t
    by (simp add: message_body_def encodeMessage_def get_message_def read_back message_fits_def
        msgType.code_byte msgType.nth_code)
qed

lemma decode_encoded: "message_fits m \<Longrightarrow> decodeMessage (encodeMessage m @ rest) = Some m"
  by (simp add: decodeMessage_def encodeMessage_split get_message_put)

text \<open>
  C21. A message is decoded to itself from its encoding, whatever follows it in the
  frame: every field and flag, and both strings, which may contain any bytes.
\<close>

theorem message_round_trip:
  "message_fits m \<Longrightarrow> decodeMessage (encodeMessage m @ rest) = Some m"
  by (rule decode_encoded)

theorem message_round_trip_witness:
  "decodeMessage (encodeMessage (default_message\<lparr>ms_payload := ''10:0:4''\<rparr>) @ [0]) =
     Some (default_message\<lparr>ms_payload := ''10:0:4''\<rparr>)"
  by (rule message_round_trip) code_simp

section \<open>Malformed frames\<close>

text \<open>A reader is stable when bytes it does not need do not change what it reads.\<close>

definition stable :: "'a reader \<Rightarrow> bool" where
  "stable g \<longleftrightarrow> (\<forall>xs x ys zs. g xs = Done x ys \<longrightarrow> g (xs @ zs) = Done x (ys @ zs))"

lemma stableD: "stable g \<Longrightarrow> g xs = Done x ys \<Longrightarrow> g (xs @ zs) = Done x (ys @ zs)"
  by (simp add: stable_def)

lemma stable_ret: "stable (ret x)"
  by (simp add: stable_def)

lemma stable_fail: "stable (\<lambda>_. Codec_error)"
  by (simp add: stable_def)

lemma stable_bind: "stable g \<Longrightarrow> (\<And>x. stable (k x)) \<Longrightarrow> stable (bind g k)"
  by (auto simp: stable_def bind_def split: reading.splits)

lemma stable_if: "stable g \<Longrightarrow> stable h \<Longrightarrow> stable (if b then g else h)"
  by simp

lemma stable_need: "stable g \<Longrightarrow> stable (need n g)"
  by (auto simp: stable_def need_def split: if_splits)

lemma stable_u8: "stable get_u8"
  by (auto simp: stable_def get_u8_def need_def Suc_le_eq split: if_splits)

lemma stable_loop: "stable (get_loop n r)"
  by (induction n arbitrary: r) (simp_all add: stable_ret stable_bind stable_u8)

lemma stable_u64: "stable get_u64"
  by (simp add: get_u64_def stable_need stable_loop)

lemma stable_bool: "stable get_bool"
  by (simp add: get_bool_def stable_bind stable_u8 stable_ret)

lemma stable_raw: "stable (get_raw n)"
  by (auto simp: stable_def get_raw_def need_def split: if_splits)

lemma stable_str: "stable get_str"
proof -
  have "stable (\<lambda>xs. if unat n > length xs then Codec_error
      else bind (get_raw (unat n)) (\<lambda>bs. ret (map char_of_byte bs)) xs)" for n :: u64
    using stable_bind [OF stable_raw stable_ret, of "unat n" "map char_of_byte"]
    by (auto simp: stable_def split: if_splits)
  then show ?thesis
    unfolding get_str_def by (intro stable_bind stable_u64)
qed

lemma stable_message: "stable get_message"
  unfolding get_message_def
  by (intro stable_bind stable_if stable_fail stable_u8 stable_u64 stable_bool stable_str stable_ret)

text \<open>
  A frame that does not start with the protocol magic, one with an
  unknown message type, and every proper prefix of a message, whatever byte it was cut off at, is
  rejected as a protocol error; no length field in it makes the decoder read past the frame.
\<close>

theorem malformed_frames_rejected:
  "(take 4 p \<noteq> kProtocolMagic \<longrightarrow> decodeMessage p = None) \<and>
   (5 \<le> length p \<and> p ! 4 > 7 \<longrightarrow> decodeMessage p = None) \<and>
   (message_fits m \<and> n < length (encodeMessage m) \<longrightarrow> decodeMessage (take n (encodeMessage m)) = None)"
proof (intro conjI impI)
  show "decodeMessage p = None" if "take 4 p \<noteq> kProtocolMagic"
    using that by (simp add: decodeMessage_def)
  show "decodeMessage p = None" if "5 \<le> length p \<and> p ! 4 > 7"
  proof -
    from that obtain a b c d t q where "p = a # b # c # d # t # q"
      by (auto simp: numeral_eq_Suc Suc_le_length_iff)
    with that show ?thesis
      by (simp add: decodeMessage_def get_message_def bind_def)
  qed
  assume cut: "message_fits m \<and> n < length (encodeMessage m)"
  show "decodeMessage (take n (encodeMessage m)) = None"
  proof (cases "n < 4")
    case False
    then have rest: "drop 4 (take n (encodeMessage m)) = take (n - 4) (message_body m)"
      by (simp add: message_body_def drop_take)
    have "get_message (take (n - 4) (message_body m)) \<noteq> Done x ys" for x ys
    proof
      assume "get_message (take (n - 4) (message_body m)) = Done x ys"
      then have "get_message (take (n - 4) (message_body m) @ drop (n - 4) (message_body m)) =
          Done x (ys @ drop (n - 4) (message_body m))"
        by (rule stableD [OF stable_message])
      moreover have "get_message (message_body m @ []) = Done m []"
        using cut by (intro get_message_put) simp
      ultimately have "drop (n - 4) (message_body m) = []" by simp
      then have "length (message_body m) \<le> n - 4" by simp
      moreover have "n < 4 + length (message_body m)" using cut by (simp add: encodeMessage_split)
      ultimately show False using False by linarith
    qed
    then show ?thesis
      by (simp add: decodeMessage_def rest split: reading.split)
  qed (simp add: decodeMessage_def)
qed

theorem malformed_frames_rejected_witness:
  "decodeMessage (take 20 (encodeMessage default_message)) = None"
proof -
  have "message_fits default_message" "20 < length (encodeMessage default_message)" by code_simp+
  with malformed_frames_rejected [of "[]" default_message 20] show ?thesis by blast
qed

end
