(* ===== verification/Transport.thy ===== *)
theory Transport
  imports Protocol
begin

text \<open>
  The framing of the TCP transport (\<open>transport.hpp\<close>, \<open>transport_win.cpp\<close>). The socket is
  the environment: what each \<open>send\<close> accepts and what each \<open>recv\<close> delivers is given by a list
  of events, so that every segmentation of the byte stream is covered. The lemmas show that frames
  come out as they went in however the stream is cut up, and that reading is bounded.
\<close>

definition kMaxFrameSize :: int where
  "kMaxFrameSize = 1048576"

section \<open>Sending\<close>

text \<open>
  The outcome of one \<open>send\<close>: the number of bytes it accepts (it can never be more than it was
  offered), or an error. Accepting none is the closed connection.
\<close>

datatype send_event = Accepts nat | Send_error

text \<open>
  \<open>writeAll\<close>: the bytes put on the wire, the events left, and whether it returned without an
  exception. Without an event left the call blocks for good: \<open>None\<close>.
\<close>

function writeAll :: "bytes \<Rightarrow> send_event list \<Rightarrow> (bool \<times> bytes \<times> send_event list) option" where
  "writeAll [] evs = Some (True, [], evs)"
| "writeAll (b # bs) [] = None"
| "writeAll (b # bs) (Send_error # evs) = Some (False, [], evs)"
| "writeAll (b # bs) (Accepts n # evs) =
     (if n = 0 then Some (False, [], evs)
      else map_option (\<lambda>(ok, out, evs'). (ok, take n (b # bs) @ out, evs')) (writeAll (drop n (b # bs)) evs))"
  by pat_completeness auto
termination
  by (relation "measure (length o snd)") auto

definition sendFrame :: "bytes \<Rightarrow> send_event list \<Rightarrow> (bool \<times> bytes \<times> send_event list) option" where
  "sendFrame frame evs =
     (if int (length frame) > kMaxFrameSize then Some (False, [], evs)
      else
        let len = word_of_nat (length frame) :: u32;
            hdr = put_u32 len
        in case writeAll hdr evs of
             None \<Rightarrow> None
           | Some (ok, out, evs1) \<Rightarrow>
               if \<not> ok then Some (False, out, evs1)
               else if len \<noteq> 0 then map_option (\<lambda>(ok2, out2, evs2). (ok2, out @ out2, evs2)) (writeAll frame evs1)
               else Some (True, out, evs1))"

section \<open>Receiving\<close>

text \<open>
  What the network does when the peer waits for data: bytes arrive (the socket buffers those a
  \<open>recv\<close> did not ask for), the wait of a polling read times out, the peer closes, or the call fails.
\<close>

datatype recv_event = Arrives bytes | Times_out | Closes | Recv_error

text \<open>
  \<open>readExact\<close> with a blocking or polling wait: the bytes read so far and the events left, with the
  value the function returns. A blocking read does not poll, so a time-out is no event for it. With
  no event left the call blocks for good. An arrival carries at least one byte.
\<close>

function readExact :: "bool \<Rightarrow> nat \<Rightarrow> recv_event list \<Rightarrow> (bool \<times> bytes \<times> recv_event list) option" where
  "readExact polling 0 evs = Some (True, [], evs)"
| "readExact polling (Suc n) [] = None"
| "readExact polling (Suc n) (Times_out # evs) =
     (if polling then Some (False, [], evs) else readExact polling (Suc n) evs)"
| "readExact polling (Suc n) (Closes # evs) = Some (False, [], Closes # evs)"
| "readExact polling (Suc n) (Recv_error # evs) = Some (False, [], evs)"
| "readExact polling (Suc n) (Arrives bs # evs) =
     (if length bs \<le> Suc n
      then map_option (\<lambda>(ok, out, evs'). (ok, bs @ out, evs')) (readExact polling (Suc n - length bs) evs)
      else Some (True, take (Suc n) bs, Arrives (drop (Suc n) bs) # evs))"
  by pat_completeness auto
termination
  by (relation "measure (\<lambda>(p, n, evs). length evs)") auto

definition receiveFrame :: "bool \<Rightarrow> recv_event list \<Rightarrow> (bytes option \<times> recv_event list) option" where
  "receiveFrame polling evs =
     (case readExact polling 4 evs of
        None \<Rightarrow> None
      | Some (ok, hdr, evs1) \<Rightarrow>
          if \<not> ok then Some (None, evs1)
          else case get_u32 hdr of
            Done len _ \<Rightarrow>
              if uint len > kMaxFrameSize then Some (None, evs1)
              else if len \<noteq> 0 then
                map_option (\<lambda>(ok2, out, evs2). (if ok2 then Some out else None, evs2)) (readExact polling (unat len) evs1)
              else Some (Some [], evs1)
          | _ \<Rightarrow> Some (None, evs1))"

section \<open>Any segmentation\<close>

lemma writeAll_ok: "writeAll bs evs = Some (True, out, evs') \<Longrightarrow> out = bs"
  by (induction bs evs arbitrary: out evs' rule: writeAll.induct) (auto split: if_splits)

text \<open>The bytes on the wire after a frame was sent: its length and its body.\<close>

definition framed :: "bytes \<Rightarrow> bytes" where
  "framed frame = put_u32 (word_of_nat (length frame)) @ frame"

lemma sendFrame_ok:
  assumes "sendFrame frame evs = Some (True, out, evs')"
  shows "out = framed frame \<and> int (length frame) \<le> kMaxFrameSize"
proof -
  have zero: "(word_of_nat (length frame) :: u32) = 0 \<longleftrightarrow> frame = []" if "int (length frame) \<le> kMaxFrameSize"
    using that by (auto simp: kMaxFrameSize_def word_of_nat_eq_0_iff dest: dvd_imp_le)
  then show ?thesis
    using assms
    by (auto simp: sendFrame_def framed_def Let_def split: if_splits option.splits dest!: writeAll_ok)
qed

text \<open>The bytes a list of arrivals carries.\<close>

definition arrivals :: "bytes list \<Rightarrow> recv_event list" where
  "arrivals chunks = map Arrives chunks"

lemma readExact_arrivals:
  assumes "n \<le> length (concat chunks)"
  shows "\<exists>chunks'. readExact polling n (arrivals chunks) = Some (True, take n (concat chunks), arrivals chunks') \<and>
    concat chunks' = drop n (concat chunks)"
  using assms
proof (induction chunks arbitrary: n)
  case Nil
  then show ?case by (auto simp: arrivals_def intro: exI [of _ "[]"])
next
  case (Cons c cs)
  show ?case
  proof (cases n)
    case 0
    then show ?thesis by (auto intro: exI [of _ "c # cs"])
  next
    case (Suc m)
    show ?thesis
    proof (cases "length c \<le> n")
      case True
      have "n - length c \<le> length (concat cs)" using Cons.prems by simp
      from Cons.IH [OF this] obtain ds where
        "readExact polling (n - length c) (arrivals cs) = Some (True, take (n - length c) (concat cs), arrivals ds)"
        "concat ds = drop (n - length c) (concat cs)" by blast
      with Suc True show ?thesis by (auto simp: arrivals_def)
    next
      case False
      with Suc show ?thesis
        by (auto simp: arrivals_def intro: exI [of _ "drop n c # cs"])
    qed
  qed
qed

lemma receiveFrame_arrivals:
  assumes "concat chunks = framed frame @ rest" and "int (length frame) \<le> kMaxFrameSize"
  shows "\<exists>chunks'. receiveFrame polling (arrivals chunks) = Some (Some frame, arrivals chunks') \<and>
    concat chunks' = rest"
proof -
  have small: "length frame < 2 ^ 32" using assms(2) by (simp add: kMaxFrameSize_def)
  then have len: "unat (word_of_nat (length frame) :: u32) = length frame" by (simp add: unat_of_nat)
  then have ulen: "uint (word_of_nat (length frame) :: u32) = int (length frame)"
    by (simp add: uint_nat)
  obtain cs where cs: "readExact polling 4 (arrivals chunks) =
      Some (True, put_u32 (word_of_nat (length frame)), arrivals cs)" "concat cs = frame @ rest"
    using readExact_arrivals [of 4 chunks polling] assms(1) by (auto simp: framed_def)
  obtain ds where ds: "readExact polling (length frame) (arrivals cs) = Some (True, frame, arrivals ds)"
      "concat ds = rest"
    using readExact_arrivals [of "length frame" cs polling] cs(2) by auto
  have hdr: "get_u32 (put_u32 (word_of_nat (length frame))) = Done (word_of_nat (length frame)) []"
    by (rule u32.whole) simp
  show ?thesis
  proof (cases "frame = []")
    case True
    with cs hdr show ?thesis by (auto simp: receiveFrame_def kMaxFrameSize_def)
  next
    case False
    then have "(word_of_nat (length frame) :: u32) \<noteq> 0" using len by auto
    with cs ds hdr len ulen assms(2) show ?thesis by (auto simp: receiveFrame_def)
  qed
qed

fun receive_frames :: "nat \<Rightarrow> bool \<Rightarrow> recv_event list \<Rightarrow> bytes list" where
  "receive_frames 0 polling evs = []"
| "receive_frames (Suc n) polling evs =
     (case receiveFrame polling evs of
        Some (Some f, evs') \<Rightarrow> f # receive_frames n polling evs'
      | _ \<Rightarrow> [])"

lemma received_frames:
  assumes "concat chunks = concat (map framed frames) @ rest"
    and "\<forall>f\<in>set frames. int (length f) \<le> kMaxFrameSize"
  shows "receive_frames (length frames) polling (arrivals chunks) = frames"
  using assms
proof (induction frames arbitrary: chunks)
  case (Cons f fs)
  then obtain cs where "receiveFrame polling (arrivals chunks) = Some (Some f, arrivals cs)"
      "concat cs = concat (map framed fs) @ rest"
    using receiveFrame_arrivals [of chunks f "concat (map framed fs) @ rest" polling] by auto
  with Cons show ?case by simp
qed simp

text \<open>
  C22. Frames of at most a mebibyte that were put on the wire one after the
  other are received one after the other and unchanged, however the network cuts the stream of
  their bytes into arrivals, with a blocking as well as with a polling read.
\<close>

theorem frames_survive_segmentation:
  assumes "concat chunks = concat (map framed frames) @ rest"
    and "\<forall>f\<in>set frames. int (length f) \<le> kMaxFrameSize"
  shows "receive_frames (length frames) polling (arrivals chunks) = frames"
  using assms by (rule received_frames)

theorem frames_survive_segmentation_witness:
  "receive_frames 2 False (arrivals [[0, 0, 0], [2, 7], [9, 0, 0], [0, 0, 5]]) = [[7, 9], []]"
proof -
  have "concat [[0, 0, 0], [2, 7], [9, 0, 0], [0, 0, 5 :: u8]] = concat (map framed [[7, 9], []]) @ [5]"
    by code_simp
  moreover have "\<forall>f\<in>set [[7, 9 :: u8], []]. int (length f) \<le> kMaxFrameSize" by (simp add: kMaxFrameSize_def)
  ultimately have "receive_frames (length [[7, 9 :: u8], []]) False
      (arrivals [[0, 0, 0], [2, 7], [9, 0, 0], [0, 0, 5]]) = [[7, 9], []]"
    by (rule frames_survive_segmentation)
  then show ?thesis by (simp add: numeral_2_eq_2)
qed

text \<open>
  Frames above the limit are neither sent nor read: the sender puts no
  byte on the wire, and a header announcing more is rejected after four bytes, before anything is
  allocated or read for the body.
\<close>

theorem oversized_frames_rejected:
  "(kMaxFrameSize < int (length frame) \<longrightarrow> sendFrame frame sevs = Some (False, [], sevs)) \<and>
   (kMaxFrameSize < uint len \<and> concat chunks = put_u32 len @ body \<longrightarrow>
      (\<exists>cs. receiveFrame polling (arrivals chunks) = Some (None, arrivals cs) \<and> concat cs = body))"
proof (intro conjI impI)
  show "sendFrame frame sevs = Some (False, [], sevs)" if "kMaxFrameSize < int (length frame)"
    using that by (simp add: sendFrame_def)
  assume *: "kMaxFrameSize < uint len \<and> concat chunks = put_u32 len @ body"
  then obtain cs where "readExact polling 4 (arrivals chunks) = Some (True, put_u32 len, arrivals cs)"
      "concat cs = body"
    using readExact_arrivals [of 4 chunks polling] by auto
  with * show "\<exists>cs. receiveFrame polling (arrivals chunks) = Some (None, arrivals cs) \<and> concat cs = body"
    by (auto simp: receiveFrame_def u32.whole)
qed

theorem oversized_frames_rejected_witness:
  "\<exists>cs. receiveFrame False (arrivals [[255], [255, 255, 255, 1]]) = Some (None, arrivals cs) \<and> concat cs = [1]"
proof -
  have "kMaxFrameSize < uint (0xFFFFFFFF :: u32)" by (simp add: kMaxFrameSize_def)
  moreover have "concat [[255], [255, 255, 255, 1 :: u8]] = put_u32 0xFFFFFFFF @ [1]" by code_simp
  ultimately show ?thesis
    using oversized_frames_rejected [of "[]" "[]" "0xFFFFFFFF" "[[255], [255, 255, 255, 1]]" "[1]" False] by blast
qed

text \<open>
  A time-out in the middle of a frame loses the synchronisation: the bytes read before it are dropped,
  and the next call takes bytes of the body for a header.
\<close>

lemma timeout_loses_synchronisation:
  "receive_frames 1 True [Arrives [0, 0, 0, 2], Arrives [7, 9]] = [[7, 9]] \<and>
   receiveFrame True [Arrives [0, 0, 0, 2], Times_out, Arrives [7, 9], Arrives [0, 0, 0, 1, 5]] =
     Some (None, [Arrives [7, 9], Arrives [0, 0, 0, 1, 5]]) \<and>
   receiveFrame True [Arrives [7, 9], Arrives [0, 0, 0, 1, 5]] = Some (None, [Arrives [0, 1, 5]])"
  by code_simp

end
