(* ===== verification/Worker.thy ===== *)
theory Worker
  imports Protocol Text Identity
begin

text \<open>
  The worker runtime (\<open>worker.hpp\<close>, \<open>worker.cpp\<close>): the work descriptor and its parser, the
  reference computation, and the worker's message loop. The peer is the environment: the frames it
  delivers are a list, and whether each send succeeds is a function of its number. The segment
  runner is a parameter, as in the code.
\<close>

section \<open>Work descriptors\<close>

record WorkDescriptor =
  wd_raw :: string
  wd_total :: u64
  wd_resumeFrom :: u64
  wd_chunk :: u64
  wd_token :: string

definition new_descriptor :: "string \<Rightarrow> string \<Rightarrow> WorkDescriptor" where
  "new_descriptor raw token =
     \<lparr>wd_raw = raw, wd_total = 0, wd_resumeFrom = 0, wd_chunk = 0, wd_token = token\<rparr>"

text \<open>The loop over the characters: \<open>cur\<close> is the part from \<open>start\<close> to the current index.\<close>

fun split_parts :: "string \<Rightarrow> string \<Rightarrow> string list" where
  "split_parts cur [] = [cur]"
| "split_parts cur (c # cs) = (if c = CHR '':'' then cur # split_parts [] cs else split_parts (cur @ [c]) cs)"

text \<open>The fields that were converted before a conversion throws keep their new values.\<close>

definition parse :: "WorkDescriptor \<Rightarrow> bool \<times> WorkDescriptor" where
  "parse d =
     (let parts = split_parts [] (wd_raw d)
      in if length parts \<noteq> 3 then (False, d)
         else case stoull (parts ! 0) of
           None \<Rightarrow> (False, d)
         | Some tot \<Rightarrow>
             let d = d\<lparr>wd_total := tot\<rparr>
             in case stoull (parts ! 1) of
                  None \<Rightarrow> (False, d)
                | Some resumeFrom \<Rightarrow>
                    let d = d\<lparr>wd_resumeFrom := resumeFrom\<rparr>
                    in case stoull (parts ! 2) of
                         None \<Rightarrow> (False, d)
                       | Some chunk \<Rightarrow>
                           let d = d\<lparr>wd_chunk := chunk\<rparr>
                           in (\<not> (wd_chunk d = 0 \<or> wd_resumeFrom d > wd_total d), d))"

text \<open>The form in which the coordinator writes a descriptor.\<close>

definition descriptor_text :: "u64 \<Rightarrow> u64 \<Rightarrow> u64 \<Rightarrow> string" where
  "descriptor_text tot resumeFrom chunk =
     to_string tot @ '':'' @ to_string resumeFrom @ '':'' @ to_string chunk"

lemma split_parts_plain: "CHR '':'' \<notin> set s \<Longrightarrow> split_parts cur (s @ CHR '':'' # t) = (cur @ s) # split_parts [] t"
  by (induction s arbitrary: cur) auto

lemma split_parts_last: "CHR '':'' \<notin> set s \<Longrightarrow> split_parts cur s = [cur @ s]"
  by (induction s arbitrary: cur) auto

lemma descriptor_parts:
  "split_parts [] (descriptor_text t r c) = [to_string t, to_string r, to_string c]"
  by (simp add: descriptor_text_def to_string_def split_parts_plain split_parts_last decimal_no_colon)

lemma parse_descriptor:
  "parse (new_descriptor (descriptor_text t r c) token) =
     (c \<noteq> 0 \<and> r \<le> t, (new_descriptor (descriptor_text t r c) token)\<lparr>wd_total := t, wd_resumeFrom := r, wd_chunk := c\<rparr>)"
  by (simp add: parse_def new_descriptor_def descriptor_parts stoull_to_string Let_def not_less)

text \<open>
  Parsing the text of a work descriptor gives back its three numbers, for all
  64-bit values, and accepts it exactly when the chunk is not zero and the resume point does not
  lie beyond the total.
\<close>

theorem descriptor_round_trip:
  "let r = parse (new_descriptor (descriptor_text tot resumeFrom chunk) token) in
     (fst r \<longleftrightarrow> chunk \<noteq> 0 \<and> resumeFrom \<le> tot) \<and>
     wd_total (snd r) = tot \<and> wd_resumeFrom (snd r) = resumeFrom \<and> wd_chunk (snd r) = chunk"
  by (simp add: parse_descriptor Let_def)

text \<open>
  The parser accepts more than the documented form: blanks and signs before a number, anything after
  it, and negative numbers modulo \<open>2^64\<close>.
\<close>

lemma parse_is_lax:
  "fst (parse (new_descriptor '' +10x:-18446744073709551613:2 units'' [])) \<and>
   wd_total (snd (parse (new_descriptor '' +10x:-18446744073709551613:2 units'' []))) = 10 \<and>
   wd_resumeFrom (snd (parse (new_descriptor '' +10x:-18446744073709551613:2 units'' []))) = 3"
  by code_simp

section \<open>The reference computation\<close>

fun cpu_loop :: "u64 \<Rightarrow> nat \<Rightarrow> u64 \<Rightarrow> u64 \<Rightarrow> u64" where
  "cpu_loop segment 0 i acc = acc"
| "cpu_loop segment (Suc n) i acc =
     (let acc = acc + ((segment + 1) * 31 + i * 7 + i mod 13);
          acc = acc XOR drop_bit 7 acc
      in cpu_loop segment n (i + 1) acc)"

definition cpuReferenceSegment :: "u64 \<Rightarrow> u64 \<Rightarrow> u64" where
  "cpuReferenceSegment segment unitsPerSegment = cpu_loop segment (unat unitsPerSegment) 0 0"

section \<open>The peer\<close>

record peer =
  pe_inbox :: "bytes option list" \<comment> \<open>frames to come; \<open>None\<close> is a failed receive\<close>
  pe_sent :: "bytes list" \<comment> \<open>frames sent so far\<close>
  pe_attempts :: nat \<comment> \<open>sends attempted so far\<close>

definition send :: "(nat \<Rightarrow> bool) \<Rightarrow> bytes \<Rightarrow> peer \<Rightarrow> bool \<times> peer" where
  "send ok frame p =
     (ok (pe_attempts p),
      p\<lparr>pe_attempts := pe_attempts p + 1,
        pe_sent := (if ok (pe_attempts p) then pe_sent p @ [frame] else pe_sent p)\<rparr>)"

section \<open>The message loop\<close>

definition progress_message :: "WorkerId \<Rightarrow> WorkerBootId \<Rightarrow> Message \<Rightarrow> u64 \<Rightarrow> Message" where
  "progress_message worker boot m step = default_message\<lparr>ms_type := MsgType.PROGRESS,
     ms_workloadId := ms_workloadId m, ms_episodeId := ms_episodeId m, ms_episodeGen := ms_episodeGen m,
     ms_workloadGen := ms_workloadGen m, ms_workerId := toU64 worker, ms_bootId := toU64 boot,
     ms_value := step, ms_flag1 := True\<rparr>"

definition complete_message :: "WorkerId \<Rightarrow> WorkerBootId \<Rightarrow> Message \<Rightarrow> u64 \<Rightarrow> Message" where
  "complete_message worker boot m result = default_message\<lparr>ms_type := MsgType.COMPLETE,
     ms_workloadId := ms_workloadId m, ms_episodeId := ms_episodeId m, ms_episodeGen := ms_episodeGen m,
     ms_workloadGen := ms_workloadGen m, ms_workerId := toU64 worker, ms_bootId := toU64 boot,
     ms_payload := to_string result\<rparr>"

text \<open>The units of one increment: the runner's results are added up modulo \<open>2^64\<close>.\<close>

definition run_units :: "(u64 \<Rightarrow> u64 \<Rightarrow> u64) \<Rightarrow> u64 \<Rightarrow> u64 \<Rightarrow> u64 \<Rightarrow> u64 \<Rightarrow> u64" where
  "run_units runner first step tot result =
     foldl (\<lambda>r u. r + runner (first + word_of_nat u) tot) result [0..<unat step]"

lemma step_advances:
  assumes "(chunk :: u64) \<noteq> 0" and "reported < remaining"
  defines "step \<equiv> min chunk (remaining - reported)"
  shows "unat (reported + step) = unat reported + unat step" "0 < unat step"
    "unat step \<le> unat remaining - unat reported" "reported + step \<le> remaining"
proof -
  have room: "unat (remaining - reported) = unat remaining - unat reported"
    using assms(2) by (simp add: unat_sub)
  have le: "step \<le> remaining - reported" by (simp add: step_def)
  then show s: "unat step \<le> unat remaining - unat reported" by (simp add: word_le_nat_alt room)
  have less: "unat reported < unat remaining" using assms(2) by (simp add: word_less_nat_alt)
  have "remaining - reported \<noteq> 0" using room less by auto
  then have "step \<noteq> 0" using assms(1) by (simp add: step_def min_def)
  then show "0 < unat step" by (simp add: unat_gt_0)
  have "unat reported + unat step \<le> unat remaining" using s less by simp
  moreover have "unat remaining < 2 ^ 64" using unsigned_less [of remaining, where 'a = nat] by simp
  ultimately show sum: "unat (reported + step) = unat reported + unat step"
    by (intro unat_add_no_wrap) simp
  show "reported + step \<le> remaining"
    unfolding word_le_nat_alt sum using s less by simp
qed

text \<open>
  The loop over the increments of a dispatch, with the function that turns an increment into its
  message. A chunk of zero, for which the loop of the code would not end, is refused by the parser.
\<close>

function segments ::
  "(nat \<Rightarrow> bool) \<Rightarrow> (u64 \<Rightarrow> u64 \<Rightarrow> u64) \<Rightarrow> (u64 \<Rightarrow> Message) \<Rightarrow> WorkDescriptor \<Rightarrow> u64 \<Rightarrow> u64 \<Rightarrow> peer \<Rightarrow>
    bool \<times> u64 \<times> peer" where
  "segments ok runner mk d reported result p =
     (let remaining = wd_total d - wd_resumeFrom d
      in if wd_chunk d = 0 \<or> \<not> reported < remaining then (True, result, p)
         else
           let step = min (wd_chunk d) (remaining - reported);
               result' = run_units runner (wd_resumeFrom d + reported) step (wd_total d) result;
               s = send ok (encodeMessage (mk step)) p
           in if \<not> fst s then (False, result', snd s)
              else segments ok runner mk d (reported + step) result' (snd s))"
  by pat_completeness auto

termination
proof (relation "measure (\<lambda>(ok, runner, mk, d, reported, result, p).
    unat (wd_total d - wd_resumeFrom d) - unat reported)", goal_cases)
  case 1
  show ?case by simp
next
  case (2 ok runner mk d reported result p remaining step result' s)
  then have "wd_chunk d \<noteq> 0" "reported < remaining" by simp_all
  from step_advances [OF this] 2 show ?case
    by (simp add: word_less_nat_alt)
qed

declare segments.simps [simp del]

text \<open>How the worker ends: its return value, or the exception that escapes \<open>runWorker\<close>.\<close>

datatype worker_exit = Returns nat | Protocol_error

text \<open>A DISPATCH message: \<open>Inl\<close> an exit of the worker, or \<open>Inr\<close> the peer when it goes on.\<close>

definition on_dispatch ::
  "(nat \<Rightarrow> bool) \<Rightarrow> (u64 \<Rightarrow> u64 \<Rightarrow> u64) \<Rightarrow> WorkerId \<Rightarrow> WorkerBootId \<Rightarrow> Message \<Rightarrow> peer \<Rightarrow>
    worker_exit \<times> peer + peer" where
  "on_dispatch ok runner worker boot m p =
     (let r = parse (new_descriptor (ms_payload m) (ms_extra m));
          d = snd r
      in if \<not> fst r then Inl (Returns 5, p)
         else case segments ok runner (progress_message worker boot m) d 0 0 p of
           (sent, result, p1) \<Rightarrow>
             if \<not> sent then Inl (Returns 6, p1)
             else
               let s = send ok (encodeMessage (complete_message worker boot m result)) p1
               in if \<not> fst s then Inl (Returns 7, snd s) else Inr (snd s))"

text \<open>
  The loop over the frames to come. When they are used up the worker waits for the next one:
  \<open>None\<close>.
\<close>

fun worker_loop ::
  "(nat \<Rightarrow> bool) \<Rightarrow> (u64 \<Rightarrow> u64 \<Rightarrow> u64) \<Rightarrow> WorkerId \<Rightarrow> WorkerBootId \<Rightarrow> bytes option list \<Rightarrow> peer \<Rightarrow>
    worker_exit option \<times> peer" where
  "worker_loop ok runner worker boot [] p = (None, p\<lparr>pe_inbox := []\<rparr>)"
| "worker_loop ok runner worker boot (None # fs) p = (Some (Returns 3), p\<lparr>pe_inbox := fs\<rparr>)"
| "worker_loop ok runner worker boot (Some f # fs) p =
     (case decodeMessage f of
        None \<Rightarrow> worker_loop ok runner worker boot fs p
      | Some m \<Rightarrow>
          if ms_type m = MsgType.SHUTDOWN then (Some (Returns 0), p\<lparr>pe_inbox := fs\<rparr>)
          else if ms_type m = MsgType.PING then
            worker_loop ok runner worker boot fs
              (snd (send ok (encodeMessage (default_message\<lparr>ms_type := MsgType.PING\<rparr>)) p))
          else if ms_type m = MsgType.CANCEL then (Some (Returns 4), p\<lparr>pe_inbox := fs\<rparr>)
          else if ms_type m = MsgType.DISPATCH then
            (case on_dispatch ok runner worker boot m p of
               Inl (x, p1) \<Rightarrow> (Some x, p1\<lparr>pe_inbox := fs\<rparr>)
             | Inr p1 \<Rightarrow> worker_loop ok runner worker boot fs p1)
          else worker_loop ok runner worker boot fs p)"

text \<open>
  The decoding of the first frame is outside the \<open>try\<close>: a malformed one ends the worker with an
  exception, a well-formed one of any type is the acknowledgement.
\<close>

definition runWorker ::
  "(nat \<Rightarrow> bool) \<Rightarrow> (u64 \<Rightarrow> u64 \<Rightarrow> u64) \<Rightarrow> WorkerId \<Rightarrow> WorkerBootId \<Rightarrow> peer \<Rightarrow> worker_exit option \<times> peer" where
  "runWorker ok runner worker boot p =
     (let s = send ok (encodeMessage (default_message\<lparr>ms_type := MsgType.HELLO,
                 ms_workerId := toU64 worker, ms_bootId := toU64 boot\<rparr>)) p;
          p1 = snd s
      in if \<not> fst s then (Some (Returns 2), p1)
         else case pe_inbox p1 of
           [] \<Rightarrow> (None, p1)
         | None # fs \<Rightarrow> (Some (Returns 2), p1\<lparr>pe_inbox := fs\<rparr>)
         | Some f # fs \<Rightarrow>
             (case decodeMessage f of
                None \<Rightarrow> (Some Protocol_error, p1\<lparr>pe_inbox := fs\<rparr>)
              | Some ack \<Rightarrow> worker_loop ok runner worker boot fs p1))"

section \<open>Fresh identities\<close>

text \<open>
  A boot identity from the clock, the process id and a counter of the process (each read by the
  code from its environment); the counter is advanced.
\<close>

definition freshBootId :: "u64 \<Rightarrow> u64 \<Rightarrow> u64 \<Rightarrow> WorkerBootId \<times> u64" where
  "freshBootId now pid ctr =
     (let v = (now XOR push_bit 32 pid XOR (ctr * 0x9E3779B97F4A7C15)) AND (NOT 0)
      in (fromU64 (if v = 0 then 1 else v), ctr + 1))"

definition freshWorkerId :: "u64 \<Rightarrow> WorkerId \<times> u64" where
  "freshWorkerId ctr = (fromU64 ctr, ctr + 1)"

lemma freshBootId_valid: "valid (fst (freshBootId now pid ctr))"
  by (simp add: freshBootId_def valid_def fromU64_def Let_def)

text \<open>
  Distinctness is not guaranteed by the construction: two readings of the clock can cancel the
  difference of the counter.
\<close>

lemma freshBootId_may_repeat:
  "fst (freshBootId 0 1 1) = fst (freshBootId (0x9E3779B97F4A7C15 XOR 2 * 0x9E3779B97F4A7C15) 1 2)"
  by code_simp

section \<open>What a dispatch reports\<close>

text \<open>The increments a dispatch is cut into.\<close>

function steps :: "u64 \<Rightarrow> u64 \<Rightarrow> u64 \<Rightarrow> u64 list" where
  "steps chunk remaining reported =
     (if chunk = 0 \<or> \<not> reported < remaining then []
      else let step = min chunk (remaining - reported)
           in step # steps chunk remaining (reported + step))"
  by pat_completeness auto

termination
proof (relation "measure (\<lambda>(chunk, remaining, reported). unat remaining - unat reported)", goal_cases)
  case 1
  show ?case by simp
next
  case (2 chunk remaining reported step)
  then have "chunk \<noteq> 0" "reported < remaining" by simp_all
  from step_advances [OF this] 2 show ?case by simp
qed

declare steps.simps [simp del]

lemma steps_facts:
  assumes "chunk \<noteq> 0" and "reported \<le> remaining"
  shows "sum_list (map unat (steps chunk remaining reported)) = unat remaining - unat reported \<and>
    (\<forall>s\<in>set (steps chunk remaining reported). 0 < s \<and> s \<le> chunk)"
  using assms
proof (induction chunk remaining reported rule: steps.induct)
  case (1 chunk remaining reported)
  show ?case
  proof (cases "reported < remaining")
    case True
    let ?step = "min chunk (remaining - reported)"
    note adv = step_advances [OF \<open>chunk \<noteq> 0\<close> True]
    have "sum_list (map unat (steps chunk remaining (reported + ?step))) = unat remaining - unat (reported + ?step) \<and>
      (\<forall>s\<in>set (steps chunk remaining (reported + ?step)). 0 < s \<and> s \<le> chunk)"
      using True 1(2) adv(4) by (intro 1(1)) simp_all
    moreover have "0 < ?step" using adv(2) by (simp only: word_less_nat_alt unat_0)
    moreover have "unat reported + unat ?step \<le> unat remaining"
      using adv(3) True by (simp add: word_less_nat_alt)
    ultimately show ?thesis
      using True 1(2) adv(1) by (subst (1 2) steps.simps) (auto simp: Let_def)
  next
    case False
    with 1(3) show ?thesis by (subst (1 2) steps.simps) simp
  qed
qed

text \<open>The results of the units from \<open>a\<close> up to \<open>b\<close>, added up.\<close>

definition units_sum :: "(u64 \<Rightarrow> u64 \<Rightarrow> u64) \<Rightarrow> WorkDescriptor \<Rightarrow> nat \<Rightarrow> nat \<Rightarrow> u64 \<Rightarrow> u64" where
  "units_sum runner d a b result =
     foldl (\<lambda>r u. r + runner (wd_resumeFrom d + word_of_nat u) (wd_total d)) result [a..<b]"

lemma run_units_sum:
  "run_units runner (wd_resumeFrom d + reported) step (wd_total d) result =
     units_sum runner d (unat reported) (unat reported + unat step) result"
proof -
  have "[unat reported..<unat reported + unat step] = map (\<lambda>u. u + unat reported) [0..<unat step]"
    by (simp add: map_add_upt add.commute)
  then show ?thesis
    by (simp add: units_sum_def run_units_def foldl_map add.assoc add.commute [of "word_of_nat _" reported])
qed

lemma units_sum_append:
  "a \<le> b \<Longrightarrow> b \<le> c \<Longrightarrow> units_sum runner d b c (units_sum runner d a b result) = units_sum runner d a c result"
proof -
  assume "a \<le> b" "b \<le> c"
  then have "[a..<c] = [a..<b] @ [b..<c]"
    by (metis le_add_diff_inverse upt_add_eq_append)
  then show ?thesis by (simp add: units_sum_def)
qed

lemma segments_all:
  assumes "wd_chunk d \<noteq> 0" and "reported \<le> remaining" and "remaining = wd_total d - wd_resumeFrom d"
  shows "segments (\<lambda>_. True) runner mk d reported result p =
    (True, units_sum runner d (unat reported) (unat remaining) result,
     p\<lparr>pe_attempts := pe_attempts p + length (steps (wd_chunk d) remaining reported),
       pe_sent := pe_sent p @ map (\<lambda>s. encodeMessage (mk s)) (steps (wd_chunk d) remaining reported)\<rparr>)"
  using assms
proof (induction "wd_chunk d" remaining reported arbitrary: result p rule: steps.induct)
  case (1 remaining reported)
  show ?case
  proof (cases "reported < remaining")
    case True
    let ?step = "min (wd_chunk d) (remaining - reported)"
    note adv = step_advances [OF 1(2) True]
    have r: "unat reported + unat ?step \<le> unat remaining"
      using adv(3) True by (simp add: word_less_nat_alt)
    have IH: "segments (\<lambda>_. True) runner mk d (reported + ?step) result' p' =
      (True, units_sum runner d (unat (reported + ?step)) (unat remaining) result',
       p'\<lparr>pe_attempts := pe_attempts p' + length (steps (wd_chunk d) remaining (reported + ?step)),
         pe_sent := pe_sent p' @ map (\<lambda>s. encodeMessage (mk s)) (steps (wd_chunk d) remaining (reported + ?step))\<rparr>)"
      for result' p'
      using True 1(2,4) adv(4) by (intro 1(1)) simp_all
    have "segments (\<lambda>_. True) runner mk d reported result p =
      segments (\<lambda>_. True) runner mk d (reported + ?step)
        (units_sum runner d (unat reported) (unat reported + unat ?step) result)
        (snd (send (\<lambda>_. True) (encodeMessage (mk ?step)) p))"
      using True 1(2,4) by (subst segments.simps) (simp add: Let_def send_def run_units_sum)
    moreover have "steps (wd_chunk d) remaining reported = ?step # steps (wd_chunk d) remaining (reported + ?step)"
      using True 1(2) by (subst steps.simps) (simp add: Let_def)
    ultimately show ?thesis
      using r by (simp add: IH adv(1) units_sum_append send_def)
  next
    case False
    with 1(3) have "reported = remaining" by simp
    with 1(2,4) show ?thesis
      by (subst segments.simps, subst (1 2) steps.simps) (simp add: Let_def units_sum_def)
  qed
qed

lemma dispatch_sends:
  assumes "ms_payload m = descriptor_text tot resumeFrom chunk" and "chunk \<noteq> 0" and "resumeFrom \<le> tot"
  defines "ss \<equiv> steps chunk (tot - resumeFrom) 0"
  shows "on_dispatch (\<lambda>_. True) runner worker boot m p =
      Inr (p\<lparr>pe_attempts := pe_attempts p + length ss + 1,
        pe_sent := pe_sent p @ map (\<lambda>s. encodeMessage (progress_message worker boot m s)) ss @
          [encodeMessage (complete_message worker boot m
            (foldl (\<lambda>r u. r + runner (resumeFrom + word_of_nat u) tot) 0 [0..<unat tot - unat resumeFrom]))]\<rparr>)"
    and "sum_list (map unat ss) = unat tot - unat resumeFrom" and "\<forall>s\<in>set ss. 0 < s \<and> s \<le> chunk"
proof -
  let ?d = "(new_descriptor (descriptor_text tot resumeFrom chunk) (ms_extra m))
    \<lparr>wd_total := tot, wd_resumeFrom := resumeFrom, wd_chunk := chunk\<rparr>"
  have parsed: "parse (new_descriptor (ms_payload m) (ms_extra m)) = (True, ?d)"
    using assms parse_descriptor [of tot resumeFrom chunk "ms_extra m"] by simp
  have left: "unat (tot - resumeFrom) = unat tot - unat resumeFrom"
    using assms(3) by (simp add: unat_sub word_le_nat_alt)
  have fields: "wd_total ?d = tot" "wd_resumeFrom ?d = resumeFrom" "wd_chunk ?d = chunk" by simp_all
  have "wd_chunk ?d \<noteq> 0" using assms(2) fields(3) by metis
  moreover have "tot - resumeFrom = wd_total ?d - wd_resumeFrom ?d" by (simp only: fields)
  ultimately have "segments (\<lambda>_. True) runner (progress_message worker boot m) ?d 0 0 p =
    (True, units_sum runner ?d (unat (0 :: u64)) (unat (tot - resumeFrom)) 0,
     p\<lparr>pe_attempts := pe_attempts p + length (steps (wd_chunk ?d) (tot - resumeFrom) 0),
       pe_sent := pe_sent p @ map (\<lambda>s. encodeMessage (progress_message worker boot m s))
         (steps (wd_chunk ?d) (tot - resumeFrom) 0)\<rparr>)"
    by (intro segments_all) simp_all
  then have run: "segments (\<lambda>_. True) runner (progress_message worker boot m) ?d 0 0 p =
    (True, units_sum runner ?d 0 (unat tot - unat resumeFrom) 0,
     p\<lparr>pe_attempts := pe_attempts p + length ss,
       pe_sent := pe_sent p @ map (\<lambda>s. encodeMessage (progress_message worker boot m s)) ss\<rparr>)"
    by (simp only: ss_def fields left unat_0)
  have "on_dispatch (\<lambda>_. True) runner worker boot m p = Inr (p\<lparr>pe_attempts := pe_attempts p + length ss + 1,
     pe_sent := pe_sent p @ map (\<lambda>s. encodeMessage (progress_message worker boot m s)) ss @
       [encodeMessage (complete_message worker boot m (units_sum runner ?d 0 (unat tot - unat resumeFrom) 0))]\<rparr>)"
    by (simp add: on_dispatch_def parsed run send_def Let_def)
  then show "on_dispatch (\<lambda>_. True) runner worker boot m p =
      Inr (p\<lparr>pe_attempts := pe_attempts p + length ss + 1,
        pe_sent := pe_sent p @ map (\<lambda>s. encodeMessage (progress_message worker boot m s)) ss @
          [encodeMessage (complete_message worker boot m
            (foldl (\<lambda>r u. r + runner (resumeFrom + word_of_nat u) tot) 0 [0..<unat tot - unat resumeFrom]))]\<rparr>)"
    by (simp only: units_sum_def fields)
  show "sum_list (map unat ss) = unat tot - unat resumeFrom" and "\<forall>s\<in>set ss. 0 < s \<and> s \<le> chunk"
    using steps_facts [of chunk 0 "tot - resumeFrom"] assms(2) by (simp_all add: ss_def left)
qed

text \<open>
  When every send succeeds, a dispatched descriptor with a non-zero
  chunk and a resume point within the total makes the worker send progress increments, each
  positive, durable and at most one chunk, whose units add up to exactly the work that was left,
  and then one completion with the sum of the runner's results over exactly the remaining units.
  The loop ends for every such descriptor.
\<close>

theorem dispatch_reports_exactly:
  assumes "ms_payload m = descriptor_text tot resumeFrom chunk" and "chunk \<noteq> 0" and "resumeFrom \<le> tot"
  shows "\<exists>ss p'. on_dispatch (\<lambda>_. True) runner worker boot m p = Inr p' \<and>
    pe_sent p' = pe_sent p @ map (\<lambda>s. encodeMessage (progress_message worker boot m s)) ss @
      [encodeMessage (complete_message worker boot m
         (foldl (\<lambda>r u. r + runner (resumeFrom + word_of_nat u) tot) 0 [0..<unat tot - unat resumeFrom]))] \<and>
    sum_list (map unat ss) = unat tot - unat resumeFrom \<and> (\<forall>s\<in>set ss. 0 < s \<and> s \<le> chunk)"
  using dispatch_sends(1) [OF assms, where runner = runner and worker = worker and boot = boot and p = p]
    dispatch_sends(2,3) [OF assms]
  by (intro exI [of _ "steps chunk (tot - resumeFrom) 0"] exI conjI) (assumption | simp (no_asm))+

definition sample_message :: Message where
  "sample_message = default_message\<lparr>ms_type := MsgType.DISPATCH, ms_payload := ''10:3:4''\<rparr>"

definition idle_peer :: peer where
  "idle_peer = \<lparr>pe_inbox = [], pe_sent = [], pe_attempts = 0\<rparr>"

theorem dispatch_reports_exactly_witness:
  "\<exists>ss p'. on_dispatch (\<lambda>_. True) cpuReferenceSegment (UniqueValue 5) (UniqueValue 50) sample_message idle_peer = Inr p' \<and>
    pe_sent p' = pe_sent idle_peer @ map (\<lambda>s. encodeMessage (progress_message (UniqueValue 5) (UniqueValue 50) sample_message s)) ss @
      [encodeMessage (complete_message (UniqueValue 5) (UniqueValue 50) sample_message
         (foldl (\<lambda>r u. r + cpuReferenceSegment (3 + word_of_nat u) 10) 0 [0..<unat (10 :: u64) - unat (3 :: u64)]))] \<and>
    sum_list (map unat ss) = unat (10 :: u64) - unat (3 :: u64) \<and> (\<forall>s\<in>set ss. 0 < s \<and> s \<le> (4 :: u64))"
proof (rule dispatch_reports_exactly)
  show "ms_payload sample_message = descriptor_text 10 3 4" by code_simp
qed simp_all

text \<open>
  After its registration the worker skips every malformed frame as
  if it had not been sent. The first frame is different: it is decoded outside the exception
  handler, and a malformed one ends the worker with an uncaught exception.
\<close>

theorem worker_survives_malformed_frames:
  assumes "decodeMessage bad = None"
  shows "fst (worker_loop ok runner worker boot (fs @ Some bad # gs) p) =
      fst (worker_loop ok runner worker boot (fs @ gs) p) \<and>
    pe_sent (snd (worker_loop ok runner worker boot (fs @ Some bad # gs) p)) =
      pe_sent (snd (worker_loop ok runner worker boot (fs @ gs) p)) \<and>
    (ok (pe_attempts q) \<and> pe_inbox q = Some bad # gs \<longrightarrow>
      fst (runWorker ok runner worker boot q) = Some Protocol_error)"
proof -
  have "fst (worker_loop ok runner worker boot (fs @ Some bad # gs) p) =
      fst (worker_loop ok runner worker boot (fs @ gs) p) \<and>
    pe_sent (snd (worker_loop ok runner worker boot (fs @ Some bad # gs) p)) =
      pe_sent (snd (worker_loop ok runner worker boot (fs @ gs) p))"
  proof (induction fs arbitrary: p)
    case Nil
    show ?case by (simp add: assms)
  next
    case (Cons f fs)
    then show ?case by (cases f) (auto split: option.split sum.split)
  qed
  moreover have "fst (runWorker ok runner worker boot q) = Some Protocol_error"
    if "ok (pe_attempts q)" and "pe_inbox q = Some bad # gs"
    using that assms by (simp add: runWorker_def send_def Let_def)
  ultimately show ?thesis by blast
qed

theorem worker_survives_malformed_frames_witness:
  "fst (runWorker (\<lambda>_. True) cpuReferenceSegment (UniqueValue 5) (UniqueValue 50)
     \<lparr>pe_inbox = [Some [1, 2, 3]], pe_sent = [], pe_attempts = 0\<rparr>) = Some Protocol_error"
proof -
  have "decodeMessage [1, 2, 3] = None" by code_simp
  from worker_survives_malformed_frames [OF this, where ok = "\<lambda>_. True" and runner = cpuReferenceSegment
      and worker = "UniqueValue 5" and boot = "UniqueValue 50" and gs = "[]"
      and q = "\<lparr>pe_inbox = [Some [1, 2, 3]], pe_sent = [], pe_attempts = 0\<rparr>"]
  show ?thesis by simp
qed

end
