(* ===== verification/Adapters.thy ===== *)
theory Adapters
  imports Execution Resources
begin

text \<open>
  The reference adapters (\<open>reference.hpp\<close>, \<open>execution/reference.cpp\<close>) behind the three
  narrow interfaces of the system: \<open>ExecutionFabric\<close>, \<open>ResourceBroker\<close> and
  \<open>CheckpointProvider\<close>. Each interface is a locale with the laws a client relies on, and each
  adapter is an interpretation. The lock that guards every call of an adapter makes a call one
  step, so a sequence of calls is a list.
\<close>

section \<open>Checkpoint providers\<close>

locale checkpoint_provider =
  fixes write_cp :: "ExecutionEpisodeId \<Rightarrow> string \<Rightarrow> 's \<Rightarrow> CheckpointRef option \<times> 's"
    and restore_cp :: "ExecutionEpisodeId \<Rightarrow> CheckpointRef \<Rightarrow> 's \<Rightarrow> string option"
    and valid_cp :: "CheckpointRef \<Rightarrow> CheckpointGeneration \<Rightarrow> 's \<Rightarrow> bool"
    and room :: "'s \<Rightarrow> nat" \<comment> \<open>how many more checkpoints fit\<close>
    and inv :: "'s \<Rightarrow> bool"
  assumes write_inv: "inv s \<Longrightarrow> 0 < room s \<Longrightarrow> inv (snd (write_cp e t s))"
    and write_room: "0 < room s \<Longrightarrow> room s \<le> Suc (room (snd (write_cp e t s)))"
    and write_fresh: "inv s \<Longrightarrow> 0 < room s \<Longrightarrow>
      \<exists>r. fst (write_cp e t s) = Some r \<and> \<not> valid_cp r g s \<and> restore_cp e' r (snd (write_cp e t s)) = Some t"
    and write_keeps: "inv s \<Longrightarrow> 0 < room s \<Longrightarrow> valid_cp r g s \<Longrightarrow>
      restore_cp e' r (snd (write_cp e t s)) = restore_cp e' r s"
    and valid_restores: "valid_cp r g s \<longleftrightarrow> restore_cp e r s \<noteq> None"
begin

text \<open>A checkpoint survives every later write, as long as there is room.\<close>

lemma survives:
  assumes "inv s" and "restore_cp e r s = Some t" and "length later \<le> room s"
  shows "restore_cp e r (fold (\<lambda>(e, t) s. snd (write_cp e t s)) later s) = Some t"
  using assms
proof (induction later arbitrary: s)
  case (Cons w later)
  obtain e' t' where w: "w = (e', t')" by (cases w)
  have pos: "0 < room s" using Cons.prems(3) by simp
  have "valid_cp r g s" for g using Cons.prems(2) valid_restores [of r g s e] by simp
  then have "restore_cp e r (snd (write_cp e' t' s)) = Some t"
    using write_keeps [OF Cons.prems(1) pos] Cons.prems(2) by metis
  moreover have "length later \<le> room (snd (write_cp e' t' s))"
    using write_room [OF pos, of e' t'] Cons.prems(3) by simp
  ultimately show ?case
    using Cons.IH [OF write_inv [OF Cons.prems(1) pos]] by (simp add: w)
qed simp

lemma written_survives:
  assumes "inv s" and "Suc (length later) \<le> room s"
  shows "\<exists>r. fst (write_cp e t s) = Some r \<and> (\<forall>g. \<not> valid_cp r g s) \<and>
    restore_cp e' r (fold (\<lambda>(e, t) s. snd (write_cp e t s)) later (snd (write_cp e t s))) = Some t"
proof -
  have pos: "0 < room s" using assms(2) by simp
  obtain r where r: "fst (write_cp e t s) = Some r" "\<not> valid_cp r undefined s"
    "restore_cp e' r (snd (write_cp e t s)) = Some t"
    using write_fresh [OF assms(1) pos] by blast
  have "length later \<le> room (snd (write_cp e t s))"
    using write_room [OF pos, of e t] assms(2) by simp
  with r survives [OF write_inv [OF assms(1) pos] r(3)] show ?thesis
    using valid_restores by blast
qed

end

section \<open>The reference checkpoint provider\<close>

record checkpoints =
  cp_store :: "CheckpointRef \<rightharpoonup> string"
  cp_next :: CheckpointRef

definition new_checkpoints :: checkpoints where
  "new_checkpoints = \<lparr>cp_store = Map.empty, cp_next = fromU64 1\<rparr>"

definition writeCheckpoint :: "ExecutionEpisodeId \<Rightarrow> string \<Rightarrow> checkpoints \<Rightarrow> CheckpointRef option \<times> checkpoints" where
  "writeCheckpoint episode token s =
     (let ref = fromU64 (toU64 (cp_next s) + 1)
      in (Some ref, s\<lparr>cp_next := ref, cp_store := (cp_store s)(ref \<mapsto> token)\<rparr>))"

definition restoreCheckpoint :: "ExecutionEpisodeId \<Rightarrow> CheckpointRef \<Rightarrow> checkpoints \<Rightarrow> string option" where
  "restoreCheckpoint target ref s = cp_store s ref"

definition valid_checkpoint :: "CheckpointRef \<Rightarrow> CheckpointGeneration \<Rightarrow> checkpoints \<Rightarrow> bool" where
  "valid_checkpoint ref gen s \<longleftrightarrow> cp_store s ref \<noteq> None"

definition checkpoints_wf :: "checkpoints \<Rightarrow> bool" where
  "checkpoints_wf s \<longleftrightarrow> (\<forall>r. cp_store s r \<noteq> None \<longrightarrow> r \<le> cp_next s)"

definition checkpoints_room :: "checkpoints \<Rightarrow> nat" where
  "checkpoints_room s = 2 ^ 64 - 1 - unat (toU64 (cp_next s))"

lemma checkpoints_room_pos: "0 < checkpoints_room s \<Longrightarrow> toU64 (cp_next s) \<noteq> - 1"
  by (auto simp: checkpoints_room_def unsigned_minus_1_eq_mask mask_eq_exp_minus_1)

lemma next_checkpoint:
  assumes "0 < checkpoints_room s"
  shows "unat (toU64 (cp_next s) + 1) = Suc (unat (toU64 (cp_next s)))"
  using checkpoints_room_pos [OF assms] by (rule unat_succ_u64)

interpretation ref_checkpoint: checkpoint_provider writeCheckpoint restoreCheckpoint valid_checkpoint
  checkpoints_room checkpoints_wf
proof
  fix s :: checkpoints and e e' :: ExecutionEpisodeId and t :: string and r :: CheckpointRef
    and g :: CheckpointGeneration
  have fresh: "cp_store s (fromU64 (toU64 (cp_next s) + 1)) = None"
    if "checkpoints_wf s" "0 < checkpoints_room s"
  proof (rule ccontr)
    assume "cp_store s (fromU64 (toU64 (cp_next s) + 1)) \<noteq> None"
    then have "fromU64 (toU64 (cp_next s) + 1) \<le> cp_next s"
      using that(1) by (auto simp: checkpoints_wf_def)
    then show False
      using next_checkpoint [OF that(2)] by (simp add: less_eq_unique_value_def word_le_nat_alt)
  qed
  show "checkpoints_wf (snd (writeCheckpoint e t s))" if wf: "checkpoints_wf s" "0 < checkpoints_room s"
  proof -
    have "cp_next s \<le> fromU64 (toU64 (cp_next s) + 1)"
      using next_checkpoint [OF wf(2)] by (simp add: less_eq_unique_value_def word_le_nat_alt)
    with wf(1) show ?thesis
      by (auto simp: checkpoints_wf_def writeCheckpoint_def Let_def intro: order_trans)
  qed
  show "checkpoints_room s \<le> Suc (checkpoints_room (snd (writeCheckpoint e t s)))" if "0 < checkpoints_room s"
    using next_checkpoint [OF that] by (simp add: checkpoints_room_def writeCheckpoint_def Let_def)
  show "\<exists>r. fst (writeCheckpoint e t s) = Some r \<and> \<not> valid_checkpoint r g s \<and>
      restoreCheckpoint e' r (snd (writeCheckpoint e t s)) = Some t"
    if "checkpoints_wf s" "0 < checkpoints_room s"
    using fresh [OF that] by (simp add: writeCheckpoint_def valid_checkpoint_def restoreCheckpoint_def Let_def)
  show "restoreCheckpoint e' r (snd (writeCheckpoint e t s)) = restoreCheckpoint e' r s"
    if "checkpoints_wf s" "0 < checkpoints_room s" "valid_checkpoint r g s"
    using fresh [OF that(1,2)] that(3)
    by (auto simp: writeCheckpoint_def valid_checkpoint_def restoreCheckpoint_def Let_def)
  show "valid_checkpoint r g s \<longleftrightarrow> restoreCheckpoint e r s \<noteq> None"
    by (simp add: valid_checkpoint_def restoreCheckpoint_def)
qed

lemma new_checkpoints_wf: "checkpoints_wf new_checkpoints"
  by (simp add: checkpoints_wf_def new_checkpoints_def)

text \<open>
  C39. A checkpoint written after any number of earlier ones gets a reference no earlier
  checkpoint has, and after any number of later writes it still restores, for whatever target
  episode, to the token it was written with, as long as the 64-bit reference counter does not wrap.
\<close>

theorem checkpoint_survives:
  assumes "length earlier + length later + 3 < 2 ^ 64"
  defines "write \<equiv> fold (\<lambda>(e, t) s. snd (writeCheckpoint e t s))"
  shows "\<exists>r. fst (writeCheckpoint episode token (write earlier new_checkpoints)) = Some r \<and>
    \<not> valid_checkpoint r gen (write earlier new_checkpoints) \<and>
    restoreCheckpoint target r
      (write later (snd (writeCheckpoint episode token (write earlier new_checkpoints)))) = Some token"
proof -
  have state: "checkpoints_wf (write earlier s) \<and> checkpoints_room s \<le> checkpoints_room (write earlier s) + length earlier"
    if "checkpoints_wf s" "length earlier \<le> checkpoints_room s" for s
    using that
  proof (induction earlier arbitrary: s)
    case (Cons w ws)
    obtain e t where w: "w = (e, t)" by (cases w)
    have pos: "0 < checkpoints_room s" using Cons.prems(2) by simp
    have room: "checkpoints_room s \<le> Suc (checkpoints_room (snd (writeCheckpoint e t s)))"
      using ref_checkpoint.write_room [OF pos] .
    show ?case
      using Cons.IH [OF ref_checkpoint.write_inv [OF Cons.prems(1) pos, of e t]] room Cons.prems(2)
      by (simp add: w write_def)
  qed (simp add: write_def)
  have room: "checkpoints_room new_checkpoints = 2 ^ 64 - 2"
    by (simp add: checkpoints_room_def new_checkpoints_def)
  have reached: "checkpoints_wf (write earlier new_checkpoints)"
    "Suc (length later) \<le> checkpoints_room (write earlier new_checkpoints)"
    using state [OF new_checkpoints_wf] assms(1) unfolding room by auto
  show ?thesis
    using ref_checkpoint.written_survives [OF reached, of episode token target] unfolding write_def by blast
qed

theorem checkpoint_survives_witness:
  "\<exists>r. fst (writeCheckpoint (UniqueValue 1) ''b'' (snd (writeCheckpoint (UniqueValue 1) ''a'' new_checkpoints))) = Some r \<and>
    \<not> valid_checkpoint r (UniqueValue 1) (snd (writeCheckpoint (UniqueValue 1) ''a'' new_checkpoints)) \<and>
    restoreCheckpoint (UniqueValue 2) r
      (snd (writeCheckpoint (UniqueValue 3) ''c''
        (snd (writeCheckpoint (UniqueValue 1) ''b'' (snd (writeCheckpoint (UniqueValue 1) ''a'' new_checkpoints)))))) =
      Some ''b''"
  using checkpoint_survives [of "[(UniqueValue 1, ''a'')]" "[(UniqueValue 3, ''c'')]" "UniqueValue 1" "''b''"
      "UniqueValue 1" "UniqueValue 2"]
  by simp

section \<open>Resource brokers\<close>

datatype broker_op =
    Bind WorkloadId ResourceGrant
  | Release WorkloadId ResourceGrant

primrec broker_step ::
  "(WorkloadId \<Rightarrow> ResourceGrant \<Rightarrow> 's \<Rightarrow> Outcome \<times> 's) \<Rightarrow> (WorkloadId \<Rightarrow> ResourceGrant \<Rightarrow> 's \<Rightarrow> Outcome \<times> 's) \<Rightarrow>
    broker_op \<Rightarrow> 's \<Rightarrow> Outcome \<times> 's" where
  "broker_step bind release (Bind w g) s = bind w g s"
| "broker_step bind release (Release w g) s = release w g s"

text \<open>The outcomes of the releases of a workload, and the number of its binds, in a run.\<close>

fun releases_accepted ::
  "(broker_op \<Rightarrow> 's \<Rightarrow> Outcome \<times> 's) \<Rightarrow> WorkloadId \<Rightarrow> broker_op list \<Rightarrow> 's \<Rightarrow> nat" where
  "releases_accepted step w [] s = 0"
| "releases_accepted step w (x # xs) s =
     (case x of
        Release v g \<Rightarrow> if v = w \<and> isAllow (fst (step x s)) then 1 else 0
      | _ \<Rightarrow> 0) + releases_accepted step w xs (snd (step x s))"

definition binds_of :: "WorkloadId \<Rightarrow> broker_op list \<Rightarrow> nat" where
  "binds_of w xs = length (filter (\<lambda>x. case x of Bind v g \<Rightarrow> v = w | _ \<Rightarrow> False) xs)"

locale resource_broker =
  fixes bind :: "WorkloadId \<Rightarrow> ResourceGrant \<Rightarrow> 's \<Rightarrow> Outcome \<times> 's"
    and release :: "WorkloadId \<Rightarrow> ResourceGrant \<Rightarrow> 's \<Rightarrow> Outcome \<times> 's"
    and held :: "WorkloadId \<Rightarrow> 's \<Rightarrow> bool"
  assumes bind_ok: "fst (bind w g s) = Outcome.ALLOW"
    and bind_other: "v \<noteq> w \<Longrightarrow> held v (snd (bind w g s)) \<longleftrightarrow> held v s"
    and release_held: "held w s \<Longrightarrow> fst (release w g s) = Outcome.ALLOW"
    and release_free: "\<not> held w s \<Longrightarrow> release w g s = (Outcome.REJECT_RESOURCE_DOUBLE_RELEASE, s)"
    and released: "\<not> held w (snd (release w g s))"
    and release_other: "v \<noteq> w \<Longrightarrow> held v (snd (release w g s)) \<longleftrightarrow> held v s"
begin

lemma release_twice:
  "fst (release w g' (snd (release w g s))) = Outcome.REJECT_RESOURCE_DOUBLE_RELEASE"
  by (simp add: release_free released)

lemma releases_bounded:
  "releases_accepted (broker_step bind release) w xs s \<le> binds_of w xs + (if held w s then 1 else 0)"
proof (induction xs arbitrary: s)
  case (Cons x xs)
  show ?case
  proof (cases x)
    case (Bind v g)
    with Cons [of "snd (bind v g s)"] show ?thesis
      by (cases "v = w") (auto simp: binds_of_def bind_other split: if_splits)
  next
    case (Release v g)
    show ?thesis
    proof (cases "v = w")
      case True
      with Release Cons [of "snd (release w g s)"] show ?thesis
        by (cases "held w s") (simp_all add: binds_of_def released release_held release_free isAllow_def)
    next
      case False
      with Release Cons [of "snd (release v g s)"] show ?thesis
        by (simp add: binds_of_def release_other)
    qed
  qed
qed simp

end

section \<open>The reference broker\<close>

type_synonym broker = "WorkloadId \<rightharpoonup> ResourceGrant"

text \<open>The loop that mirrors the required numeric dimensions as bindings.\<close>

fun mirror_required :: "ResourceRequirement list \<Rightarrow> ResourceBinding list" where
  "mirror_required [] = []"
| "mirror_required (r # rs) =
     (if rr_level r = NeedLevel.REQUIRED \<and> f64_less f64_zero (rr_minValue r)
      then \<lparr>rb_kind = rr_kind r, rb_amount = rr_minValue r, rb_qualifier = ''ref''\<rparr> # mirror_required rs
      else mirror_required rs)"

definition broker_requestGrant :: "ResourceContract \<Rightarrow> ResourceGrant option" where
  "broker_requestGrant c = Some (default_grant\<lparr>
     rg_contractId := rc_id c, rg_contractGeneration := rc_generation c,
     rg_status := GrantStatus.GRANTED, rg_released := False,
     rg_bindings := mirror_required (rc_reqs c)\<rparr>)"

definition broker_bindGrant :: "WorkloadId \<Rightarrow> ResourceGrant \<Rightarrow> broker \<Rightarrow> Outcome \<times> broker" where
  "broker_bindGrant w g s = (Outcome.ALLOW, s(w \<mapsto> g))"

definition broker_releaseGrant :: "WorkloadId \<Rightarrow> ResourceGrant \<Rightarrow> broker \<Rightarrow> Outcome \<times> broker" where
  "broker_releaseGrant w g s =
     (case s w of
        None \<Rightarrow> (Outcome.REJECT_RESOURCE_DOUBLE_RELEASE, s)
      | Some b \<Rightarrow>
          if rg_released b then (Outcome.REJECT_RESOURCE_DOUBLE_RELEASE, s)
          else (Outcome.ALLOW, s(w \<mapsto> b\<lparr>rg_released := True\<rparr>)))"

definition broker_held :: "WorkloadId \<Rightarrow> broker \<Rightarrow> bool" where
  "broker_held w s \<longleftrightarrow> (case s w of None \<Rightarrow> False | Some b \<Rightarrow> \<not> rg_released b)"

interpretation ref_broker: resource_broker broker_bindGrant broker_releaseGrant broker_held
  by unfold_locales
    (auto simp: broker_bindGrant_def broker_releaseGrant_def broker_held_def split: option.splits if_splits)

text \<open>
  In any sequence of binds and releases on a new reference broker, the releases
  of a workload that are accepted are at most as many as its binds, whatever happens to the other
  workloads in between; and right after any release of a workload another one is rejected as a
  double release.
\<close>

theorem broker_releases_once:
  "releases_accepted (broker_step broker_bindGrant broker_releaseGrant) w xs Map.empty \<le> binds_of w xs \<and>
   broker_releaseGrant w g' (snd (broker_releaseGrant w g s)) =
     (Outcome.REJECT_RESOURCE_DOUBLE_RELEASE, snd (broker_releaseGrant w g s))"
  using ref_broker.releases_bounded [of w xs Map.empty] ref_broker.release_free [OF ref_broker.released]
  by (simp add: broker_held_def)

lemma mirror_binding_found:
  "binding_found r (mirror_required rs) \<longleftrightarrow>
     (\<exists>q\<in>set rs. rr_level q = NeedLevel.REQUIRED \<and> rr_kind q = rr_kind r \<and>
        f64_less f64_zero (rr_minValue q) \<and> satisfies r (rr_minValue q))"
  by (induction rs) auto

lemma mirror_positive_binding:
  "positive_binding r (mirror_required rs) \<longleftrightarrow>
     (\<exists>q\<in>set rs. rr_level q = NeedLevel.REQUIRED \<and> rr_kind q = rr_kind r \<and>
        f64_less f64_zero (rr_minValue q))"
  by (induction rs) auto

text \<open>
  Applying the grant the reference broker gives for a contract satisfies the
  contract exactly when every required dimension is met by the minimum of a required dimension of
  its kind that has a positive minimum, and no prohibited dimension has the kind of such a one. In
  particular a required dimension that is only qualitative (its minimum is zero and no other
  required dimension of its kind has one) is never met by the reference broker.
\<close>

theorem reference_grant_satisfies:
  "satisfied (snd (applyGrant (the (broker_requestGrant c)) c)) \<longleftrightarrow>
     (\<forall>r\<in>set (rc_reqs c). rr_level r = NeedLevel.REQUIRED \<longrightarrow>
        (\<exists>q\<in>set (rc_reqs c). rr_level q = NeedLevel.REQUIRED \<and> rr_kind q = rr_kind r \<and>
           f64_less f64_zero (rr_minValue q) \<and> satisfies r (rr_minValue q))) \<and>
     (\<forall>p\<in>set (rc_reqs c). rr_level p = NeedLevel.PROHIBITED \<longrightarrow>
        \<not> (\<exists>q\<in>set (rc_reqs c). rr_level q = NeedLevel.REQUIRED \<and> rr_kind q = rr_kind p \<and>
             f64_less f64_zero (rr_minValue q)))"
proof -
  have "satisfied (snd (applyGrant (the (broker_requestGrant c)) c)) \<longleftrightarrow>
      required_met (rc_reqs c) (mirror_required (rc_reqs c)) \<and>
      prohibited_absent (rc_reqs c) (mirror_required (rc_reqs c))"
    by (simp add: satisfied_def applyGrant_def broker_requestGrant_def Let_def)
  then show ?thesis
    by (simp add: required_met_iff prohibited_absent_iff mirror_binding_found mirror_positive_binding)
qed

section \<open>Execution fabrics\<close>

datatype fabric_op =
    Request ExecutionEpisodeId string
  | Cancel ExecutionHandle
  | Preempt ExecutionHandle
  | Resume ExecutionHandle
  | Report ExecutionEpisodeId u64

locale execution_fabric =
  fixes step :: "fabric_op \<Rightarrow> 's \<Rightarrow> 's"
    and current :: "ExecutionEpisodeId \<Rightarrow> 's \<Rightarrow> ExecutionHandle option"
  assumes requested: "\<exists>h. current e (step (Request e i) s) = Some h \<and> eh_intent h = i"
    and request_other: "d \<noteq> e \<Longrightarrow> current d (step (Request e i) s) = current d s"
    and report_other: "d \<noteq> e \<Longrightarrow> current d (step (Report e g) s) = current d s"
    and cancel_keeps: "current d (step (Cancel h) s) = current d s"
    and preempt_keeps: "current d (step (Preempt h) s) = current d s"
    and resume_keeps: "current d (step (Resume h) s) = current d s"
begin

text \<open>Operations that are not addressed to an episode leave its handle alone.\<close>

lemma handle_stable:
  "\<forall>x\<in>set xs. (\<forall>i. x \<noteq> Request e i) \<and> (\<forall>g. x \<noteq> Report e g) \<Longrightarrow> current e (fold step xs s) = current e s"
proof (induction xs arbitrary: s)
  case (Cons x xs)
  then have "current e (fold step xs (step x s)) = current e (step x s)" by simp
  moreover have "current e (step x s) = current e s"
    using Cons.prems
    by (cases x) (auto simp: request_other report_other cancel_keeps preempt_keeps resume_keeps)
  ultimately show ?case by simp
qed simp

end

section \<open>The reference fabric\<close>

record Entry =
  en_handle :: ExecutionHandle
  en_state :: ExecutionState
  en_completed :: bool

definition default_entry :: Entry where
  "default_entry = \<lparr>en_handle = default_handle, en_state = ExecutionState.DISPATCHED, en_completed = False\<rparr>"

text \<open>The ordered map from episodes to entries, as the list the loops of the code walk.\<close>

type_synonym fabric = "(ExecutionEpisodeId \<times> Entry) list"

fun entry_put :: "ExecutionEpisodeId \<Rightarrow> Entry \<Rightarrow> fabric \<Rightarrow> fabric" where
  "entry_put e x [] = [(e, x)]"
| "entry_put e x (p # ps) =
     (if e < fst p then (e, x) # p # ps else if e = fst p then (e, x) # ps else p # entry_put e x ps)"

definition requestExecution :: "ExecutionEpisodeId \<Rightarrow> string \<Rightarrow> fabric \<Rightarrow> Outcome \<times> fabric" where
  "requestExecution episode intent s =
     (let e = default_entry;
          e = e\<lparr>en_handle := (en_handle e)\<lparr>eh_attemptGeneration := 1, eh_intent := intent\<rparr>,
                en_state := ExecutionState.DISPATCHED\<rparr>
      in (Outcome.ALLOW, entry_put episode e s))"

text \<open>The second argument is the variable the state is written to; a rejection leaves it.\<close>

fun observeExecution :: "ExecutionHandle \<Rightarrow> ExecutionState \<Rightarrow> fabric \<Rightarrow> Outcome \<times> ExecutionState" where
  "observeExecution h out [] = (Outcome.REJECT_EPISODE_INELIGIBLE, out)"
| "observeExecution h out (p # ps) =
     (if eh_worker (en_handle (snd p)) = eh_worker h \<and> eh_boot (en_handle (snd p)) = eh_boot h
      then (Outcome.ALLOW, en_state (snd p)) else observeExecution h out ps)"

text \<open>The common loop of cancel, preempt and resume.\<close>

definition mark_boot :: "ExecutionState \<Rightarrow> ExecutionHandle \<Rightarrow> fabric \<Rightarrow> fabric" where
  "mark_boot st h s =
     map (\<lambda>(e, x). (e, if eh_boot (en_handle x) = eh_boot h then x\<lparr>en_state := st\<rparr> else x)) s"

definition cancelExecution :: "ExecutionHandle \<Rightarrow> fabric \<Rightarrow> Outcome \<times> fabric" where
  "cancelExecution h s = (Outcome.ALLOW, mark_boot ExecutionState.CANCELLED h s)"

definition preemptExecution :: "ExecutionHandle \<Rightarrow> fabric \<Rightarrow> Outcome \<times> fabric" where
  "preemptExecution h s = (Outcome.ALLOW, mark_boot ExecutionState.PREEMPTED h s)"

definition resumeExecution :: "ExecutionHandle \<Rightarrow> fabric \<Rightarrow> Outcome \<times> fabric" where
  "resumeExecution h s = (Outcome.ALLOW, mark_boot ExecutionState.RUNNING h s)"

fun observeCompletion :: "ExecutionHandle \<Rightarrow> bool \<Rightarrow> fabric \<Rightarrow> Outcome \<times> bool" where
  "observeCompletion h out [] = (Outcome.REJECT_EPISODE_INELIGIBLE, out)"
| "observeCompletion h out (p # ps) =
     (if eh_boot (en_handle (snd p)) = eh_boot h then (Outcome.ALLOW, en_completed (snd p))
      else observeCompletion h out ps)"

definition currentHandle :: "ExecutionEpisodeId \<Rightarrow> fabric \<Rightarrow> ExecutionHandle option" where
  "currentHandle episode s = map_option en_handle (map_of s episode)"

definition reportCompletionForTest :: "ExecutionEpisodeId \<Rightarrow> u64 \<Rightarrow> fabric \<Rightarrow> fabric" where
  "reportCompletionForTest episode attemptGen s =
     (let e = (case map_of s episode of Some e \<Rightarrow> e | None \<Rightarrow> default_entry)
      in entry_put episode (e\<lparr>en_completed := True, en_state := ExecutionState.COMPLETED,
           en_handle := (en_handle e)\<lparr>eh_attemptGeneration := attemptGen\<rparr>\<rparr>) s)"

primrec fabric_step :: "fabric_op \<Rightarrow> fabric \<Rightarrow> fabric" where
  "fabric_step (Request e i) s = snd (requestExecution e i s)"
| "fabric_step (Cancel h) s = snd (cancelExecution h s)"
| "fabric_step (Preempt h) s = snd (preemptExecution h s)"
| "fabric_step (Resume h) s = snd (resumeExecution h s)"
| "fabric_step (Report e g) s = reportCompletionForTest e g s"

lemmas fabric_defs = requestExecution_def cancelExecution_def preemptExecution_def resumeExecution_def
  reportCompletionForTest_def Let_def

lemma entry_put_first: "d \<noteq> e \<Longrightarrow> map_of (entry_put e x s) d = map_of s d"
  by (induction s) auto

lemma entry_put_own: "map_of (entry_put e x s) e = Some x"
  by (induction s) auto

lemma mark_boot_handles: "map_option en_handle (map_of (mark_boot st h s) d) = map_option en_handle (map_of s d)"
  by (induction s) (auto simp: mark_boot_def)

interpretation ref_fabric: execution_fabric fabric_step currentHandle
  by unfold_locales
    (simp_all add: fabric_defs currentHandle_def entry_put_own entry_put_first mark_boot_handles)

text \<open>No operation ever gives an entry a worker or a boot.\<close>

definition anonymous :: "fabric \<Rightarrow> bool" where
  "anonymous s \<longleftrightarrow> (\<forall>x\<in>snd ` set s. eh_worker (en_handle x) = no_value \<and> eh_boot (en_handle x) = no_value)"

lemma entry_put_set: "set (entry_put e x s) \<subseteq> insert (e, x) (set s)"
  by (induction s) auto

lemma anonymous_put:
  "anonymous s \<Longrightarrow> eh_worker (en_handle x) = no_value \<Longrightarrow> eh_boot (en_handle x) = no_value \<Longrightarrow>
   anonymous (entry_put e x s)"
  using entry_put_set [of e x s] by (fastforce simp: anonymous_def)

lemma anonymous_mark: "anonymous s \<Longrightarrow> anonymous (mark_boot st h s)"
  by (auto simp: anonymous_def mark_boot_def split: if_splits)

lemma anonymous_entry:
  "anonymous s \<Longrightarrow> map_of s e = Some x \<Longrightarrow> eh_worker (en_handle x) = no_value \<and> eh_boot (en_handle x) = no_value"
  by (force simp: anonymous_def dest: map_of_SomeD)

lemma anonymous_step: "anonymous s \<Longrightarrow> anonymous (fabric_step x s)"
  by (cases x)
    (auto simp: fabric_defs default_entry_def default_handle_def anonymous_entry
      intro!: anonymous_put anonymous_mark split: option.split)

lemma anonymous_run: "anonymous s \<Longrightarrow> anonymous (fold fabric_step xs s)"
  by (induction xs arbitrary: s) (simp_all add: anonymous_step)

text \<open>
  After a request the current handle of the episode carries the requested intent
  and keeps it through any operations that are not requests or completion reports of the same
  episode.
\<close>

theorem fabric_handle_stable:
  assumes "\<forall>x\<in>set xs. (\<forall>j. x \<noteq> Request e j) \<and> (\<forall>g. x \<noteq> Report e g)"
  shows "currentHandle e (fold fabric_step xs (snd (requestExecution e i s))) =
    Some \<lparr>eh_worker = no_value, eh_boot = no_value, eh_attemptGeneration = 1, eh_intent = i\<rparr>"
  using ref_fabric.handle_stable [OF assms, of "snd (requestExecution e i s)"]
  by (simp add: currentHandle_def fabric_defs entry_put_own default_entry_def default_handle_def)

theorem fabric_handle_stable_witness:
  "currentHandle (UniqueValue 1)
     (fold fabric_step [Request (UniqueValue 2) ''b'', Cancel default_handle]
       (snd (requestExecution (UniqueValue 1) ''a'' []))) =
    Some \<lparr>eh_worker = no_value, eh_boot = no_value, eh_attemptGeneration = 1, eh_intent = ''a''\<rparr>"
  by (rule fabric_handle_stable) simp

text \<open>
  The reference fabric never gives a handle a worker or a boot and selects the
  entries of an operation by them. In every state it can reach, cancelling the current handle of
  one episode therefore cancels every entry, whichever episode it belongs to.
\<close>

theorem fabric_cancels_every_entry:
  assumes "currentHandle e (fold fabric_step xs []) = Some h"
  shows "\<forall>x\<in>snd ` set (snd (cancelExecution h (fold fabric_step xs []))). en_state x = ExecutionState.CANCELLED"
proof -
  have a: "anonymous (fold fabric_step xs [])" by (rule anonymous_run) (simp add: anonymous_def)
  obtain x where "map_of (fold fabric_step xs []) e = Some x" "h = en_handle x"
    using assms by (auto simp: currentHandle_def)
  with a have "eh_boot h = no_value" by (simp add: anonymous_entry)
  with a show ?thesis by (auto simp: cancelExecution_def mark_boot_def anonymous_def)
qed

theorem fabric_cancels_every_entry_witness:
  "\<forall>x\<in>snd ` set (snd (cancelExecution \<lparr>eh_worker = no_value, eh_boot = no_value, eh_attemptGeneration = 1, eh_intent = ''a''\<rparr>
      (fold fabric_step [Request (UniqueValue 1) ''a'', Request (UniqueValue 2) ''b''] []))).
    en_state x = ExecutionState.CANCELLED"
proof (rule fabric_cancels_every_entry [where e = "UniqueValue 1"])
  show "currentHandle (UniqueValue 1) (fold fabric_step [Request (UniqueValue 1) ''a'', Request (UniqueValue 2) ''b''] []) =
    Some \<lparr>eh_worker = no_value, eh_boot = no_value, eh_attemptGeneration = 1, eh_intent = ''a''\<rparr>"
    by code_simp
qed

end
