(* ===== verification/Decoded.thy ===== *)
theory Decoded
  imports Persistence
begin

text \<open>
  What a decoder guarantees of the value it accepts, for arbitrary input: the postconditions of the
  readers, by a rule per combinator, up to the workload that \<open>decodeWorkload\<close> accepts.
\<close>

section \<open>Postconditions of readers\<close>

definition ensures :: "'a reader \<Rightarrow> ('a \<Rightarrow> bool) \<Rightarrow> bool" where
  "ensures g P \<longleftrightarrow> (\<forall>xs v ys. g xs = Done v ys \<longrightarrow> P v)"

lemma ensuresD: "ensures g P \<Longrightarrow> g xs = Done v ys \<Longrightarrow> P v"
  unfolding ensures_def by blast

lemma ensures_ret: "P x \<Longrightarrow> ensures (ret x) P"
  by (simp add: ensures_def ret_def)

lemma ensures_bind: "ensures g Q \<Longrightarrow> (\<And>x. Q x \<Longrightarrow> ensures (k x) P) \<Longrightarrow> ensures (bind g k) P"
  unfolding ensures_def bind_def by (force split: reading.splits)

lemma ensures_skip: "(\<And>x. ensures (k x) P) \<Longrightarrow> ensures (bind g k) P"
  by (rule ensures_bind [where Q = "\<lambda>_. True"]) (simp_all add: ensures_def)

lemma ensures_weaken: "ensures g Q \<Longrightarrow> (\<And>x. Q x \<Longrightarrow> P x) \<Longrightarrow> ensures g P"
  by (auto simp: ensures_def)

lemma ensures_require: "ensures (require b) (\<lambda>_. b)"
  by (simp add: ensures_def require_def ret_def stop_def)

lemma ensures_str: "ensures get_str size_fits"
proof -
  have "size_fits v" if "get_str xs = Done v ys" for xs v ys
  proof -
    from that obtain n zs where "get_u64 xs = Done n zs" "length v = unat n"
      by (auto simp: get_str_def bind_def get_raw_def need_def ret_def split: reading.splits if_splits)
    then show ?thesis using unsigned_less [of n, where 'a = nat] by (simp add: size_fits_nat)
  qed
  then show ?thesis by (simp add: ensures_def)
qed

lemma ensures_times: "ensures g P \<Longrightarrow> ensures (get_times n g) (\<lambda>xs. length xs = n \<and> list_all P xs)"
  by (induction n) (auto intro!: ensures_ret elim!: ensures_bind)

lemma ensures_vec: "ensures g P \<Longrightarrow> ensures (get_vec g) (vec_fits P)"
proof -
  assume g: "ensures g P"
  have "ensures (get_times (unat n) g) (vec_fits P)" for n :: u32
    using unsigned_less [of n, where 'a = nat]
    by (intro ensures_weaken [OF ensures_times [OF g]]) (simp add: vec_fits_nat)
  then show ?thesis unfolding get_vec_def by (intro ensures_skip)
qed

text \<open>A rejection carries the outcome REJECT_UNKNOWN.\<close>

definition proper :: "'a reader \<Rightarrow> bool" where
  "proper g \<longleftrightarrow> (\<forall>xs out. g xs = Rejected out \<longrightarrow> out = Outcome.REJECT_UNKNOWN)"

lemma proper_basic: "proper (ret x)" "proper (require b)" "proper (\<lambda>_. Terminated)" "proper (\<lambda>_. Codec_error)"
    "proper (\<lambda>xs. Done (f xs) (h xs))" "proper (\<lambda>xs. require (p xs) xs)"
  by (simp_all add: proper_def ret_def require_def stop_def)

lemma proper_bind: "proper g \<Longrightarrow> (\<And>x. proper (k x)) \<Longrightarrow> proper (bind g k)"
  by (auto simp: proper_def bind_def split: reading.splits)

lemma proper_need: "proper g \<Longrightarrow> proper (need n g)"
  by (auto simp: proper_def need_def split: if_splits)

lemma proper_guard: "proper g \<Longrightarrow> proper (\<lambda>xs. if p xs then Codec_error else g xs)"
  by (simp add: proper_def)

lemma proper_loop: "proper (get_loop n r)"
  by (induction n arbitrary: r) (simp_all add: proper_basic proper_bind get_u8_def proper_need)

lemma proper_words: "proper get_u8" "proper get_u32" "proper get_u64"
  unfolding get_u8_def get_u32_def get_u64_def
  by (intro proper_need proper_bind proper_basic proper_loop)+

lemma proper_derived: "proper get_i64" "proper get_f64" "proper get_bool" "proper get_id" "proper (get_raw n)"
  unfolding get_i64_def get_f64_def get_bool_def get_id_def get_raw_def
  by (intro proper_need proper_bind proper_basic proper_words)+

lemma proper_str: "proper get_str"
  unfolding get_str_def by (intro proper_bind proper_words proper_guard proper_derived proper_basic)

lemma proper_enum: "proper (readEnum m vs)"
  unfolding readEnum_def by (intro proper_bind proper_words) (simp add: proper_def ret_def stop_def)

lemma proper_times: "proper g \<Longrightarrow> proper (get_times n g)"
  by (induction n) (simp_all add: proper_basic proper_bind)

lemma proper_vec: "proper g \<Longrightarrow> proper (get_vec g)"
  unfolding get_vec_def by (intro proper_bind proper_words proper_times)

lemma proper_args: "proper g \<Longrightarrow> proper h \<Longrightarrow> proper (get_args ord g h)"
  by (cases ord) (simp_all add: get_args_def proper_bind proper_basic)

lemmas proper_steps = proper_bind proper_words proper_derived proper_str proper_enum proper_vec proper_args
  proper_basic

lemma proper_split: "(\<And>a b. proper (f a b)) \<Longrightarrow> proper (case p of (a, b) \<Rightarrow> f a b)"
  by (cases p) simp

lemma proper_parts: "proper get_policy" "proper (get_contract ord)" "proper get_def" "proper get_state"
    "proper get_priority" "proper get_progress" "proper get_episode" "proper get_record"
  unfolding get_policy_def get_contract_def get_requirement_def get_binding_def get_def_def get_state_def
    get_priority_def get_progress_def get_episode_def get_handle_def get_record_def
  by (intro proper_steps proper_split)+

lemma proper_states: "proper (get_states i n s)"
  by (induction i n s rule: get_states.induct)
    (auto intro!: proper_bind proper_parts proper_basic split: option.split)

lemma proper_deps: "proper (get_deps ord)"
  unfolding get_deps_def by (intro proper_steps proper_parts proper_states proper_split)

lemma proper_decode: "proper (bind read_frame (\<lambda>payload _. decode oc od payload))"
proof -
  have "proper (decode oc od)"
    unfolding decode_def decode_fields_def by (intro proper_steps proper_parts proper_deps)
  then have "proper (\<lambda>_. decode oc od payload)" for payload by (simp add: proper_def)
  moreover have "proper read_frame" unfolding read_frame_def by (intro proper_steps)
  ultimately show ?thesis by (intro proper_bind)
qed

section \<open>Locality\<close>

text \<open>
  A reader that ends with a value looks at the bytes it consumed only: followed by more bytes, it
  ends with the same value and leaves those as well. One that terminates the process does so
  whatever follows. So a proper prefix of a record cannot be accepted as a whole record.
\<close>

definition local_reader :: "'a reader \<Rightarrow> bool" where
  "local_reader g \<longleftrightarrow> (\<forall>xs zs. (\<forall>v ys. g xs = Done v ys \<longrightarrow> g (xs @ zs) = Done v (ys @ zs)) \<and>
     (g xs = Terminated \<longrightarrow> g (xs @ zs) = Terminated))"

lemma local_basic: "local_reader (ret x)" "local_reader (Done x)" "local_reader (require b)"
    "local_reader (\<lambda>_. Terminated)"
  by (simp_all add: local_reader_def ret_def require_def stop_def)

lemma local_bind: "local_reader g \<Longrightarrow> (\<And>x. local_reader (k x)) \<Longrightarrow> local_reader (bind g k)"
  unfolding local_reader_def bind_def by (force split: reading.splits)

lemma local_need:
  "(\<And>xs zs v ys. n \<le> length xs \<Longrightarrow> g xs = Done v ys \<Longrightarrow> g (xs @ zs) = Done v (ys @ zs)) \<Longrightarrow>
   (\<And>xs zs. n \<le> length xs \<Longrightarrow> g xs = Terminated \<Longrightarrow> g (xs @ zs) = Terminated) \<Longrightarrow> local_reader (need n g)"
  by (simp add: local_reader_def need_def not_less)

lemma local_need_local: "local_reader g \<Longrightarrow> local_reader (need n g)"
  by (rule local_need) (simp_all add: local_reader_def)

lemma local_u8: "local_reader get_u8"
  unfolding get_u8_def by (rule local_need) (auto simp: Suc_le_length_iff)

lemma local_raw: "local_reader (get_raw n)"
  unfolding get_raw_def by (rule local_need) auto

lemma local_loop: "local_reader (get_loop n r)"
  by (induction n arbitrary: r) (simp_all add: local_basic local_bind local_u8)

lemma local_words: "local_reader get_u8" "local_reader get_u32" "local_reader get_u64"
  unfolding get_u32_def get_u64_def
  by (intro local_need_local local_bind local_basic local_loop local_u8)+

lemma local_derived: "local_reader get_i64" "local_reader get_f64" "local_reader get_bool" "local_reader get_id"
  unfolding get_i64_def get_f64_def get_bool_def get_id_def
  by (intro local_bind local_basic local_words)+

lemma local_str: "local_reader get_str"
proof -
  have guarded: "local_reader (\<lambda>xs. if unat n > length xs then Codec_error else g xs)"
    if "local_reader g" for n :: u64 and g :: "string reader"
    using that by (auto simp: local_reader_def split: if_splits)
  show ?thesis
    unfolding get_str_def by (intro local_bind local_words guarded local_raw local_basic)
qed

lemma local_enum: "local_reader (readEnum m vs)"
  unfolding readEnum_def by (intro local_bind local_words) (simp add: local_reader_def ret_def stop_def)

lemma local_times: "local_reader g \<Longrightarrow> local_reader (get_times n g)"
  by (induction n) (simp_all add: local_basic local_bind)

lemma local_vec: "local_reader g \<Longrightarrow> local_reader (get_vec g)"
  unfolding get_vec_def by (intro local_bind local_words local_times)

lemma local_args: "local_reader g \<Longrightarrow> local_reader h \<Longrightarrow> local_reader (get_args ord g h)"
  by (cases ord) (simp_all add: get_args_def local_bind local_basic)

lemmas local_steps = local_bind local_words local_derived local_str local_enum local_vec local_args local_basic

lemma local_split: "(\<And>a b. local_reader (f a b)) \<Longrightarrow> local_reader (case p of (a, b) \<Rightarrow> f a b)"
  by (cases p) simp

lemma local_parts: "local_reader get_policy" "local_reader (get_contract ord)" "local_reader get_def"
    "local_reader get_state" "local_reader get_priority" "local_reader get_progress"
    "local_reader get_episode" "local_reader get_record"
  unfolding get_policy_def get_contract_def get_requirement_def get_binding_def get_def_def get_state_def
    get_priority_def get_progress_def get_episode_def get_handle_def get_record_def
  by (intro local_steps local_split)+

lemma local_states: "local_reader (get_states i n s)"
  by (induction i n s rule: get_states.induct)
    (auto intro!: local_bind local_parts local_basic split: option.split)

lemma local_deps: "local_reader (get_deps ord)"
  unfolding get_deps_def by (intro local_steps local_parts local_states local_split)

lemma local_decode_fields: "local_reader (decode_fields oc od)"
  unfolding decode_fields_def by (intro local_steps local_parts local_deps)

lemma local_prefix:
  assumes "local_reader g" and "g xs = Done v []" and "n < length xs"
  shows "(\<exists>out. g (take n xs) = Rejected out) \<or> g (take n xs) = Codec_error"
proof (cases "g (take n xs)")
  case (Done u ys)
  then have "g (take n xs @ drop n xs) = Done u (ys @ drop n xs)"
    using assms(1) unfolding local_reader_def by blast
  with assms(2,3) show ?thesis by simp
next
  case Terminated
  then have "g (take n xs @ drop n xs) = Terminated"
    using assms(1) unfolding local_reader_def by blast
  with assms(2) show ?thesis by simp
qed auto

lemma decode_prefix:
  assumes "workload_fits w" and "dset_wf (wl_deps w)" and "n < length (encode w)"
  shows "(\<exists>out. decode oc od (take n (encode w)) = Rejected out) \<or> decode oc od (take n (encode w)) = Codec_error"
proof -
  have "decode_fields oc od (encode w) = Done (restored oc od w) []"
    using decode_fields_encode [OF assms(1,2), of oc od "[]"] by simp
  from local_prefix [OF local_decode_fields this assms(3)] show ?thesis
    by (auto simp: decode_def bind_def)
qed

text \<open>
  C24. The record of a workload that can be read back is rejected when any single byte of it was
  changed to any other value, in the magic, the version, the length, the payload or the checksum,
  with the default workload in its place. For a length made smaller this does not rest on the
  checksum: the prefix of the payload it selects ends before the decoder has read its fields.
\<close>

theorem corruption_rejected:
  assumes "workload_fits w" and "dset_wf (wl_deps w)"
    and "i < length (encodeWorkload w)" and "b \<noteq> encodeWorkload w ! i"
  shows "decodeWorkload oc od ((encodeWorkload w)[i := b]) = Some (Outcome.REJECT_UNKNOWN, default_workload)"
proof (cases "good_frame ((encodeWorkload w)[i := b])")
  case False
  then show ?thesis by (rule bad_frame_rejected)
next
  case True
  let ?d = "(encodeWorkload w)[i := b]"
  have fits: "size_fits (encode w)" using assms(1) by (simp add: workload_fits_def)
  have "\<not> (i < 8 \<or> 16 \<le> i \<or> encodeWorkload w ! i < b)"
    using corrupt_bad_frame [OF fits assms(3,4)] True by blast
  then have "8 \<le> i" "i < 16" "b < encodeWorkload w ! i" using assms(4) by auto
  from shortened_frame [OF fits this True] obtain n ys
    where n: "n < length (encode w)" and frame: "read_frame ?d = Done (take n (encode w)) ys" by blast
  have "bind read_frame (\<lambda>payload _. decode oc od payload) ?d = decode oc od (take n (encode w))"
    using frame by (rule bind_Done)
  moreover have "out = Outcome.REJECT_UNKNOWN"
    if "bind read_frame (\<lambda>payload _. decode oc od payload) ?d = Rejected out" for out
    using proper_decode that unfolding proper_def by blast
  ultimately show ?thesis
    using decode_prefix [OF assms(1,2) n, of oc od] by (auto simp: decodeWorkload_def)
qed

theorem corruption_rejected_witness:
  "let w = create (UniqueValue 7) [] [] in
   decodeWorkload Left_to_right Left_to_right ((encodeWorkload w)[40 := 26]) =
     Some (Outcome.REJECT_UNKNOWN, default_workload) \<and>
   decodeWorkload Left_to_right Left_to_right ((encodeWorkload w)[15 := 0]) =
     Some (Outcome.REJECT_UNKNOWN, default_workload)"
proof -
  let ?w = "create (UniqueValue 7) [] []"
  have fits: "workload_fits ?w" "dset_wf (wl_deps ?w)" by code_simp+
  have "size_fits (encode ?w)" using fits(1) by (simp add: workload_fits_def)
  note parts = frame_parts [OF this]
  have small: "24 < length (encode ?w)" "encode ?w ! 24 \<noteq> 26"
    "put_u64 (word_of_nat (length (encode ?w))) ! 7 \<noteq> 0" by code_simp+
  have "encodeWorkload ?w ! 40 = take (length (encode ?w)) (drop 16 (encodeWorkload ?w)) ! 24"
    "encodeWorkload ?w ! 15 = take 8 (drop 8 (encodeWorkload ?w)) ! 7"
    using small(1) parts(1) by simp_all
  then have "40 < length (encodeWorkload ?w) \<and> 15 < length (encodeWorkload ?w) \<and>
    26 \<noteq> encodeWorkload ?w ! 40 \<and> 0 \<noteq> encodeWorkload ?w ! 15"
    using small parts(1) unfolding parts(4,5) by simp
  then show ?thesis
    using corruption_rejected [OF fits, of 40 26] corruption_rejected [OF fits, of 15 0]
    unfolding Let_def by blast
qed

section \<open>The parts of the record\<close>

text \<open>
  The readers of the record are chains of \<open>bind\<close>. Each step is taken with the postcondition of
  its reader when it has one, and otherwise with none.
\<close>

lemmas ensures_steps = ensures_bind [OF ensures_str] ensures_bind [OF ensures_require] ensures_ret ensures_skip

lemma ensures_requirement: "ensures get_requirement requirement_fits"
  unfolding get_requirement_def by (rule ensures_steps)+ (simp add: requirement_fits_def)

lemma ensures_binding: "ensures get_binding binding_fits"
  unfolding get_binding_def by (rule ensures_steps)+ (simp add: binding_fits_def)

lemma ensures_contract: "ensures (get_contract ord) contract_fits"
  unfolding get_contract_def
  by (rule ensures_bind [OF ensures_vec [OF ensures_requirement]] ensures_bind [OF ensures_vec [OF ensures_binding]]
      ensures_steps | simp only: split_paired_all prod.case)+
    (simp add: contract_fits_def new_contract_def)

lemma ensures_dependency: "ensures get_def (\<lambda>d. size_fits (dd_artifactKey d))"
  unfolding get_def_def by (rule ensures_steps)+ simp

lemma ensures_state: "ensures get_state (\<lambda>s. size_fits (ds_detail s))"
  unfolding get_state_def by (rule ensures_steps)+ simp

lemma ensures_states:
  "list_all (\<lambda>st. size_fits (ds_detail st)) (dset_states s) \<Longrightarrow>
   ensures (get_states i n s) (\<lambda>v. dset_defs v = dset_defs s \<and> length (dset_states v) = length (dset_states s) \<and>
     list_all (\<lambda>st. size_fits (ds_detail st)) (dset_states v))"
proof (induction i n s rule: get_states.induct)
  case (1 i s)
  then show ?case by (auto simp: ensures_def ret_def)
next
  case (2 i n s)
  show ?case
    unfolding get_states.simps
  proof (rule ensures_bind [OF ensures_state])
    fix st :: DependencyState
    assume st: "size_fits (ds_detail st)"
    show "ensures (case setStateForTest i st s of None \<Rightarrow> (\<lambda>_. Terminated) | Some s' \<Rightarrow> get_states (Suc i) n s')
      (\<lambda>v. dset_defs v = dset_defs s \<and> length (dset_states v) = length (dset_states s) \<and>
         list_all (\<lambda>st. size_fits (ds_detail st)) (dset_states v))"
    proof (cases "i < length (dset_states s)")
      case True
      let ?s = "s\<lparr>dset_states := (dset_states s)[i := st]\<rparr>"
      have "list_all (\<lambda>st. size_fits (ds_detail st)) (dset_states ?s)"
        using 2(2) st by (auto simp: list_all_iff dest: set_update_subset_insert [THEN subsetD])
      from 2(1) [OF _ this] True show ?thesis by (simp add: setStateForTest_def)
    next
      case False
      then show ?thesis by (simp add: setStateForTest_def ensures_def)
    qed
  qed
qed

lemma ensures_deps: "ensures (get_deps ord) (\<lambda>s. deps_fits s \<and> dset_wf s)"
proof -
  have built: "ensures (get_states 0 m (fold addDefForTest defs (new_dependency_set i g))) (\<lambda>s. deps_fits s \<and> dset_wf s)"
    if "vec_fits (\<lambda>d. size_fits (dd_artifactKey d)) defs" for m defs i g
  proof (rule ensures_weaken [OF ensures_states])
    show "list_all (\<lambda>st. size_fits (ds_detail st)) (dset_states (fold addDefForTest defs (new_dependency_set i g)))"
      by (simp add: fold_addDefForTest new_dependency_set_def default_dependency_state_def size_fits_def list_all_iff)
  next
    fix s :: DependencySet
    assume "dset_defs s = dset_defs (fold addDefForTest defs (new_dependency_set i g)) \<and>
      length (dset_states s) = length (dset_states (fold addDefForTest defs (new_dependency_set i g))) \<and>
      list_all (\<lambda>st. size_fits (ds_detail st)) (dset_states s)"
    then show "deps_fits s \<and> dset_wf s"
      using that by (simp add: deps_fits_def dset_wf_def vec_fits_def fold_addDefForTest new_dependency_set_def)
  qed
  show ?thesis
    unfolding get_deps_def
    by (rule ensures_bind [OF ensures_vec [OF ensures_dependency]] ensures_steps | rule built | simp only: split_paired_all prod.case)+
qed

lemma ensures_handle: "ensures get_handle (\<lambda>h. size_fits (eh_intent h))"
  unfolding get_handle_def by (rule ensures_steps)+ simp

lemma ensures_episode: "ensures get_episode episode_fits"
  unfolding get_episode_def
  by (rule ensures_bind [OF ensures_handle] ensures_steps)+ (simp add: episode_fits_def)

lemma ensures_record: "ensures get_record (\<lambda>h. size_fits (tr_reason h))"
  unfolding get_record_def by (rule ensures_steps)+ simp

section \<open>The workload\<close>

definition loaded_wf :: "Workload \<Rightarrow> bool" where
  "loaded_wf w \<longleftrightarrow> contract_fits (wl_contract w) \<and> deps_fits (wl_deps w) \<and> dset_wf (wl_deps w) \<and>
     vec_fits episode_fits (wl_episodes w) \<and> vec_fits (\<lambda>h. size_fits (tr_reason h)) (wl_history w) \<and>
     size_fits (wl_name w) \<and> size_fits (wl_intent w) \<and> size_fits (wl_lastRestartReason w) \<and>
     wl_episodeCounterForMigration w = 2000"

lemma ensures_decode_fields: "ensures (decode_fields oc od) loaded_wf"
  unfolding decode_fields_def
  by (rule ensures_bind [OF ensures_contract] ensures_bind [OF ensures_deps]
      ensures_bind [OF ensures_vec [OF ensures_episode]] ensures_bind [OF ensures_vec [OF ensures_record]] ensures_steps)+
    (simp add: loaded_wf_def default_workload_def)

lemma ensures_decode:
  "ensures (decode oc od) (\<lambda>w. loaded_wf w \<and> valid (wl_id w) \<and> toU64 (wl_generation w) \<noteq> 0 \<and> toU64 (wl_revision w) \<noteq> 0)"
  unfolding decode_def
  by (rule ensures_bind [OF ensures_decode_fields] ensures_steps)+ simp

text \<open>
  C23. Whatever bytes are given to it, when the decoder accepts them the workload has a
  valid identity and non-zero generation and revision, finite and non-negative resource minima and
  amounts, one state for every dependency, and strings and vectors that fit their length fields.
  Such a workload can be stored again, and comes back as itself: loading is idempotent.
\<close>

theorem accepted_records_are_well_formed:
  assumes "decodeWorkload oc od data = Some (Outcome.ALLOW, w)"
  shows "valid (wl_id w) \<and> toU64 (wl_generation w) \<noteq> 0 \<and> toU64 (wl_revision w) \<noteq> 0 \<and> loaded_wf w \<and>
    (size_fits (encode w) \<longrightarrow>
       decodeWorkload Left_to_right Left_to_right (encodeWorkload w) = Some (Outcome.ALLOW, w))"
proof -
  have "ensures (bind read_frame (\<lambda>payload _. decode oc od payload))
      (\<lambda>w. loaded_wf w \<and> valid (wl_id w) \<and> toU64 (wl_generation w) \<noteq> 0 \<and> toU64 (wl_revision w) \<noteq> 0)"
    using ensures_decode [of oc od] by (intro ensures_skip) (simp add: ensures_def)
  moreover have "\<exists>ys. bind read_frame (\<lambda>payload _. decode oc od payload) data = Done w ys"
    using assms proper_decode [of oc od] by (auto simp: decodeWorkload_def proper_def split: reading.splits)
  ultimately have wf: "loaded_wf w" "valid (wl_id w)" "toU64 (wl_generation w) \<noteq> 0" "toU64 (wl_revision w) \<noteq> 0"
    by (auto dest: ensuresD)
  moreover have "decodeWorkload Left_to_right Left_to_right (encodeWorkload w) = Some (Outcome.ALLOW, w)"
    if "size_fits (encode w)"
    using decodeWorkload_intact [of w Left_to_right Left_to_right "[]"] wf that
    by (simp add: loaded_wf_def workload_fits_def restored_def contract_read_def deps_read_def)
  ultimately show ?thesis by blast
qed

theorem accepted_records_are_well_formed_witness:
  "let w = restored Left_to_right Left_to_right sample_running in
     valid (wl_id w) \<and> toU64 (wl_generation w) \<noteq> 0 \<and> toU64 (wl_revision w) \<noteq> 0 \<and> loaded_wf w"
  using accepted_records_are_well_formed [of Left_to_right Left_to_right "encodeWorkload sample_running"]
    decodeWorkload_intact [OF sample_running_fits, of Left_to_right Left_to_right "[]"]
  by (simp add: Let_def)

end
