(* ===== verification/Coordination.thy ===== *)
theory Coordination
  imports Engine Transport Worker
begin

text \<open>
  The components together: a workload in the engine, a worker that runs its dispatch, the frames
  the worker sends, a network that cuts them into segments, and the coordinator's loop that reads
  the frames and reports them to the engine (as the multiprocess proof of the repository does,
  \<open>tests/mp_proof.cpp\<close>).
\<close>

section \<open>The coordinator's loop\<close>

text \<open>
  At most \<open>n\<close> messages are read. The result says whether the completion was received, and lists
  the outcomes of the reports.
\<close>

fun coordinate ::
  "'s save \<Rightarrow> WorkloadId \<Rightarrow> ExecutionEpisodeId \<Rightarrow> nat \<Rightarrow> bytes list \<Rightarrow> 's engine \<Rightarrow> bool \<times> Outcome list \<times> 's engine" where
  "coordinate save i ep 0 fs e = (False, [], e)"
| "coordinate save i ep (Suc n) [] e = (False, [], e)"
| "coordinate save i ep (Suc n) (f # fs) e =
     (case decodeMessage f of
        None \<Rightarrow> (False, [], e)
      | Some m \<Rightarrow>
          if ms_type m = MsgType.COMPLETE then (True, [], e)
          else if ms_type m \<noteq> MsgType.PROGRESS then coordinate save i ep n fs e
          else
            let pr = engine_progress ep (fromU64 1) (ms_value m) (ms_flag1 m) save i e;
                rest = coordinate save i ep n fs (snd pr)
            in (fst rest, er_outcome (fst pr) # fst (snd rest), snd (snd rest)))"

section \<open>A workload that takes reports\<close>

text \<open>The episode at \<open>k\<close> may advance the workload by \<open>n\<close> more units.\<close>

definition takes_reports :: "ExecutionEpisodeId \<Rightarrow> nat \<Rightarrow> nat \<Rightarrow> Workload \<Rightarrow> bool" where
  "takes_reports ep k n w \<longleftrightarrow>
     wl_state w = WorkloadState.RUNNING \<and> \<not> wl_cancelledFinal w \<and>
     episode_index ep w = Some k \<and> currentEpisode w = Some k \<and>
     ep_generation (wl_episodes w ! k) = fromU64 1 \<and> ep_authoritative (wl_episodes w ! k) \<and>
     uint (pg_completed (wl_progress w)) + int n < 2 ^ 64 \<and>
     (pg_totalKind (wl_progress w) = TotalKind.KNOWN \<longrightarrow>
        unat (pg_completed (wl_progress w)) + n \<le> unat (pg_total (wl_progress w)))"

lemma takes_reports_nat:
  "takes_reports ep k n w \<longleftrightarrow>
     wl_state w = WorkloadState.RUNNING \<and> \<not> wl_cancelledFinal w \<and>
     episode_index ep w = Some k \<and> currentEpisode w = Some k \<and>
     ep_generation (wl_episodes w ! k) = fromU64 1 \<and> ep_authoritative (wl_episodes w ! k) \<and>
     unat (pg_completed (wl_progress w)) + n < 2 ^ 64 \<and>
     (pg_totalKind (wl_progress w) = TotalKind.KNOWN \<longrightarrow>
        unat (pg_completed (wl_progress w)) + n \<le> unat (pg_total (wl_progress w)))"
proof -
  have "uint c + int n < 2 ^ 64 \<longleftrightarrow> unat c + n < 2 ^ 64" for c :: u64
    using of_nat_less_iff [where 'a = int, of "unat c + n" "2 ^ 64"] by simp
  then show ?thesis by (simp only: takes_reports_def)
qed

text \<open>What the reports leave alone.\<close>

definition completion_part where
  "completion_part w = (wl_generation w, wl_policy w, wl_cancellationRequested w, wl_restartCount w,
     map (\<lambda>x. (ep_id x, ep_worker x, ep_boot x)) (wl_episodes w))"

lemma same_workers:
  assumes "\<And>x. ep_id (f x) = ep_id x" and "\<And>x. ep_worker (f x) = ep_worker x" and "\<And>x. ep_boot (f x) = ep_boot x"
  shows "map (\<lambda>x. (ep_id x, ep_worker x, ep_boot x)) (wl_episodes (update_episode k f w)) =
    map (\<lambda>x. (ep_id x, ep_worker x, ep_boot x)) (wl_episodes w)"
  using assms by (simp add: update_episode_def map_list_update_same)

lemma report_taken:
  fixes dur :: bool
  assumes "takes_reports ep k n w" and "unat d \<le> n"
  defines "r \<equiv> reportProgress ep (fromU64 1) d dur w"
  shows "fst r = Outcome.ALLOW \<and> takes_reports ep k (n - unat d) (snd r) \<and>
    unat (pg_completed (wl_progress (snd r))) = unat (pg_completed (wl_progress w)) + unat d \<and>
    completion_part (snd r) = completion_part w"
proof -
  let ?p = "wl_progress w"
  have sum: "unat (pg_completed ?p + d) = unat (pg_completed ?p) + unat d"
    using assms(1,2) by (intro unat_add_no_wrap) (simp add: takes_reports_nat)
  have ok: "fst (advance d dur ?p)"
    using assms(1,2) advance_fails_iff [of d dur ?p] by (auto simp: takes_reports_nat)
  have within: "\<not> (pg_totalKind ?p = TotalKind.KNOWN \<and> pg_completed ?p + d > pg_total ?p)"
    using assms(1,2) sum by (auto simp: takes_reports_nat word_less_nat_alt)
  let ?f = "\<lambda>e. let q = (ep_progress e)\<lparr>pg_completed := pg_completed (ep_progress e) + d\<rparr>
     in e\<lparr>ep_progress := (if dur then q\<lparr>pg_checkpointed := pg_completed q\<rparr> else q)\<rparr>"
  have r: "r = (Outcome.ALLOW, update_episode k ?f (w\<lparr>wl_progress := snd (advance d dur ?p)\<rparr>))"
    using assms(1) ok within by (simp add: r_def reportProgress_def takes_reports_nat isCancelling_def)
  have k: "k < length (wl_episodes w)"
    using assms(1) find_index_less by (auto simp: takes_reports_nat episode_index_def)
  have same: "ep_id (?f e) = ep_id e" "ep_authoritative (?f e) = ep_authoritative e"
    "ep_generation (?f e) = ep_generation e" "ep_worker (?f e) = ep_worker e" "ep_boot (?f e) = ep_boot e" for e
    by (simp_all add: Let_def)
  have index: "episode_index ep (snd r) = episode_index ep w" "currentEpisode (snd r) = currentEpisode w"
    using k by (simp_all add: r episode_index_def currentEpisode_def update_episode_def find_index_update same split: option.split)
  have progress: "unat (pg_completed (wl_progress (snd r))) = unat (pg_completed ?p) + unat d"
    "pg_totalKind (wl_progress (snd r)) = pg_totalKind ?p" "pg_total (wl_progress (snd r)) = pg_total ?p"
    using advance_completed [OF ok] by (simp_all add: r update_episode_def advance_frame)
  have "takes_reports ep k (n - unat d) (snd r)"
    using assms(1,2) index progress k
    by (simp add: takes_reports_nat) (simp add: r update_episode_def same)
  moreover have "completion_part (snd r) = completion_part w"
    by (simp add: r completion_part_def same_workers [OF same(1,4,5)]) (simp add: update_episode_def)
  ultimately show ?thesis
    using progress by (simp add: r)
qed

lemma mark_completed:
  assumes "takes_reports ep k n w"
  shows "\<exists>u. markEpisodeCompleted ep w = (Outcome.ALLOW, u) \<and> completable u \<and>
    completion_part u = completion_part w \<and> wl_progress u = wl_progress w \<and>
    currentEpisode u = Some k \<and> ep_completed (wl_episodes u ! k)"
proof -
  let ?f = "\<lambda>e. e\<lparr>ep_completed := True, ep_state := EpisodeState.COMPLETED\<rparr>"
  let ?u = "update_episode k ?f w"
  have k: "k < length (wl_episodes w)"
    using assms find_index_less by (auto simp: takes_reports_nat episode_index_def)
  have "currentEpisode ?u = currentEpisode w"
    using k by (simp add: currentEpisode_def update_episode_def find_index_update split: option.split)
  moreover have "markEpisodeCompleted ep w = (Outcome.ALLOW, ?u)"
    using assms by (simp add: markEpisodeCompleted_def takes_reports_nat)
  moreover have "completable ?u" "ep_completed (wl_episodes ?u ! k)"
    using assms k by (simp_all add: completable_def takes_reports_nat update_episode_def)
  moreover have "completion_part ?u = completion_part w"
    by (simp add: completion_part_def same_workers) (simp add: update_episode_def)
  ultimately show ?thesis
    using assms by (intro exI [of _ ?u]) (simp add: takes_reports_nat update_episode_def)
qed

section \<open>The messages of a dispatch\<close>

lemma progress_decoded:
  "message_fits (progress_message wk b m s)" "message_fits (complete_message wk b m v)"
proof -
  have "length (to_string v) \<le> 20"
    using unsigned_less [of v, where 'a = nat] unfolding to_string_def by (intro decimal_length) simp_all
  then show "message_fits (complete_message wk b m v)"
    by (simp add: message_fits_def complete_message_def default_message_def size_fits_def)
  show "message_fits (progress_message wk b m s)"
    by (simp add: message_fits_def progress_message_def default_message_def size_fits_def)
qed

lemma decode_sent:
  "decodeMessage (encodeMessage (progress_message wk b m s)) = Some (progress_message wk b m s)"
  "decodeMessage (encodeMessage (complete_message wk b m v)) = Some (complete_message wk b m v)"
  using decode_encoded [OF progress_decoded(1), of wk b m s "[]"] decode_encoded [OF progress_decoded(2), of wk b m v "[]"]
  by simp_all

lemma sent_frames_short:
  "int (length (encodeMessage (progress_message wk b m s))) \<le> kMaxFrameSize"
  "int (length (encodeMessage (complete_message wk b m v))) \<le> kMaxFrameSize"
proof -
  have "length (to_string v) \<le> 20"
    using unsigned_less [of v, where 'a = nat] unfolding to_string_def by (intro decimal_length) simp_all
  then show "int (length (encodeMessage (complete_message wk b m v))) \<le> kMaxFrameSize"
    by (simp add: encodeMessage_def complete_message_def default_message_def kMaxFrameSize_def put_str_def put_bool_def put_u8_def)
  show "int (length (encodeMessage (progress_message wk b m s))) \<le> kMaxFrameSize"
    by (simp add: encodeMessage_def progress_message_def default_message_def kMaxFrameSize_def put_str_def put_bool_def put_u8_def)
qed

text \<open>The progress frames at the head of the stream are all accepted.\<close>

lemma coordinate_progress:
  assumes "engine_get i e = Some w" and "takes_reports ep k n w" and "sum_list (map unat ss) \<le> n"
  shows "\<exists>outs e' v. (\<forall>l fs. coordinate save i ep (length ss + l)
        (map (\<lambda>s. encodeMessage (progress_message wk b m s)) ss @ fs) e =
        (let c = coordinate save i ep l fs e' in (fst c, outs @ fst (snd c), snd (snd c)))) \<and>
    set outs \<subseteq> {Outcome.ALLOW} \<and> length outs = length ss \<and> engine_get i e' = Some v \<and>
    en_episodeCounter e' = en_episodeCounter e \<and>
    takes_reports ep k (n - sum_list (map unat ss)) v \<and> completion_part v = completion_part w \<and>
    unat (pg_completed (wl_progress v)) = unat (pg_completed (wl_progress w)) + sum_list (map unat ss)"
  using assms
proof (induction ss arbitrary: e w n)
  case Nil
  then show ?case by (intro exI [of _ "[]"] exI [of _ e] exI [of _ w]) (simp add: Let_def)
next
  case (Cons s ss)
  let ?r = "reportProgress ep (fromU64 1) s True w"
  have taken: "fst ?r = Outcome.ALLOW" "takes_reports ep k (n - unat s) (snd ?r)"
    "unat (pg_completed (wl_progress (snd ?r))) = unat (pg_completed (wl_progress w)) + unat s"
    "completion_part (snd ?r) = completion_part w"
    using report_taken [OF Cons.prems(2), of s True] Cons.prems(3) by simp_all
  let ?pr = "engine_progress ep (fromU64 1) s True save i e"
  have pr: "er_outcome (fst ?pr) = Outcome.ALLOW" "engine_get i (snd ?pr) = Some (snd ?r)"
    "en_episodeCounter (snd ?pr) = en_episodeCounter e"
    using Cons.prems(1) taken(1) by (simp_all add: engine_progress_def on_workload_found isAllow_def)
  have "sum_list (map unat ss) \<le> n - unat s" using Cons.prems(3) by simp
  from Cons.IH [OF pr(2) taken(2) this]
  obtain outs e' v where rest: "\<And>l fs. coordinate save i ep (length ss + l)
        (map (\<lambda>s. encodeMessage (progress_message wk b m s)) ss @ fs) (snd ?pr) =
        (let c = coordinate save i ep l fs e' in (fst c, outs @ fst (snd c), snd (snd c)))"
    "set outs \<subseteq> {Outcome.ALLOW}" "length outs = length ss" "engine_get i e' = Some v"
    "en_episodeCounter e' = en_episodeCounter (snd ?pr)"
    "takes_reports ep k (n - unat s - sum_list (map unat ss)) v" "completion_part v = completion_part (snd ?r)"
    "unat (pg_completed (wl_progress v)) = unat (pg_completed (wl_progress (snd ?r))) + sum_list (map unat ss)"
    by blast
  have "ms_type (progress_message wk b m s) = MsgType.PROGRESS" "ms_value (progress_message wk b m s) = s"
    "ms_flag1 (progress_message wk b m s) = True"
    by (simp_all add: progress_message_def)
  then have "coordinate save i ep (length (s # ss) + l)
        (map (\<lambda>s. encodeMessage (progress_message wk b m s)) (s # ss) @ fs) e =
        (let c = coordinate save i ep l fs e' in (fst c, (Outcome.ALLOW # outs) @ fst (snd c), snd (snd c)))" for l fs
    using rest(1) [of l fs] pr(1) by (simp add: decode_sent Let_def)
  then show ?case
    using rest(2-) taken pr(3)
    by (intro exI [of _ "Outcome.ALLOW # outs"] exI [of _ e'] exI [of _ v]) simp
qed

lemma coordinate_reports:
  assumes "engine_get i e = Some w" and "takes_reports ep k n w" and "sum_list (map unat ss) \<le> n"
    and "length ss < limit"
  shows "\<exists>outs e' v. coordinate save i ep limit
      (map (\<lambda>s. encodeMessage (progress_message wk b m s)) ss @ [encodeMessage (complete_message wk b m result)]) e =
      (True, outs, e') \<and> set outs \<subseteq> {Outcome.ALLOW} \<and> length outs = length ss \<and> engine_get i e' = Some v \<and>
    takes_reports ep k (n - sum_list (map unat ss)) v \<and> completion_part v = completion_part w \<and>
    unat (pg_completed (wl_progress v)) = unat (pg_completed (wl_progress w)) + sum_list (map unat ss)"
proof -
  obtain l where limit: "limit = length ss + Suc l"
    using assms(4) less_iff_Suc_add by auto
  let ?last = "[encodeMessage (complete_message wk b m result)]"
  have last: "ms_type (complete_message wk b m result) = MsgType.COMPLETE" by (simp add: complete_message_def)
  obtain outs e' v where "\<And>l fs. coordinate save i ep (length ss + l)
        (map (\<lambda>s. encodeMessage (progress_message wk b m s)) ss @ fs) e =
        (let c = coordinate save i ep l fs e' in (fst c, outs @ fst (snd c), snd (snd c)))"
    and rest: "set outs \<subseteq> {Outcome.ALLOW}" "length outs = length ss" "engine_get i e' = Some v"
    "takes_reports ep k (n - sum_list (map unat ss)) v" "completion_part v = completion_part w"
    "unat (pg_completed (wl_progress v)) = unat (pg_completed (wl_progress w)) + sum_list (map unat ss)"
    using coordinate_progress [OF assms(1-3), of save wk b m] by blast
  from this(1) [of "Suc l" ?last]
  have "coordinate save i ep limit (map (\<lambda>s. encodeMessage (progress_message wk b m s)) ss @ ?last) e = (True, outs, e')"
    using last by (simp add: limit decode_sent Let_def)
  with rest show ?thesis by blast
qed

section \<open>From dispatch to completion\<close>

text \<open>
  A running workload whose current episode is authoritative, with a single-result policy and
  no cancellation pending, is dispatched to a worker with its completed units as the resume point.
  The worker's frames are cut into arbitrary segments by the network, received, decoded and reported
  to the engine. Then every report is accepted, the completion arrives, marking the episode and
  committing succeed, and the workload is COMPLETED with exactly the total units.
\<close>

theorem dispatched_work_completes:
  assumes "engine_get i e = Some w" and "takes_reports ep k (unat tot - unat (pg_completed (wl_progress w))) w"
    and "cp_kind (po_completion (wl_policy w)) = CompletionKind.SINGLE_RESULT" and "\<not> wl_cancellationRequested w"
    and "pg_completed (wl_progress w) \<le> tot" and "chunk \<noteq> 0"
    and "ms_payload m = descriptor_text tot (pg_completed (wl_progress w)) chunk"
    and "on_dispatch (\<lambda>_. True) runner wk b m idle_peer = Inr p"
    and "concat chunks = concat (map framed (pe_sent p))"
  shows "let c = coordinate save i ep (length (pe_sent p)) (receive_frames (length (pe_sent p)) polling (arrivals chunks)) e;
      done1 = engine_episodeCompleted ep save i (snd (snd c));
      done2 = engine_commitCompletion (wl_generation w) save i (snd done1)
    in fst c \<and> set (fst (snd c)) \<subseteq> {Outcome.ALLOW} \<and> er_outcome (fst done1) = Outcome.ALLOW \<and>
      er_outcome (fst done2) = Outcome.ALLOW \<and>
      (\<exists>v. engine_get i (snd done2) = Some v \<and> wl_state v = WorkloadState.COMPLETED \<and> pg_completed (wl_progress v) = tot)"
proof -
  let ?from = "pg_completed (wl_progress w)"
  define ss where "ss = steps chunk (tot - ?from) 0"
  define result where "result = foldl (\<lambda>r u. r + runner (?from + word_of_nat u) tot) 0 [0..<unat tot - unat ?from]"
  have sent: "pe_sent p = map (\<lambda>s. encodeMessage (progress_message wk b m s)) ss @ [encodeMessage (complete_message wk b m result)]"
    and total: "sum_list (map unat ss) = unat tot - unat ?from"
    using dispatch_sends(1) [OF assms(7,6,5), where runner = runner and worker = wk and boot = b and p = idle_peer]
      dispatch_sends(2) [OF assms(7,6,5)] assms(8)
    by (auto simp: ss_def result_def idle_peer_def)
  have "\<forall>f\<in>set (pe_sent p). int (length f) \<le> kMaxFrameSize"
    using sent_frames_short by (auto simp: sent)
  then have frames: "receive_frames (length (pe_sent p)) polling (arrivals chunks) = pe_sent p"
    using received_frames [of chunks "pe_sent p" "[]" polling] assms(9) by simp
  obtain outs e' v where c: "coordinate save i ep (length (pe_sent p)) (pe_sent p) e = (True, outs, e')"
      "set outs \<subseteq> {Outcome.ALLOW}" "engine_get i e' = Some v" "takes_reports ep k 0 v"
      "completion_part v = completion_part w" "unat (pg_completed (wl_progress v)) = unat tot"
    using coordinate_reports [OF assms(1,2), of ss "length (pe_sent p)" save wk b m result] total assms(5)
    by (auto simp: sent word_le_nat_alt)
  obtain u where marked: "markEpisodeCompleted ep v = (Outcome.ALLOW, u)" "completable u" "completion_part u = completion_part v"
      "wl_progress u = wl_progress v" "currentEpisode u = Some k" "ep_completed (wl_episodes u ! k)"
    using mark_completed [OF c(4)] by blast
  have "completion_criterion u"
    using marked(3,5,6) c(5) assms(3) by (simp add: completion_criterion_def completion_part_def)
  moreover have "wl_generation u = wl_generation w" "\<not> wl_cancellationRequested u"
    using marked(3) c(5) assms(4) by (simp_all add: completion_part_def)
  ultimately have commit: "fst (commitCompletion (wl_generation w) u) = Outcome.ALLOW"
    using marked(2) by (simp add: commitCompletion_fst)
  let ?d1 = "engine_episodeCompleted ep save i e'"
  have d1: "er_outcome (fst ?d1) = Outcome.ALLOW" "engine_get i (snd ?d1) = Some u"
    using c(3) marked(1) by (simp_all add: engine_episodeCompleted_def on_workload_found isAllow_def)
  let ?d2 = "engine_commitCompletion (wl_generation w) save i (snd ?d1)"
  have d2: "er_outcome (fst ?d2) = Outcome.ALLOW" "engine_get i (snd ?d2) = Some (snd (commitCompletion (wl_generation w) u))"
    using d1(2) commit by (simp_all add: engine_commitCompletion_def on_workload_found isAllow_def)
  have "pg_completed (wl_progress v) = tot" using c(6) by (simp add: word_unat_eq_iff)
  then show ?thesis
    using c(1,2) d1 d2 commitCompletion_effect [OF commit] marked(4) by (simp add: Let_def frames)
qed

definition coordination_engine :: "memory engine" where
  "coordination_engine = put_workload (UniqueValue 7) sample_running (new_engine (Some []))"

definition coordination_dispatch :: Message where
  "coordination_dispatch = default_message\<lparr>ms_type := MsgType.DISPATCH, ms_payload := descriptor_text 100 8 40\<rparr>"

definition coordination_peer :: peer where
  "coordination_peer =
     projr (on_dispatch (\<lambda>_. True) cpuReferenceSegment (UniqueValue 5) (UniqueValue 50) coordination_dispatch idle_peer)"

text \<open>The 100 units of the sample workload, of which 8 are done, over one segment per frame.\<close>

theorem dispatched_work_completes_witness:
  "let c = coordinate mem_save (UniqueValue 7) (UniqueValue 1000) (length (pe_sent coordination_peer))
        (receive_frames (length (pe_sent coordination_peer)) False (arrivals (map framed (pe_sent coordination_peer)))) coordination_engine;
      done1 = engine_episodeCompleted (UniqueValue 1000) mem_save (UniqueValue 7) (snd (snd c));
      done2 = engine_commitCompletion (wl_generation sample_running) mem_save (UniqueValue 7) (snd done1)
    in fst c \<and> set (fst (snd c)) \<subseteq> {Outcome.ALLOW} \<and> er_outcome (fst done1) = Outcome.ALLOW \<and>
      er_outcome (fst done2) = Outcome.ALLOW \<and>
      (\<exists>v. engine_get (UniqueValue 7) (snd done2) = Some v \<and> wl_state v = WorkloadState.COMPLETED \<and>
         pg_completed (wl_progress v) = 100)"
proof (rule dispatched_work_completes)
  have from8: "pg_completed (wl_progress sample_running) = 8" by code_simp
  have payload: "ms_payload coordination_dispatch = descriptor_text 100 8 40"
    by (simp add: coordination_dispatch_def)
  then show "ms_payload coordination_dispatch = descriptor_text 100 (pg_completed (wl_progress sample_running)) 40"
    by (simp only: from8)
  show "engine_get (UniqueValue 7) coordination_engine = Some sample_running"
    by (simp add: coordination_engine_def)
  have "takes_reports (UniqueValue 1000) 0 92 sample_running" by code_simp
  then show "takes_reports (UniqueValue 1000) 0 (unat (100 :: u64) - unat (pg_completed (wl_progress sample_running))) sample_running"
    by (simp add: from8)
  show "cp_kind (po_completion (wl_policy sample_running)) = CompletionKind.SINGLE_RESULT" by code_simp
  show "\<not> wl_cancellationRequested sample_running" by code_simp
  show "pg_completed (wl_progress sample_running) \<le> 100" by (simp add: from8)
  show "(40 :: u64) \<noteq> 0" by simp
  have "(40 :: u64) \<noteq> 0" and "(8 :: u64) \<le> 100" by simp_all
  from dispatch_sends(1) [OF payload this, where runner = cpuReferenceSegment and worker = "UniqueValue 5"
      and boot = "UniqueValue 50" and p = idle_peer]
  show "on_dispatch (\<lambda>_. True) cpuReferenceSegment (UniqueValue 5) (UniqueValue 50) coordination_dispatch idle_peer =
      Inr coordination_peer"
    unfolding coordination_peer_def by (simp only: sum.sel)
  show "concat (map framed (pe_sent coordination_peer)) = concat (map framed (pe_sent coordination_peer))" ..
qed

end
