(* ===== verification/Recovery.thy ===== *)
theory Recovery
  imports Coordination
begin

text \<open>
  Work that survives the loss of its workers, as the multiprocess proof drives it
  (\<open>testPrimaryScenario\<close> of \<open>tests/mp_proof.cpp\<close>): a worker reports part of its units and dies, the
  engine is told, plans a restart, starts a new episode and admits a replacement, which is
  dispatched from the durable progress. Any number of workers may die, within the restart limit.
\<close>

section \<open>The coordinator's reaction to a loss\<close>

text \<open>
  One attempt: the increment asked for, how many frames are read before the worker dies, the bytes
  that have arrived by then, as segments, and the owner, worker and boot of the next attempt.
\<close>

record attempt =
  at_chunk :: u64
  at_reads :: nat
  at_segments :: "bytes list"
  at_owner :: OwnerId
  at_ownerGen :: OwnerGeneration
  at_worker :: WorkerId
  at_boot :: WorkerBootId

text \<open>The DISPATCH message, and the frames a worker sends when it works through it.\<close>

definition dispatch_message ::
  "WorkloadId \<Rightarrow> ExecutionEpisodeId \<Rightarrow> WorkloadGeneration \<Rightarrow> u64 \<Rightarrow> u64 \<Rightarrow> u64 \<Rightarrow> Message" where
  "dispatch_message i ep g tot resume chunk = default_message\<lparr>ms_type := MsgType.DISPATCH,
     ms_workloadId := toU64 i, ms_episodeId := toU64 ep, ms_episodeGen := 1, ms_workloadGen := toU64 g,
     ms_payload := descriptor_text tot resume chunk\<rparr>"

definition worker_frames ::
  "(u64 \<Rightarrow> u64 \<Rightarrow> u64) \<Rightarrow> WorkerId \<Rightarrow> WorkerBootId \<Rightarrow> Message \<Rightarrow> bytes list" where
  "worker_frames runner wk b m =
     (case on_dispatch (\<lambda>_. True) runner wk b m idle_peer of Inl x \<Rightarrow> [] | Inr p \<Rightarrow> pe_sent p)"

definition replace_worker ::
  "'s save \<Rightarrow> WorkloadId \<Rightarrow> WorkloadGeneration \<Rightarrow> attempt \<Rightarrow> WorkerId \<Rightarrow> WorkerBootId \<Rightarrow> 's engine \<Rightarrow>
    Outcome list \<times> ExecutionEpisodeId option \<times> 's engine" where
  "replace_worker save i g a wk b e =
     (let lost = engine_onWorkerLost wk b g save i e;
          plan = engine_planRestart ''WORKER_LOSS'' g save i (snd lost);
          st = engine_startEpisode (at_owner a) (at_ownerGen a) save i (snd plan);
          outs = [er_outcome (fst lost), er_outcome (fst plan), er_outcome (fst st)]
      in case er_episodeId (fst st) of
           None \<Rightarrow> (outs, None, snd st)
         | Some ep \<Rightarrow>
             let d = engine_admitDispatch ep (at_worker a) (at_boot a) save i (snd st)
             in (outs @ [er_outcome (fst d)], Some ep, snd d))"

text \<open>
  All attempts that are lost, one after the other. The result lists every outcome, and says which
  episode, worker and boot are the current ones.
\<close>

fun run_attempts ::
  "'s save \<Rightarrow> WorkloadId \<Rightarrow> bool \<Rightarrow> attempt list \<Rightarrow> ExecutionEpisodeId \<Rightarrow> WorkerId \<Rightarrow> WorkerBootId \<Rightarrow> 's engine \<Rightarrow>
    Outcome list \<times> ExecutionEpisodeId \<times> WorkerId \<times> WorkerBootId \<times> 's engine" where
  "run_attempts save i polling [] ep wk b e = ([], ep, wk, b, e)"
| "run_attempts save i polling (a # as) ep wk b e =
     (let c = coordinate save i ep (at_reads a) (receive_frames (at_reads a) polling (arrivals (at_segments a))) e;
          r = replace_worker save i (wl_generation (snapshot i e)) a wk b (snd (snd c))
      in case fst (snd r) of
           None \<Rightarrow> (fst (snd c) @ fst r, ep, wk, b, snd (snd r))
         | Some ep' \<Rightarrow>
             let rest = run_attempts save i polling as ep' (at_worker a) (at_boot a) (snd (snd r))
             in (fst (snd c) @ fst r @ fst rest, snd rest))"

text \<open>
  What the network does: in each attempt at least the frames that are read have arrived, but not
  all frames of the worker; the connection may break anywhere after them.
\<close>

fun all_arrive ::
  "(u64 \<Rightarrow> u64 \<Rightarrow> u64) \<Rightarrow> 's save \<Rightarrow> WorkloadId \<Rightarrow> u64 \<Rightarrow> bool \<Rightarrow> attempt list \<Rightarrow> ExecutionEpisodeId \<Rightarrow> WorkerId \<Rightarrow>
    WorkerBootId \<Rightarrow> 's engine \<Rightarrow> bool" where
  "all_arrive runner save i tot polling [] ep wk b e \<longleftrightarrow> True"
| "all_arrive runner save i tot polling (a # as) ep wk b e \<longleftrightarrow>
     (let w = snapshot i e;
          fs = worker_frames runner wk b
            (dispatch_message i ep (wl_generation w) tot (pg_completed (wl_progress w)) (at_chunk a));
          got = concat (map framed (take (at_reads a) fs));
          n = run_attempts save i polling [a] ep wk b e
      in at_chunk a \<noteq> 0 \<and> at_reads a < length fs \<and> take (length got) (concat (at_segments a)) = got \<and>
         all_arrive runner save i tot polling as (fst (snd n)) (at_worker a) (at_boot a) (snd (snd (snd (snd n)))))"

lemma worker_frames:
  assumes "chunk \<noteq> 0" and "resume \<le> tot" and m: "m = dispatch_message i ep g tot resume chunk"
  shows "\<exists>result. worker_frames runner wk b m =
      map (\<lambda>s. encodeMessage (progress_message wk b m s)) (steps chunk (tot - resume) 0) @
      [encodeMessage (complete_message wk b m result)]"
    and "sum_list (map unat (steps chunk (tot - resume) 0)) = unat tot - unat resume"
proof -
  have payload: "ms_payload m = descriptor_text tot resume chunk" by (simp add: m dispatch_message_def)
  show "\<exists>result. worker_frames runner wk b m =
      map (\<lambda>s. encodeMessage (progress_message wk b m s)) (steps chunk (tot - resume) 0) @
      [encodeMessage (complete_message wk b m result)]"
    using dispatch_sends(1) [OF payload assms(1,2), where runner = runner and worker = wk and boot = b and p = idle_peer]
    by (auto simp: worker_frames_def idle_peer_def)
  show "sum_list (map unat (steps chunk (tot - resume) 0)) = unat tot - unat resume"
    by (rule dispatch_sends(2) [OF payload assms(1,2)])
qed

section \<open>Replacing a worker\<close>

text \<open>What a loss leaves alone.\<close>

definition recovery_part where
  "recovery_part w = (wl_policy w, wl_cancellationRequested w, wl_cancelledFinal w, wl_progress w,
     map ep_id (wl_episodes w))"

lemma lost_recovering:
  assumes "wl_state w = WorkloadState.RUNNING" and "currentEpisode w = Some k"
    and "ep_worker (wl_episodes w ! k) = wk" and "ep_boot (wl_episodes w ! k) = b"
  shows "\<exists>v. onWorkerLost wk b (wl_generation w) w = (Outcome.ALLOW, v) \<and>
    wl_state v = WorkloadState.RECOVERING \<and> wl_generation v = wl_generation w \<and>
    wl_restartCount v = wl_restartCount w \<and> recovery_part v = recovery_part w"
proof -
  let ?u = "update_episode k (\<lambda>e. e\<lparr>ep_workerLost := True, ep_state := EpisodeState.LOST\<rparr>) w"
  have u: "wl_state ?u = WorkloadState.RUNNING" "wl_generation ?u = wl_generation w"
    "wl_restartCount ?u = wl_restartCount w" "recovery_part ?u = recovery_part w"
    using assms(1) by (simp_all add: recovery_part_def) (simp_all add: update_episode_def)
  then have "guardedTransition WorkloadState.RECOVERING (wl_generation w) ''worker lost'' ?u =
      (Outcome.ALLOW, record_transition WorkloadState.RUNNING WorkloadState.RECOVERING ''worker lost'' Outcome.ALLOW
        (?u\<lparr>wl_state := WorkloadState.RECOVERING\<rparr>))"
    using guardedTransition_allowed [of ?u WorkloadState.RECOVERING] by (simp add: canTransition_iff)
  with assms u show ?thesis
    by (simp add: onWorkerLost_def recovery_part_def)
qed

lemma recovering_planned:
  assumes "wl_state w = WorkloadState.RECOVERING" and "restart_permitted w reason"
  shows "\<exists>v. planRestart (wl_generation w) reason w = (Outcome.ALLOW, v) \<and>
    wl_state v = WorkloadState.RESTART_PENDING \<and> wl_generation v = wl_generation w \<and>
    wl_restartCount v = wl_restartCount w + 1 \<and> recovery_part v = recovery_part w"
proof -
  define u where "u = snd (planRestart (wl_generation w) reason w)"
  have "canTransition WorkloadState.RECOVERING WorkloadState.RESTART_PENDING" by (simp add: canTransition_iff)
  with assms have "fst (planRestart (wl_generation w) reason w) = Outcome.ALLOW \<and>
      wl_state u = WorkloadState.RESTART_PENDING \<and> wl_generation u = wl_generation w \<and>
      wl_restartCount u = wl_restartCount w + 1 \<and> recovery_part u = recovery_part w"
    by (auto simp: u_def planRestart_def restart_permitted_def Let_def guardedTransition_allow_iff
        guardedTransition_state recovery_part_def split: option.split)
  then show ?thesis by (intro exI [of _ u]) (simp add: u_def prod_eq_iff)
qed

lemma find_index_snoc:
  "find_index p (xs @ [y]) =
     (case find_index p xs of Some k \<Rightarrow> Some k | None \<Rightarrow> if p y then Some (length xs) else None)"
  by (induction xs) (auto split: option.split)

lemma find_index_none: "(\<And>x. x \<in> set xs \<Longrightarrow> \<not> p x) \<Longrightarrow> find_index p xs = None"
  by (simp add: find_index_None)

text \<open>Admitting the episode that was appended last.\<close>

lemma admitted:
  assumes "wl_state v = WorkloadState.STARTING" and "wl_episodes v = map (\<lambda>e. e\<lparr>ep_authoritative := False\<rparr>) es @ [x]"
    and "ep_id x = ep" and "ep_state x = EpisodeState.ADMITTED" and "ep_authoritative x" and "ep \<notin> ep_id ` set es"
  shows "\<exists>u. admitDispatch ep wk b v = (Outcome.ALLOW, u) \<and> wl_state u = WorkloadState.RUNNING \<and>
    wl_episodes u = map (\<lambda>e. e\<lparr>ep_authoritative := False\<rparr>) es @
      [x\<lparr>ep_worker := wk, ep_boot := b, ep_state := EpisodeState.RUNNING\<rparr>] \<and>
    episode_index ep u = Some (length es) \<and> currentEpisode u = Some (length es) \<and>
    wl_generation u = wl_generation v \<and> wl_restartCount u = wl_restartCount v \<and> recovery_part u = recovery_part v"
proof -
  let ?f = "\<lambda>e. e\<lparr>ep_worker := wk, ep_boot := b, ep_state := EpisodeState.RUNNING\<rparr>"
  let ?v = "update_episode (length es) ?f v"
  have old: "find_index (\<lambda>e. ep_id e = ep) (map (\<lambda>e. e\<lparr>ep_authoritative := False\<rparr>) es) = None"
    "find_index ep_authoritative (map (\<lambda>e. e\<lparr>ep_authoritative := False\<rparr>) es) = None"
    using assms(6) by (auto intro!: find_index_none)
  have eps: "wl_episodes ?v = map (\<lambda>e. e\<lparr>ep_authoritative := False\<rparr>) es @ [?f x]"
    by (simp add: update_episode_def assms(2) list_update_append nth_append)
  define u where "u = snd (guardedTransition WorkloadState.RUNNING (wl_generation ?v) ''dispatch'' ?v)"
  have index: "episode_index ep v = Some (length es)" "wl_episodes v ! length es = x"
    using old assms(3) by (simp_all add: episode_index_def assms(2) find_index_snoc nth_append)
  have st: "wl_state ?v = WorkloadState.STARTING" by (simp add: update_episode_def assms(1))
  have run: "admitDispatch ep wk b v = (Outcome.ALLOW, u)" "wl_state u = WorkloadState.RUNNING"
    using index st assms(4) by (simp_all add: admitDispatch_def u_def prod_eq_iff guardedTransition_allow_iff guardedTransition_state)
  have same: "wl_episodes u = wl_episodes ?v" by (simp add: u_def)
  have "episode_index ep ?v = Some (length es)" "currentEpisode ?v = Some (length es)"
    using old assms(3,5) by (simp_all only: episode_index_def currentEpisode_def eps find_index_snoc) simp_all
  then have "episode_index ep u = Some (length es)" "currentEpisode u = Some (length es)"
    by (simp_all add: same_episodes [OF same])
  moreover have "wl_generation u = wl_generation v" "wl_restartCount u = wl_restartCount v" "recovery_part u = recovery_part v"
    by (simp_all add: u_def recovery_part_def) (simp_all add: update_episode_def)
  ultimately show ?thesis using run same eps by (intro exI [of _ u]) simp
qed

text \<open>What is left of the workload when the replacement runs.\<close>

definition replacement where
  "replacement ep wk b w u \<longleftrightarrow>
     (let k = length (wl_episodes w) in
      wl_restartCount u = wl_restartCount w + 1 \<and> wl_policy u = wl_policy w \<and>
      wl_cancellationRequested u = wl_cancellationRequested w \<and> wl_progress u = wl_progress w \<and>
      map ep_id (wl_episodes u) = map ep_id (wl_episodes w) @ [ep] \<and>
      ep_worker (wl_episodes u ! k) = wk \<and> ep_boot (wl_episodes u ! k) = b)"

lemma restarted:
  assumes "takes_reports ep k n w" and "ep_worker (wl_episodes w ! k) = wk" and "ep_boot (wl_episodes w ! k) = b"
    and "restart_permitted w ''WORKER_LOSS''" and "ep' \<notin> ep_id ` set (wl_episodes w)"
  shows "\<exists>v1 v2 v3 u. onWorkerLost wk b (wl_generation w) w = (Outcome.ALLOW, v1) \<and>
    planRestart (wl_generation w) ''WORKER_LOSS'' v1 = (Outcome.ALLOW, v2) \<and>
    startEpisode ep' ow og True v2 = (Outcome.ALLOW, v3) \<and> admitDispatch ep' wk' b' v3 = (Outcome.ALLOW, u) \<and>
    takes_reports ep' (length (wl_episodes w)) n u \<and> replacement ep' wk' b' w u"
proof -
  note w = assms(1) [unfolded takes_reports_def]
  obtain v1 where v1: "onWorkerLost wk b (wl_generation w) w = (Outcome.ALLOW, v1)"
      "wl_state v1 = WorkloadState.RECOVERING" "wl_generation v1 = wl_generation w"
      "wl_restartCount v1 = wl_restartCount w" "recovery_part v1 = recovery_part w"
    using lost_recovering [of w k wk b] w assms(2,3) by blast
  then have "restart_permitted v1 ''WORKER_LOSS''"
    using assms(4) by (simp add: restart_permitted_def recovery_part_def)
  from recovering_planned [OF v1(2) this] v1 obtain v2 where v2:
      "planRestart (wl_generation w) ''WORKER_LOSS'' v1 = (Outcome.ALLOW, v2)"
      "wl_state v2 = WorkloadState.RESTART_PENDING" "wl_restartCount v2 = wl_restartCount w + 1"
      "recovery_part v2 = recovery_part w"
    by auto
  then have ids: "map ep_id (wl_episodes v2) = map ep_id (wl_episodes w)" and "\<not> wl_cancelledFinal v2"
    using w by (simp_all add: recovery_part_def)
  define v3 where "v3 = snd (startEpisode ep' ow og True v2)"
  have start: "startEpisode ep' ow og True v2 = (Outcome.ALLOW, v3)" "wl_state v3 = WorkloadState.STARTING"
    "wl_episodes v3 = map (\<lambda>e. e\<lparr>ep_authoritative := False\<rparr>) (wl_episodes v2) @ [started_episode ep' ow og v2]"
    "wl_restartCount v3 = wl_restartCount v2" "wl_policy v3 = wl_policy v2"
    "wl_cancellationRequested v3 = wl_cancellationRequested v2" "wl_cancelledFinal v3 = wl_cancelledFinal v2"
    "wl_progress v3 = wl_progress v2"
    using v2(2) \<open>\<not> wl_cancelledFinal v2\<close> by (simp_all add: v3_def startEpisode_allowed resumeEligible_def)
  have new: "ep_id (started_episode ep' ow og v2) = ep'" "ep_state (started_episode ep' ow og v2) = EpisodeState.ADMITTED"
    "ep_authoritative (started_episode ep' ow og v2)" "ep_generation (started_episode ep' ow og v2) = fromU64 1"
    by (simp_all add: started_episode_def default_episode_def fromU64_def)
  have len: "length (wl_episodes v2) = length (wl_episodes w)" using ids by (metis length_map)
  have "ep' \<notin> set (map ep_id (wl_episodes v2))" using assms(5) unfolding ids by simp
  with admitted [OF start(2,3) new(1-3), of wk' b'] obtain u where u: "admitDispatch ep' wk' b' v3 = (Outcome.ALLOW, u)"
    "wl_state u = WorkloadState.RUNNING" "wl_episodes u = map (\<lambda>e. e\<lparr>ep_authoritative := False\<rparr>) (wl_episodes v2) @
      [(started_episode ep' ow og v2)\<lparr>ep_worker := wk', ep_boot := b', ep_state := EpisodeState.RUNNING\<rparr>]"
    "episode_index ep' u = Some (length (wl_episodes w))" "currentEpisode u = Some (length (wl_episodes w))"
    "wl_restartCount u = wl_restartCount v3" "recovery_part u = recovery_part v3"
    by (auto simp: len)
  have "takes_reports ep' (length (wl_episodes w)) n u" "replacement ep' wk' b' w u"
    using w u start(4-8) v2(3,4) new ids
    by (simp_all add: takes_reports_def replacement_def recovery_part_def len [symmetric] nth_append comp_def)
  with v1(1) v2(1) start(1) u(1) show ?thesis by blast
qed

section \<open>One attempt\<close>

text \<open>
  Worker \<open>wk\<close> with boot \<open>b\<close> works on episode \<open>ep\<close> of the workload, which has \<open>tot\<close> units in all and
  may lose \<open>n\<close> more workers; the identities of its episodes are below the engine's counter.
\<close>

definition in_work ::
  "WorkloadId \<Rightarrow> ExecutionEpisodeId \<Rightarrow> WorkerId \<Rightarrow> WorkerBootId \<Rightarrow> u64 \<Rightarrow> nat \<Rightarrow> 's engine \<Rightarrow> bool" where
  "in_work i ep wk b tot n e \<longleftrightarrow>
     (let w = snapshot i e; k = the (currentEpisode w); p = wl_policy w in
      engine_exists i e \<and> currentEpisode w \<noteq> None \<and> pg_completed (wl_progress w) \<le> tot \<and>
      takes_reports ep k (unat tot - unat (pg_completed (wl_progress w))) w \<and>
      ep_worker (wl_episodes w ! k) = wk \<and> ep_boot (wl_episodes w ! k) = b \<and>
      cp_kind (po_completion p) = CompletionKind.SINGLE_RESULT \<and> \<not> wl_cancellationRequested w \<and>
      restart_class_allowed (rp_kind (po_restart p)) ''WORKER_LOSS'' \<and>
      unat (wl_restartCount w) + n \<le> unat (rp_maxRestarts (po_restart p)) \<and>
      (\<forall>x\<in>set (map ep_id (wl_episodes w)). toU64 x < en_episodeCounter e) \<and>
      uint (en_episodeCounter e) + int n < 2 ^ 64)"

lemma in_work_get:
  assumes "in_work i ep wk b tot n e"
  obtains w k where "engine_get i e = Some w" "snapshot i e = w" "currentEpisode w = Some k"
    "pg_completed (wl_progress w) \<le> tot"
    "takes_reports ep k (unat tot - unat (pg_completed (wl_progress w))) w"
    "ep_worker (wl_episodes w ! k) = wk" "ep_boot (wl_episodes w ! k) = b"
    "cp_kind (po_completion (wl_policy w)) = CompletionKind.SINGLE_RESULT" "\<not> wl_cancellationRequested w"
    "restart_class_allowed (rp_kind (po_restart (wl_policy w))) ''WORKER_LOSS''"
    "unat (wl_restartCount w) + n \<le> unat (rp_maxRestarts (po_restart (wl_policy w)))"
    "\<And>x. x \<in> ep_id ` set (wl_episodes w) \<Longrightarrow> toU64 x < en_episodeCounter e"
    "uint (en_episodeCounter e) + int n < 2 ^ 64"
proof (cases "engine_get i e")
  case (Some w)
  then have "snapshot i e = w" by (simp add: snapshot_def)
  with Some assms that [of w "the (currentEpisode w)"] show thesis
    by (auto simp: in_work_def Let_def)
qed (use assms in \<open>simp add: in_work_def Let_def engine_exists_def\<close>)

lemma replaced:
  assumes "engine_get i e = Some w" and "takes_reports ep k n w" and "ep_worker (wl_episodes w ! k) = wk"
    and "ep_boot (wl_episodes w ! k) = b" and "restart_permitted w ''WORKER_LOSS''"
    and "UniqueValue (en_episodeCounter e) \<notin> ep_id ` set (wl_episodes w)"
  defines "ep' \<equiv> UniqueValue (en_episodeCounter e)"
  shows "\<exists>e' u. replace_worker save i (wl_generation w) a wk b e = (replicate 4 Outcome.ALLOW, Some ep', e') \<and>
    engine_get i e' = Some u \<and> en_episodeCounter e' = en_episodeCounter e + 1 \<and>
    takes_reports ep' (length (wl_episodes w)) n u \<and> replacement ep' (at_worker a) (at_boot a) w u"
proof -
  obtain v1 v2 v3 u where v: "onWorkerLost wk b (wl_generation w) w = (Outcome.ALLOW, v1)"
      "planRestart (wl_generation w) ''WORKER_LOSS'' v1 = (Outcome.ALLOW, v2)"
      "startEpisode ep' (at_owner a) (at_ownerGen a) True v2 = (Outcome.ALLOW, v3)"
      "admitDispatch ep' (at_worker a) (at_boot a) v3 = (Outcome.ALLOW, u)"
      and u: "takes_reports ep' (length (wl_episodes w)) n u" "replacement ep' (at_worker a) (at_boot a) w u"
    using restarted [OF assms(2-5), of ep'] assms(6) unfolding ep'_def by blast
  let ?l = "engine_onWorkerLost wk b (wl_generation w) save i e"
  have l: "er_outcome (fst ?l) = Outcome.ALLOW" "engine_get i (snd ?l) = Some v1" "en_episodeCounter (snd ?l) = en_episodeCounter e"
    using assms(1) v(1) by (simp_all add: engine_onWorkerLost_def on_workload_found isAllow_def)
  let ?p = "engine_planRestart ''WORKER_LOSS'' (wl_generation w) save i (snd ?l)"
  have p: "er_outcome (fst ?p) = Outcome.ALLOW" "engine_get i (snd ?p) = Some v2" "en_episodeCounter (snd ?p) = en_episodeCounter e"
    using l v(2) by (simp_all add: engine_planRestart_def on_workload_found isAllow_def)
  let ?s = "engine_startEpisode (at_owner a) (at_ownerGen a) save i (snd ?p)"
  have s: "er_outcome (fst ?s) = Outcome.ALLOW" "er_episodeId (fst ?s) = Some ep'" "engine_get i (snd ?s) = Some v3"
    "en_episodeCounter (snd ?s) = en_episodeCounter e + 1"
    using p v(3) by (simp_all add: engine_startEpisode_def Let_def isAllow_def ep'_def)
  let ?d = "engine_admitDispatch ep' (at_worker a) (at_boot a) save i (snd ?s)"
  have d: "er_outcome (fst ?d) = Outcome.ALLOW" "engine_get i (snd ?d) = Some u"
    "en_episodeCounter (snd ?d) = en_episodeCounter e + 1"
    using s v(4) by (simp_all add: engine_admitDispatch_def on_workload_found isAllow_def)
  show ?thesis
    using l(1) p(1) s(1,2) d u
    by (intro exI [of _ "snd ?d"] exI [of _ u]) (simp add: replace_worker_def Let_def eval_nat_numeral)
qed

text \<open>The reports that are read before the worker dies.\<close>

lemma attempt_reports:
  assumes "engine_get i e = Some w" and "pg_completed (wl_progress w) \<le> tot"
    and "takes_reports ep k (unat tot - unat (pg_completed (wl_progress w))) w"
    and "at_chunk a \<noteq> 0"
    and fs: "fs = worker_frames runner wk b
      (dispatch_message i ep (wl_generation w) tot (pg_completed (wl_progress w)) (at_chunk a))"
    and "at_reads a < length fs"
    and got: "got = concat (map framed (take (at_reads a) fs))" and "take (length got) (concat (at_segments a)) = got"
  shows "\<exists>n outs e' v. coordinate save i ep (at_reads a) (receive_frames (at_reads a) polling (arrivals (at_segments a))) e =
      (False, outs, e') \<and> set outs \<subseteq> {Outcome.ALLOW} \<and> engine_get i e' = Some v \<and>
    en_episodeCounter e' = en_episodeCounter e \<and> n \<le> unat tot - unat (pg_completed (wl_progress w)) \<and>
    takes_reports ep k (unat tot - unat (pg_completed (wl_progress w)) - n) v \<and> completion_part v = completion_part w \<and>
    unat (pg_completed (wl_progress v)) = unat (pg_completed (wl_progress w)) + n"
proof -
  define resume where "resume = pg_completed (wl_progress w)"
  define m where "m = dispatch_message i ep (wl_generation w) tot resume (at_chunk a)"
  define ss where "ss = steps (at_chunk a) (tot - resume) 0"
  define rs where "rs = take (at_reads a) ss"
  let ?frames = "map (\<lambda>s. encodeMessage (progress_message wk b m s)) rs"
  obtain result where sent: "fs =
      map (\<lambda>s. encodeMessage (progress_message wk b m s)) ss @ [encodeMessage (complete_message wk b m result)]"
    using worker_frames(1) [OF assms(4,2), of m i ep "wl_generation w" runner wk b] fs
    by (auto simp: m_def ss_def resume_def)
  have reads: "at_reads a \<le> length ss" using assms(6) by (simp add: sent)
  then have taken: "take (at_reads a) fs = ?frames" and len: "length rs = at_reads a"
    by (simp_all add: sent rs_def take_map)
  have "concat (at_segments a) = concat (map framed ?frames) @ drop (length got) (concat (at_segments a))"
    using assms(8) got unfolding taken by (metis append_take_drop_id)
  moreover have "\<forall>f\<in>set ?frames. int (length f) \<le> kMaxFrameSize"
    using sent_frames_short by auto
  ultimately have frames: "receive_frames (at_reads a) polling (arrivals (at_segments a)) = ?frames"
    using received_frames [of "at_segments a" ?frames "drop (length got) (concat (at_segments a))" polling]
    by (simp only: length_map len)
  have "sum_list (map unat ss) = unat tot - unat resume"
    using worker_frames(2) [OF assms(4,2) refl] by (simp add: ss_def resume_def)
  moreover have "sum_list (map unat ss) = sum_list (map unat rs) + sum_list (map unat (drop (at_reads a) ss))"
    unfolding rs_def by (metis append_take_drop_id map_append sum_list.append)
  ultimately have part: "sum_list (map unat rs) \<le> unat tot - unat (pg_completed (wl_progress w))"
    by (simp add: resume_def)
  obtain outs e1 v where c: "\<And>l fs. coordinate save i ep (length rs + l) (?frames @ fs) e =
        (let c = coordinate save i ep l fs e1 in (fst c, outs @ fst (snd c), snd (snd c)))"
    and rest: "set outs \<subseteq> {Outcome.ALLOW}" "engine_get i e1 = Some v" "en_episodeCounter e1 = en_episodeCounter e"
    "takes_reports ep k (unat tot - unat (pg_completed (wl_progress w)) - sum_list (map unat rs)) v"
    "completion_part v = completion_part w"
    "unat (pg_completed (wl_progress v)) = unat (pg_completed (wl_progress w)) + sum_list (map unat rs)"
    using coordinate_progress [OF assms(1,3) part, of save wk b m] by blast
  have "coordinate save i ep (at_reads a) ?frames e = (False, outs, e1)"
    using c [of 0 "[]"] by (simp add: len)
  with rest part show ?thesis unfolding frames by blast
qed

text \<open>The workload after the reports, and the engine after the replacement.\<close>

lemma reports_keep:
  assumes "completion_part v = completion_part w" and "k < length (wl_episodes w)"
  shows "wl_generation v = wl_generation w" and "wl_policy v = wl_policy w"
    and "wl_cancellationRequested v = wl_cancellationRequested w" and "wl_restartCount v = wl_restartCount w"
    and "map ep_id (wl_episodes v) = map ep_id (wl_episodes w)"
    and "ep_worker (wl_episodes v ! k) = ep_worker (wl_episodes w ! k)"
    and "ep_boot (wl_episodes v ! k) = ep_boot (wl_episodes w ! k)"
proof -
  have eps: "map (\<lambda>x. (ep_id x, ep_worker x, ep_boot x)) (wl_episodes v) =
      map (\<lambda>x. (ep_id x, ep_worker x, ep_boot x)) (wl_episodes w)"
    and "wl_generation v = wl_generation w" "wl_policy v = wl_policy w"
    "wl_cancellationRequested v = wl_cancellationRequested w" "wl_restartCount v = wl_restartCount w"
    using assms(1) by (simp_all add: completion_part_def)
  then show "wl_generation v = wl_generation w" "wl_policy v = wl_policy w"
    "wl_cancellationRequested v = wl_cancellationRequested w" "wl_restartCount v = wl_restartCount w" by simp_all
  show "map ep_id (wl_episodes v) = map ep_id (wl_episodes w)"
    using arg_cong [OF eps, of "map fst"] by (simp add: comp_def)
  show "ep_worker (wl_episodes v ! k) = ep_worker (wl_episodes w ! k)"
    "ep_boot (wl_episodes v ! k) = ep_boot (wl_episodes w ! k)"
    using arg_cong [OF eps, of "\<lambda>xs. xs ! k"] arg_cong [OF eps, of length] assms(2) by simp_all
qed

lemma next_counter:
  fixes c :: u64
  assumes "uint c + int (Suc n) < 2 ^ 64"
  shows "unat (c + 1) = Suc (unat c)" and "uint (c + 1) + int n < 2 ^ 64"
proof -
  have "c \<noteq> - 1"
  proof
    assume "c = - 1"
    then have "uint c = 2 ^ 64 - 1" by (simp add: unsigned_minus_1_eq_mask mask_eq_exp_minus_1)
    with assms show False by simp
  qed
  then show succ: "unat (c + 1) = Suc (unat c)" by (rule unat_succ_u64)
  show "uint (c + 1) + int n < 2 ^ 64" using arg_cong [OF succ, of int] assms by simp
qed

lemma replaced_in_work:
  assumes "in_work i ep wk b tot (Suc n) e" and "engine_get i e = Some w" and "currentEpisode w = Some k"
    and "engine_get i e1 = Some v" and "en_episodeCounter e1 = en_episodeCounter e"
    and "takes_reports ep k (unat tot - unat (pg_completed (wl_progress w)) - d) v"
    and "completion_part v = completion_part w" and "d \<le> unat tot - unat (pg_completed (wl_progress w))"
    and "unat (pg_completed (wl_progress v)) = unat (pg_completed (wl_progress w)) + d"
  defines "ep' \<equiv> UniqueValue (en_episodeCounter e)"
  shows "\<exists>e2. replace_worker save i (wl_generation w) a wk b e1 = (replicate 4 Outcome.ALLOW, Some ep', e2) \<and>
    in_work i ep' (at_worker a) (at_boot a) tot n e2 \<and>
    wl_restartCount (snapshot i e2) = wl_restartCount w + 1"
proof -
  have snap_w: "snapshot i e = w" using assms(2) by (simp add: snapshot_def)
  have w: "pg_completed (wl_progress w) \<le> tot"
    "takes_reports ep k (unat tot - unat (pg_completed (wl_progress w))) w"
    "ep_worker (wl_episodes w ! k) = wk" "ep_boot (wl_episodes w ! k) = b"
    "cp_kind (po_completion (wl_policy w)) = CompletionKind.SINGLE_RESULT" "\<not> wl_cancellationRequested w"
    "restart_class_allowed (rp_kind (po_restart (wl_policy w))) ''WORKER_LOSS''"
    "unat (wl_restartCount w) + Suc n \<le> unat (rp_maxRestarts (po_restart (wl_policy w)))"
    "\<And>x. x \<in> set (map ep_id (wl_episodes w)) \<Longrightarrow> toU64 x < en_episodeCounter e"
    and counter: "uint (en_episodeCounter e) + int (Suc n) < 2 ^ 64"
    using assms(1) unfolding in_work_def snap_w Let_def assms(3) option.sel set_map by blast+
  have "k < length (wl_episodes w)"
    using w(2) find_index_less by (auto simp: takes_reports_def episode_index_def)
  note kept = reports_keep [OF assms(7) this]
  have permitted: "restart_permitted v ''WORKER_LOSS''"
    using w(7,8) kept by (simp add: restart_permitted_def restartAllowed_def word_less_nat_alt)
  have "ep' \<notin> set (map ep_id (wl_episodes v))"
    unfolding kept(5) using w(9) [of ep'] by (auto simp: ep'_def)
  then have fresh: "UniqueValue (en_episodeCounter e1) \<notin> ep_id ` set (wl_episodes v)"
    by (simp add: ep'_def assms(5))
  obtain e2 u where r: "replace_worker save i (wl_generation w) a wk b e1 = (replicate 4 Outcome.ALLOW, Some ep', e2)"
    and u: "engine_get i e2 = Some u" "en_episodeCounter e2 = en_episodeCounter e + 1"
    "takes_reports ep' (length (wl_episodes v)) (unat tot - unat (pg_completed (wl_progress w)) - d) u"
    "replacement ep' (at_worker a) (at_boot a) v u"
    using replaced [OF assms(4,6) _ _ permitted fresh, of wk b save a] w(3,4) kept assms(5) unfolding ep'_def by auto
  have snap: "snapshot i e2 = u" using u(1) by (simp add: snapshot_def)
  have "restartAllowed (wl_restartCount v) (rp_maxRestarts (po_restart (wl_policy v)))"
    using permitted by (simp add: restart_permitted_def)
  then have count: "unat (wl_restartCount u) = Suc (unat (wl_restartCount w))"
    using restartAllowed_succ u(4) kept(4) by (metis replacement_def)
  have ids: "map ep_id (wl_episodes u) = map ep_id (wl_episodes w) @ [ep']"
    using u(4) kept(5) by (simp add: replacement_def Let_def)
  have below: "toU64 x < en_episodeCounter e2" if "x \<in> set (map ep_id (wl_episodes u))" for x
  proof (cases "x = ep'")
    case True
    then show ?thesis using next_counter(1) [OF counter] u(2) by (simp add: word_less_nat_alt ep'_def)
  next
    case False
    then have "toU64 x < en_episodeCounter e" using that w(9) [of x] unfolding ids set_append by simp
    then show ?thesis using next_counter(1) [OF counter] u(2) by (simp add: word_less_nat_alt)
  qed
  note below = below [unfolded ids]
  have progress: "unat (pg_completed (wl_progress u)) = unat (pg_completed (wl_progress w)) + d"
    "unat tot - unat (pg_completed (wl_progress u)) = unat tot - unat (pg_completed (wl_progress w)) - d"
    "pg_completed (wl_progress u) \<le> tot"
    using u(4) assms(8,9) w(1) by (simp_all add: replacement_def Let_def word_le_nat_alt)
  have "currentEpisode u = Some (length (wl_episodes v))" using u(3) by (simp add: takes_reports_def)
  moreover have "engine_exists i e2" using u(1) by (simp add: engine_exists_def)
  moreover have "uint (en_episodeCounter e2) + int n < 2 ^ 64"
    unfolding u(2) by (rule next_counter(2) [OF counter])
  ultimately have "in_work i ep' (at_worker a) (at_boot a) tot n e2"
    unfolding in_work_def snap Let_def progress(2)
    using below [of ep'] below progress(3) u(3,4) kept w(5-8) count by (simp add: ids replacement_def Let_def)
  with r snap u(4) kept(4) show ?thesis by (auto simp: replacement_def Let_def)
qed

lemma attempt_survived:
  assumes "in_work i ep wk b tot (Suc n) e" and "all_arrive runner save i tot polling (a # as) ep wk b e"
  shows "\<exists>outs ep' e'. (\<forall>as. run_attempts save i polling (a # as) ep wk b e =
      (let rest = run_attempts save i polling as ep' (at_worker a) (at_boot a) e' in (outs @ fst rest, snd rest))) \<and>
    set outs \<subseteq> {Outcome.ALLOW} \<and> in_work i ep' (at_worker a) (at_boot a) tot n e' \<and>
    wl_restartCount (snapshot i e') = wl_restartCount (snapshot i e) + 1"
proof -
  obtain w k where w: "engine_get i e = Some w" "snapshot i e = w" "currentEpisode w = Some k"
    "pg_completed (wl_progress w) \<le> tot" "takes_reports ep k (unat tot - unat (pg_completed (wl_progress w))) w"
    using in_work_get [OF assms(1)] by metis
  let ?fs = "worker_frames runner wk b
    (dispatch_message i ep (wl_generation w) tot (pg_completed (wl_progress w)) (at_chunk a))"
  let ?got = "concat (map framed (take (at_reads a) ?fs))"
  have "at_chunk a \<noteq> 0" "at_reads a < length ?fs" "take (length ?got) (concat (at_segments a)) = ?got"
    using assms(2) unfolding all_arrive.simps Let_def w(2) by blast+
  from attempt_reports [OF w(1,4,5) this(1) refl this(2) refl this(3), of save polling]
  obtain d outs e1 v where run: "coordinate save i ep (at_reads a)
      (receive_frames (at_reads a) polling (arrivals (at_segments a))) e = (False, outs, e1)"
    and outs: "set outs \<subseteq> {Outcome.ALLOW}" and v: "engine_get i e1 = Some v" "en_episodeCounter e1 = en_episodeCounter e"
    "takes_reports ep k (unat tot - unat (pg_completed (wl_progress w)) - d) v" "completion_part v = completion_part w"
    "d \<le> unat tot - unat (pg_completed (wl_progress w))"
    "unat (pg_completed (wl_progress v)) = unat (pg_completed (wl_progress w)) + d"
    by blast
  let ?ep = "UniqueValue (en_episodeCounter e) :: ExecutionEpisodeId"
  obtain e2 where r: "replace_worker save i (wl_generation w) a wk b e1 = (replicate 4 Outcome.ALLOW, Some ?ep, e2)"
    and e2: "in_work i ?ep (at_worker a) (at_boot a) tot n e2" "wl_restartCount (snapshot i e2) = wl_restartCount w + 1"
    using replaced_in_work [OF assms(1) w(1,3) v] by blast
  have "run_attempts save i polling (a # as) ep wk b e =
      (let rest = run_attempts save i polling as ?ep (at_worker a) (at_boot a) e2
       in ((outs @ replicate 4 Outcome.ALLOW) @ fst rest, snd rest))" for as
    by (simp add: run w(2) r Let_def)
  then show ?thesis
    using outs e2 w(2)
    by (intro exI [of _ "outs @ replicate 4 Outcome.ALLOW"] exI [of _ ?ep] exI [of _ e2] conjI allI) auto
qed

section \<open>Any number of losses\<close>

lemma attempts_survived:
  assumes "in_work i ep wk b tot (length as) e" and "all_arrive runner save i tot polling as ep wk b e"
    and "run_attempts save i polling as ep wk b e = (outs, ep', wk', b', e')"
  shows "set outs \<subseteq> {Outcome.ALLOW} \<and> in_work i ep' wk' b' tot 0 e' \<and>
    wl_restartCount (snapshot i e') = wl_restartCount (snapshot i e) + of_nat (length as)"
  using assms
proof (induction as arbitrary: ep wk b e outs)
  case (Cons a as)
  have "in_work i ep wk b tot (Suc (length as)) e" using Cons.prems(1) by simp
  from attempt_survived [OF this Cons.prems(2)] obtain outs1 ep1 e1 where
    run: "\<And>as. run_attempts save i polling (a # as) ep wk b e =
      (let rest = run_attempts save i polling as ep1 (at_worker a) (at_boot a) e1 in (outs1 @ fst rest, snd rest))"
    and ok: "set outs1 \<subseteq> {Outcome.ALLOW}" "in_work i ep1 (at_worker a) (at_boot a) tot (length as) e1"
    "wl_restartCount (snapshot i e1) = wl_restartCount (snapshot i e) + 1"
    by blast
  have "snd (run_attempts save i polling [a] ep wk b e) = (ep1, at_worker a, at_boot a, e1)"
    using run [of "[]"] by (simp add: Let_def del: run_attempts.simps(2))
  then have arrive: "all_arrive runner save i tot polling as ep1 (at_worker a) (at_boot a) e1"
    using Cons.prems(2) unfolding all_arrive.simps Let_def by simp
  obtain outs2 where rest: "run_attempts save i polling as ep1 (at_worker a) (at_boot a) e1 = (outs2, ep', wk', b', e')"
    and "outs = outs1 @ outs2"
    using Cons.prems(3) run [of as] by (cases "run_attempts save i polling as ep1 (at_worker a) (at_boot a) e1")
      (simp add: Let_def del: run_attempts.simps(2))
  with Cons.IH [OF ok(2) arrive rest] ok(1,3) show ?case by simp
qed simp

text \<open>
  C8. A workload in work loses one worker after another, within the restart
  limit of its policy. Each time an arbitrary part of the worker's frames has been read, over a connection
  that breaks at an arbitrary byte; the engine is told of the loss, plans the restart, starts a new
  episode and admits a replacement, which is dispatched from the completed units. Then every report
  and every step of the recovery is accepted, each loss is counted once, and when the last worker's
  frames all arrive the workload completes with exactly its units: none is lost or counted twice.
\<close>

theorem survives_worker_losses:
  assumes "in_work i ep wk b tot (length as) e" and "all_arrive runner save i tot polling as ep wk b e"
    and "run_attempts save i polling as ep wk b e = (outs, ep', wk', b', e')"
    and "chunk \<noteq> 0"
    and "fs = worker_frames runner wk' b' (dispatch_message i ep' (wl_generation (snapshot i e')) tot
      (pg_completed (wl_progress (snapshot i e'))) chunk)"
    and "concat chunks = concat (map framed fs)"
  shows "set outs \<subseteq> {Outcome.ALLOW} \<and>
    wl_restartCount (snapshot i e') = wl_restartCount (snapshot i e) + of_nat (length as) \<and>
    (let c = coordinate save i ep' (length fs) (receive_frames (length fs) polling (arrivals chunks)) e';
      done1 = engine_episodeCompleted ep' save i (snd (snd c));
      done2 = engine_commitCompletion (wl_generation (snapshot i e')) save i (snd done1)
    in fst c \<and> set (fst (snd c)) \<subseteq> {Outcome.ALLOW} \<and> er_outcome (fst done1) = Outcome.ALLOW \<and>
      er_outcome (fst done2) = Outcome.ALLOW \<and>
      (\<exists>v. engine_get i (snd done2) = Some v \<and> wl_state v = WorkloadState.COMPLETED \<and> pg_completed (wl_progress v) = tot))"
proof -
  have lost: "set outs \<subseteq> {Outcome.ALLOW}" "in_work i ep' wk' b' tot 0 e'"
    "wl_restartCount (snapshot i e') = wl_restartCount (snapshot i e) + of_nat (length as)"
    using attempts_survived [OF assms(1-3)] by simp_all
  from lost(2) obtain w k where w: "engine_get i e' = Some w" "snapshot i e' = w"
    "pg_completed (wl_progress w) \<le> tot" "takes_reports ep' k (unat tot - unat (pg_completed (wl_progress w))) w"
    "cp_kind (po_completion (wl_policy w)) = CompletionKind.SINGLE_RESULT" "\<not> wl_cancellationRequested w"
    using in_work_get by metis
  let ?m = "dispatch_message i ep' (wl_generation w) tot (pg_completed (wl_progress w)) chunk"
  have payload: "ms_payload ?m = descriptor_text tot (pg_completed (wl_progress w)) chunk"
    by (simp add: dispatch_message_def)
  obtain p where p: "on_dispatch (\<lambda>_. True) runner wk' b' ?m idle_peer = Inr p"
    using dispatch_sends(1) [OF payload assms(4) w(3)] by blast
  then have "fs = pe_sent p" using assms(5) w(2) by (simp add: worker_frames_def)
  with dispatched_work_completes [OF w(1,4,5,6,3) assms(4) payload p, of chunks save polling] assms(6) lost w(2)
  show ?thesis by simp
qed

text \<open>One worker is lost after its first frame; two bytes of the next header have arrived.\<close>

definition recovery_engine :: "memory engine" where
  "recovery_engine = (put_workload (UniqueValue 7) sample_running (new_engine None))\<lparr>en_episodeCounter := 1001\<rparr>"

definition recovery_attempt :: attempt where
  "recovery_attempt = \<lparr>at_chunk = 40, at_reads = 1,
     at_segments = map framed (take 1 (worker_frames cpuReferenceSegment (UniqueValue 5) (UniqueValue 50)
       (dispatch_message (UniqueValue 7) (UniqueValue 1000) (UniqueValue 2) 100 8 40))) @ [[0, 0]],
     at_owner = UniqueValue 2, at_ownerGen = UniqueValue 1, at_worker = UniqueValue 6, at_boot = UniqueValue 60\<rparr>"

lemma recovery_facts:
  "snapshot (UniqueValue 7) recovery_engine = sample_running"
  "wl_generation sample_running = UniqueValue 2" "pg_completed (wl_progress sample_running) = 8"
proof -
  show "snapshot (UniqueValue 7) recovery_engine = sample_running"
    by (simp add: snapshot_def recovery_engine_def)
  show "wl_generation sample_running = UniqueValue 2" "pg_completed (wl_progress sample_running) = 8" by code_simp+
qed

lemma recovery_in_work: "in_work (UniqueValue 7) (UniqueValue 1000) (UniqueValue 5) (UniqueValue 50) 100 1 recovery_engine"
proof -
  have "map ep_id (wl_episodes sample_running) = [UniqueValue 1000]" by code_simp
  moreover have "currentEpisode sample_running = Some 0" "ep_worker (wl_episodes sample_running ! 0) = UniqueValue 5"
    "ep_boot (wl_episodes sample_running ! 0) = UniqueValue 50"
    "cp_kind (po_completion (wl_policy sample_running)) = CompletionKind.SINGLE_RESULT"
    "\<not> wl_cancellationRequested sample_running"
    "restart_class_allowed (rp_kind (po_restart (wl_policy sample_running))) ''WORKER_LOSS''"
    "wl_restartCount sample_running = 0" "rp_maxRestarts (po_restart (wl_policy sample_running)) = 2"
    by code_simp+
  moreover have "takes_reports (UniqueValue 1000) 0 92 sample_running" by code_simp
  moreover have "en_episodeCounter recovery_engine = 1001" "engine_exists (UniqueValue 7) recovery_engine"
    by (simp_all add: recovery_engine_def engine_exists_def)
  ultimately show ?thesis unfolding in_work_def recovery_facts(1) Let_def by (simp add: recovery_facts(3))
qed

lemma recovery_arrives:
  "all_arrive cpuReferenceSegment mem_save (UniqueValue 7) 100 False [recovery_attempt] (UniqueValue 1000)
     (UniqueValue 5) (UniqueValue 50) recovery_engine"
proof -
  let ?m = "dispatch_message (UniqueValue 7) (UniqueValue 1000) (UniqueValue 2) 100 8 40"
  let ?fs = "worker_frames cpuReferenceSegment (UniqueValue 5) (UniqueValue 50) ?m"
  obtain result where "?fs = map (\<lambda>s. encodeMessage (progress_message (UniqueValue 5) (UniqueValue 50) ?m s))
      (steps 40 (100 - 8) 0) @ [result]"
    using worker_frames(1) [where chunk = 40 and resume = 8 and tot = 100 and i = "UniqueValue 7" and
        ep = "UniqueValue 1000" and g = "UniqueValue 2" and runner = cpuReferenceSegment and
        wk = "UniqueValue 5" and b = "UniqueValue 50", OF _ _ refl] by fastforce
  moreover have "sum_list (map unat (steps 40 (100 - 8) 0)) = unat (100 :: u64) - unat (8 :: u64)"
    by (rule worker_frames(2) [OF _ _ refl]) simp_all
  then have "steps 40 (100 - 8) 0 \<noteq> []" by auto
  ultimately have "1 < length ?fs" by simp
  then show ?thesis
    unfolding all_arrive.simps Let_def recovery_facts recovery_attempt_def by simp
qed

text \<open>The loss is survived: whatever the second worker sends, if all of it arrives, completes the 100 units.\<close>

theorem survives_worker_losses_witness:
  "case run_attempts mem_save (UniqueValue 7) False [recovery_attempt] (UniqueValue 1000) (UniqueValue 5) (UniqueValue 50)
     recovery_engine of (outs, ep, wk, b, e) \<Rightarrow>
     set outs \<subseteq> {Outcome.ALLOW} \<and>
     (let fs = worker_frames cpuReferenceSegment wk b (dispatch_message (UniqueValue 7) ep
          (wl_generation (snapshot (UniqueValue 7) e)) 100 (pg_completed (wl_progress (snapshot (UniqueValue 7) e))) 32);
        c = coordinate mem_save (UniqueValue 7) ep (length fs) (receive_frames (length fs) False (arrivals (map framed fs))) e;
        done1 = engine_episodeCompleted ep mem_save (UniqueValue 7) (snd (snd c));
        done2 = engine_commitCompletion (wl_generation (snapshot (UniqueValue 7) e)) mem_save (UniqueValue 7) (snd done1)
      in \<exists>v. engine_get (UniqueValue 7) (snd done2) = Some v \<and> wl_state v = WorkloadState.COMPLETED \<and>
        pg_completed (wl_progress v) = 100)"
proof -
  have work: "in_work (UniqueValue 7) (UniqueValue 1000) (UniqueValue 5) (UniqueValue 50) 100 (length [recovery_attempt]) recovery_engine"
    using recovery_in_work by simp
  obtain outs ep wk b e where r: "run_attempts mem_save (UniqueValue 7) False [recovery_attempt] (UniqueValue 1000)
      (UniqueValue 5) (UniqueValue 50) recovery_engine = (outs, ep, wk, b, e)"
    by (cases "run_attempts mem_save (UniqueValue 7) False [recovery_attempt] (UniqueValue 1000)
      (UniqueValue 5) (UniqueValue 50) recovery_engine")
  have "(32 :: u64) \<noteq> 0" by simp
  from survives_worker_losses [OF work recovery_arrives r this refl refl] show ?thesis
    unfolding r Let_def by simp
qed

end
