(* ===== verification/Sessions.thy ===== *)
theory Sessions
  imports Recovery
begin

text \<open>
  A whole session between the coordinator and one worker process: the registration
  (\<open>registerWorker\<close> of \<open>tests/mp_proof.cpp\<close>), any number of dispatched jobs and the shutdown, over
  two byte streams that the network cuts up as it likes. The worker is the program \<open>runWorker\<close> from
  its first to its last frame.
\<close>

section \<open>The coordinator's end\<close>

text \<open>\<open>readMsg\<close>: false when no frame arrives in time, the peer is gone, or the frame is malformed.\<close>

definition readMsg :: "peer \<Rightarrow> Message option \<times> peer" where
  "readMsg p =
     (case pe_inbox p of
        [] \<Rightarrow> (None, p)
      | None # fs \<Rightarrow> (None, p\<lparr>pe_inbox := fs\<rparr>)
      | Some f # fs \<Rightarrow> (decodeMessage f, p\<lparr>pe_inbox := fs\<rparr>))"

definition sendMsg :: "(nat \<Rightarrow> bool) \<Rightarrow> Message \<Rightarrow> peer \<Rightarrow> bool \<times> peer" where
  "sendMsg ok m p = send ok (encodeMessage m) p"

text \<open>The second part of the result are the variables \<open>outWorker\<close> and \<open>outBoot\<close>.\<close>

definition registerWorker :: "(nat \<Rightarrow> bool) \<Rightarrow> u64 \<times> u64 \<Rightarrow> peer \<Rightarrow> bool \<times> (u64 \<times> u64) \<times> peer" where
  "registerWorker ok outs p =
     (case readMsg p of
        (None, p1) \<Rightarrow> (False, outs, p1)
      | (Some h, p1) \<Rightarrow>
          if ms_type h \<noteq> MsgType.HELLO then (False, outs, p1)
          else
            let s = sendMsg ok (default_message\<lparr>ms_type := MsgType.REGISTER, ms_workerId := ms_workerId h,
                  ms_bootId := ms_bootId h\<rparr>) p1
            in (fst s, (ms_workerId h, ms_bootId h), snd s))"

definition hello_message :: "WorkerId \<Rightarrow> WorkerBootId \<Rightarrow> Message" where
  "hello_message wk b = default_message\<lparr>ms_type := MsgType.HELLO, ms_workerId := toU64 wk, ms_bootId := toU64 b\<rparr>"

definition register_message :: "WorkerId \<Rightarrow> WorkerBootId \<Rightarrow> Message" where
  "register_message wk b = default_message\<lparr>ms_type := MsgType.REGISTER, ms_workerId := toU64 wk, ms_bootId := toU64 b\<rparr>"

definition shutdown_message :: Message where
  "shutdown_message = default_message\<lparr>ms_type := MsgType.SHUTDOWN\<rparr>"

section \<open>What a worker is asked and what it reports\<close>

text \<open>A job: a DISPATCH whose descriptor the worker accepts, in a frame that can be sent.\<close>

definition job :: "Message \<Rightarrow> bool" where
  "job m \<longleftrightarrow> ms_type m = MsgType.DISPATCH \<and> fst (parse (new_descriptor (ms_payload m) (ms_extra m))) \<and>
     message_fits m \<and> int (length (encodeMessage m)) \<le> kMaxFrameSize"

definition work_of :: "Message \<Rightarrow> WorkDescriptor" where
  "work_of m = snd (parse (new_descriptor (ms_payload m) (ms_extra m)))"

definition units_left :: "Message \<Rightarrow> nat" where
  "units_left m = unat (wd_total (work_of m)) - unat (wd_resumeFrom (work_of m))"

text \<open>The units the PROGRESS frames of a list report, and the results its COMPLETE frames carry.\<close>

definition units_reported :: "bytes list \<Rightarrow> nat" where
  "units_reported fs = sum_list (map (\<lambda>f. case decodeMessage f of None \<Rightarrow> 0
     | Some m \<Rightarrow> if ms_type m = MsgType.PROGRESS then unat (ms_value m) else 0) fs)"

definition completions :: "bytes list \<Rightarrow> string list" where
  "completions fs = concat (map (\<lambda>f. case decodeMessage f of None \<Rightarrow> []
     | Some m \<Rightarrow> if ms_type m = MsgType.COMPLETE then [ms_payload m] else []) fs)"

text \<open>The result of a job: the runner's results over the units that were left.\<close>

definition job_result :: "(u64 \<Rightarrow> u64 \<Rightarrow> u64) \<Rightarrow> Message \<Rightarrow> u64" where
  "job_result runner m =
     foldl (\<lambda>r u. r + runner (wd_resumeFrom (work_of m) + word_of_nat u) (wd_total (work_of m))) 0 [0..<units_left m]"

lemma job_descriptor:
  assumes "job m"
  shows "parse (new_descriptor (ms_payload m) (ms_extra m)) = (True, work_of m)"
    and "wd_chunk (work_of m) \<noteq> 0" and "wd_resumeFrom (work_of m) \<le> wd_total (work_of m)"
    and "unat (wd_total (work_of m) - wd_resumeFrom (work_of m)) = units_left m"
proof -
  let ?d = "new_descriptor (ms_payload m) (ms_extra m)"
  have parsed: "fst (parse ?d)" using assms by (simp add: job_def)
  then show "parse ?d = (True, work_of m)" by (simp add: work_of_def prod_eq_iff)
  show "wd_chunk (work_of m) \<noteq> 0" and resume: "wd_resumeFrom (work_of m) \<le> wd_total (work_of m)"
    using parsed by (auto simp: work_of_def parse_def Let_def split: if_splits option.splits)
  then show "unat (wd_total (work_of m) - wd_resumeFrom (work_of m)) = units_left m"
    by (simp add: units_left_def unat_sub word_le_nat_alt)
qed

text \<open>The frames of a job, after whatever was sent before.\<close>

lemma job_frames:
  assumes "job m"
  defines "ss \<equiv> steps (wd_chunk (work_of m)) (wd_total (work_of m) - wd_resumeFrom (work_of m)) 0"
  shows "worker_frames runner wk b m = map (\<lambda>s. encodeMessage (progress_message wk b m s)) ss @
      [encodeMessage (complete_message wk b m (job_result runner m))]"
    and "\<exists>n. on_dispatch (\<lambda>_. True) runner wk b m p =
      Inr (p\<lparr>pe_attempts := n, pe_sent := pe_sent p @ worker_frames runner wk b m\<rparr>)"
    and "sum_list (map unat ss) = units_left m"
proof -
  note d = job_descriptor [OF assms(1)]
  have dispatched: "on_dispatch (\<lambda>_. True) runner wk b m q =
      Inr (q\<lparr>pe_attempts := pe_attempts q + length ss + 1,
        pe_sent := pe_sent q @ map (\<lambda>s. encodeMessage (progress_message wk b m s)) ss @
          [encodeMessage (complete_message wk b m (job_result runner m))]\<rparr>)" for q
    using segments_all [OF d(2) _ refl, of 0 runner "progress_message wk b m" 0 q]
    by (simp add: on_dispatch_def d(1,4) ss_def send_def Let_def units_sum_def job_result_def)
  show frames: "worker_frames runner wk b m = map (\<lambda>s. encodeMessage (progress_message wk b m s)) ss @
      [encodeMessage (complete_message wk b m (job_result runner m))]"
    by (simp add: worker_frames_def dispatched idle_peer_def)
  show "\<exists>n. on_dispatch (\<lambda>_. True) runner wk b m p =
      Inr (p\<lparr>pe_attempts := n, pe_sent := pe_sent p @ worker_frames runner wk b m\<rparr>)"
    unfolding frames dispatched by auto
  show "sum_list (map unat ss) = units_left m"
    using steps_facts [OF d(2), of 0] d(4) by (simp add: ss_def)
qed

lemma job_reports:
  assumes "job m"
  shows "units_reported (worker_frames runner wk b m) = units_left m"
    and "completions (worker_frames runner wk b m) = [to_string (job_result runner m)]"
    and "\<forall>f\<in>set (worker_frames runner wk b m). int (length f) \<le> kMaxFrameSize"
proof -
  have types: "ms_type (progress_message wk b m s) = MsgType.PROGRESS" "ms_value (progress_message wk b m s) = s"
    "ms_type (complete_message wk b m v) = MsgType.COMPLETE" "ms_payload (complete_message wk b m v) = to_string v" for s v
    by (simp_all add: progress_message_def complete_message_def)
  show "units_reported (worker_frames runner wk b m) = units_left m"
    unfolding job_frames(1) [OF assms] using job_frames(3) [OF assms]
    by (simp add: units_reported_def decode_sent types comp_def)
  show "completions (worker_frames runner wk b m) = [to_string (job_result runner m)]"
    unfolding job_frames(1) [OF assms] by (simp add: completions_def decode_sent types comp_def)
  show "\<forall>f\<in>set (worker_frames runner wk b m). int (length f) \<le> kMaxFrameSize"
    unfolding job_frames(1) [OF assms] using sent_frames_short by auto
qed

section \<open>The worker's end\<close>

lemma short_frames:
  "int (length (encodeMessage (default_message\<lparr>ms_type := t, ms_workerId := i, ms_bootId := j\<rparr>))) \<le> kMaxFrameSize"
  by (simp add: encodeMessage_def default_message_def kMaxFrameSize_def put_str_def put_bool_def put_u8_def)

lemma plain_decoded:
  "decodeMessage (encodeMessage (default_message\<lparr>ms_type := t, ms_workerId := i, ms_bootId := j\<rparr>)) =
     Some (default_message\<lparr>ms_type := t, ms_workerId := i, ms_bootId := j\<rparr>)"
  using decode_encoded [of "default_message\<lparr>ms_type := t, ms_workerId := i, ms_bootId := j\<rparr>" "[]"]
  by (simp add: message_fits_def default_message_def size_fits_def)

lemma loop_jobs:
  assumes "\<forall>m\<in>set jobs. job m"
  shows "\<exists>n. worker_loop (\<lambda>_. True) runner wk b (map (\<lambda>m. Some (encodeMessage m)) jobs @ fs) p =
    worker_loop (\<lambda>_. True) runner wk b fs
      (p\<lparr>pe_attempts := n, pe_sent := pe_sent p @ concat (map (worker_frames runner wk b) jobs)\<rparr>)"
  using assms
proof (induction jobs arbitrary: p)
  case Nil
  show ?case by (intro exI [of _ "pe_attempts p"]) simp
next
  case (Cons m ms)
  then have m: "job m" by simp
  obtain n where "on_dispatch (\<lambda>_. True) runner wk b m p =
      Inr (p\<lparr>pe_attempts := n, pe_sent := pe_sent p @ worker_frames runner wk b m\<rparr>)"
    using job_frames(2) [OF m] by blast
  moreover have "decodeMessage (encodeMessage m) = Some m" "ms_type m = MsgType.DISPATCH"
    using m decode_encoded [of m "[]"] by (simp_all add: job_def)
  ultimately have "worker_loop (\<lambda>_. True) runner wk b (map (\<lambda>m. Some (encodeMessage m)) (m # ms) @ fs) p =
    worker_loop (\<lambda>_. True) runner wk b (map (\<lambda>m. Some (encodeMessage m)) ms @ fs)
      (p\<lparr>pe_attempts := n, pe_sent := pe_sent p @ worker_frames runner wk b m\<rparr>)"
    by simp
  moreover obtain n' where "worker_loop (\<lambda>_. True) runner wk b (map (\<lambda>m. Some (encodeMessage m)) ms @ fs)
      (p\<lparr>pe_attempts := n, pe_sent := pe_sent p @ worker_frames runner wk b m\<rparr>) =
    worker_loop (\<lambda>_. True) runner wk b fs
      (p\<lparr>pe_attempts := n', pe_sent := (pe_sent p @ worker_frames runner wk b m) @ concat (map (worker_frames runner wk b) ms)\<rparr>)"
    using Cons.IH [of "p\<lparr>pe_attempts := n, pe_sent := pe_sent p @ worker_frames runner wk b m\<rparr>"] Cons.prems by auto
  ultimately show ?case by auto
qed

lemma reports_append [simp]:
  "units_reported (xs @ ys) = units_reported xs + units_reported ys" "units_reported [] = 0"
  "completions (xs @ ys) = completions xs @ completions ys" "completions [] = []"
  by (simp_all add: units_reported_def completions_def)

lemma jobs_report:
  assumes "\<forall>m\<in>set jobs. job m"
  shows "units_reported (concat (map (worker_frames runner wk b) jobs)) = sum_list (map units_left jobs)"
    and "completions (concat (map (worker_frames runner wk b) jobs)) = map (\<lambda>m. to_string (job_result runner m)) jobs"
    and "\<forall>f\<in>set (concat (map (worker_frames runner wk b) jobs)). int (length f) \<le> kMaxFrameSize"
  using assms by (induction jobs) (auto simp: job_reports)

lemma session_run:
  assumes "\<forall>m\<in>set jobs. job m"
  shows "fst (runWorker (\<lambda>_. True) runner wk b \<lparr>pe_inbox = map (\<lambda>m. Some (encodeMessage m))
      (register_message wk' b' # jobs @ [shutdown_message]), pe_sent = [], pe_attempts = 0\<rparr>) = Some (Returns 0)"
    and "pe_sent (snd (runWorker (\<lambda>_. True) runner wk b \<lparr>pe_inbox = map (\<lambda>m. Some (encodeMessage m))
      (register_message wk' b' # jobs @ [shutdown_message]), pe_sent = [], pe_attempts = 0\<rparr>)) =
      encodeMessage (hello_message wk b) # concat (map (worker_frames runner wk b) jobs)"
proof -
  let ?last = "[Some (encodeMessage shutdown_message)]"
  let ?p = "\<lparr>pe_inbox = Some (encodeMessage (register_message wk' b')) # map (\<lambda>m. Some (encodeMessage m)) jobs @ ?last,
    pe_sent = [encodeMessage (hello_message wk b)], pe_attempts = 1\<rparr>"
  have reg: "decodeMessage (encodeMessage (register_message wk' b')) = Some (register_message wk' b')"
    unfolding register_message_def by (rule plain_decoded)
  have "decodeMessage (encodeMessage shutdown_message) = Some shutdown_message"
    using plain_decoded [where t = MsgType.SHUTDOWN and i = 0 and j = 0] by (simp add: shutdown_message_def default_message_def)
  moreover have "ms_type shutdown_message = MsgType.SHUTDOWN" by (simp add: shutdown_message_def)
  moreover obtain n where "worker_loop (\<lambda>_. True) runner wk b (map (\<lambda>m. Some (encodeMessage m)) jobs @ ?last) ?p =
      worker_loop (\<lambda>_. True) runner wk b ?last
        (?p\<lparr>pe_attempts := n, pe_sent := pe_sent ?p @ concat (map (worker_frames runner wk b) jobs)\<rparr>)"
    using loop_jobs [OF assms] by blast
  ultimately have loop: "worker_loop (\<lambda>_. True) runner wk b (map (\<lambda>m. Some (encodeMessage m)) jobs @ ?last) ?p =
      (Some (Returns 0), ?p\<lparr>pe_attempts := n, pe_inbox := [],
        pe_sent := encodeMessage (hello_message wk b) # concat (map (worker_frames runner wk b) jobs)\<rparr>)"
    by simp
  show "fst (runWorker (\<lambda>_. True) runner wk b \<lparr>pe_inbox = map (\<lambda>m. Some (encodeMessage m))
      (register_message wk' b' # jobs @ [shutdown_message]), pe_sent = [], pe_attempts = 0\<rparr>) = Some (Returns 0)"
    "pe_sent (snd (runWorker (\<lambda>_. True) runner wk b \<lparr>pe_inbox = map (\<lambda>m. Some (encodeMessage m))
      (register_message wk' b' # jobs @ [shutdown_message]), pe_sent = [], pe_attempts = 0\<rparr>)) =
      encodeMessage (hello_message wk b) # concat (map (worker_frames runner wk b) jobs)"
    using loop by (simp_all add: runWorker_def send_def hello_message_def [symmetric] reg)
qed

section \<open>The session\<close>

text \<open>
  C27. A session with a worker, from its start to its end. The coordinator acknowledges the
  registration, dispatches any jobs whose descriptors the worker accepts, and shuts the worker
  down; both streams of bytes are cut into segments arbitrarily. Then the worker ends and returns
  0; the coordinator registers the worker under the identity and boot it announced, with the
  acknowledgement the worker waits for; and in the order of the jobs it is sent, for each of them, positive durable increments that
  add up to exactly the units left, and one completion with the runner's results over exactly these units.
\<close>

theorem worker_session:
  assumes "\<forall>m\<in>set jobs. job m"
    and "fs = map encodeMessage (register_message wk b # jobs @ [shutdown_message])"
    and "concat downstream = concat (map framed fs)"
    and "r = runWorker (\<lambda>_. True) runner wk b
      \<lparr>pe_inbox = map Some (receive_frames (length fs) polling (arrivals downstream)), pe_sent = [], pe_attempts = 0\<rparr>"
    and "concat upstream = concat (map framed (pe_sent (snd r)))"
    and "got = receive_frames (length (pe_sent (snd r))) polling' (arrivals upstream)"
  shows "fst r = Some (Returns 0) \<and>
    got = encodeMessage (hello_message wk b) # concat (map (worker_frames runner wk b) jobs) \<and>
    units_reported got = sum_list (map units_left jobs) \<and>
    completions got = map (\<lambda>m. to_string (job_result runner m)) jobs \<and>
    (\<exists>p. registerWorker (\<lambda>_. True) outs \<lparr>pe_inbox = map Some got, pe_sent = [], pe_attempts = 0\<rparr> =
       (True, (toU64 wk, toU64 b), p) \<and> pe_sent p = [hd fs])"
proof -
  have hello: "decodeMessage (encodeMessage (hello_message wk b)) = Some (hello_message wk b)"
    unfolding hello_message_def by (rule plain_decoded)
  have "\<forall>f\<in>set fs. int (length f) \<le> kMaxFrameSize"
    using assms(1) short_frames [where t = MsgType.SHUTDOWN and i = 0 and j = 0] short_frames [where t = MsgType.REGISTER and i = "toU64 wk" and j = "toU64 b"]
    by (auto simp: assms(2) job_def register_message_def shutdown_message_def default_message_def)
  then have "receive_frames (length fs) polling (arrivals downstream) = fs"
    using received_frames [of downstream fs "[]" polling] assms(3) by simp
  then have r: "r = runWorker (\<lambda>_. True) runner wk b \<lparr>pe_inbox = map (\<lambda>m. Some (encodeMessage m))
      (register_message wk b # jobs @ [shutdown_message]), pe_sent = [], pe_attempts = 0\<rparr>"
    by (simp add: assms(4) assms(2) comp_def)
  note run = session_run [OF assms(1), of runner wk b wk b, folded r]
  have "\<forall>f\<in>set (pe_sent (snd r)). int (length f) \<le> kMaxFrameSize"
    using jobs_report(3) [OF assms(1)] short_frames [where t = MsgType.HELLO and i = "toU64 wk" and j = "toU64 b"]
    by (simp add: run(2) hello_message_def)
  then have got: "got = encodeMessage (hello_message wk b) # concat (map (worker_frames runner wk b) jobs)"
    using received_frames [of upstream "pe_sent (snd r)" "[]" polling'] assms(5) by (simp add: assms(6) run(2))
  have "units_reported [encodeMessage (hello_message wk b)] = 0" "completions [encodeMessage (hello_message wk b)] = []"
    by (simp_all add: units_reported_def completions_def hello, simp_all add: hello_message_def)
  then have "units_reported got = sum_list (map units_left jobs)"
    "completions got = map (\<lambda>m. to_string (job_result runner m)) jobs"
    using jobs_report [OF assms(1)] reports_append(1,3) [of "[encodeMessage (hello_message wk b)]"] by (simp_all add: got)
  moreover have "\<exists>p. registerWorker (\<lambda>_. True) outs \<lparr>pe_inbox = map Some got, pe_sent = [], pe_attempts = 0\<rparr> =
       (True, (toU64 wk, toU64 b), p) \<and> pe_sent p = [hd fs]"
    by (simp add: registerWorker_def readMsg_def sendMsg_def send_def got hello assms(2))
      (simp add: hello_message_def register_message_def)
  ultimately show ?thesis using run(1) got by blast
qed

text \<open>Two jobs, one of them resumed; the bytes arrive one frame at a time.\<close>

definition session_jobs :: "Message list" where
  "session_jobs = [default_message\<lparr>ms_type := MsgType.DISPATCH, ms_payload := ''32:0:8'', ms_extra := ''job-A''\<rparr>,
     default_message\<lparr>ms_type := MsgType.DISPATCH, ms_payload := ''32:16:8'', ms_extra := ''job-B''\<rparr>]"

theorem worker_session_witness:
  "let fs = map encodeMessage (register_message (UniqueValue 5) (UniqueValue 50) # session_jobs @ [shutdown_message]);
      r = runWorker (\<lambda>_. True) cpuReferenceSegment (UniqueValue 5) (UniqueValue 50)
        \<lparr>pe_inbox = map Some (receive_frames (length fs) False (arrivals (map framed fs))), pe_sent = [], pe_attempts = 0\<rparr>;
      got = receive_frames (length (pe_sent (snd r))) True (arrivals (map framed (pe_sent (snd r))))
    in fst r = Some (Returns 0) \<and> units_reported got = 48"
proof -
  have jobs: "\<forall>m\<in>set session_jobs. job m"
  proof -
    have "list_all job session_jobs" by code_simp
    then show ?thesis by (simp add: list_all_iff)
  qed
  have "int (sum_list (map units_left session_jobs)) = 48" by code_simp
  then have "sum_list (map units_left session_jobs) = 48" by simp
  with worker_session [OF jobs refl refl refl refl refl] show ?thesis
    unfolding Let_def by metis
qed

end
