(* ===== verification/Sockets.thy ===== *)
theory Sockets
  imports Text
begin

text \<open>
  The endpoints of the transport (\<open>transport_win.cpp\<close>): starting the socket library once, the
  listener, accepting and connecting peers, and closing them. The calls of the socket library are
  the environment: a record of their answers. What is proved is that every path of the code,
  failures included, closes what it has opened.
\<close>

section \<open>The socket library\<close>

type_synonym socket = u64

text \<open>
  The answers to the calls of one operation, as functions of what the code passes: \<open>None\<close> is
  \<open>INVALID_SOCKET\<close>, an error of \<open>getsockname\<close>, and so on. \<open>ne_select\<close> is the number of ready
  sockets for a timeout in milliseconds, negative for an error; options of a socket
  (\<open>setsockopt\<close>, \<open>ioctlsocket\<close>), whose results the code ignores, are left out.
\<close>

record net_env =
  ne_startup :: bool
  ne_socket :: "socket option"
  ne_pton :: "string \<Rightarrow> bool"
  ne_bind :: "string \<Rightarrow> u16 \<Rightarrow> bool"
  ne_listen :: bool
  ne_sockname :: "u16 option"
  ne_select :: "int \<Rightarrow> int"
  ne_accept :: "(socket \<times> u16) option"
  ne_connect :: "string \<Rightarrow> u16 \<Rightarrow> bool"
  ne_so_error :: int

record net =
  nt_called :: bool \<comment> \<open>\<open>g_wsaFlag\<close>\<close>
  nt_ready :: bool \<comment> \<open>\<open>g_wsaReady\<close>\<close>
  nt_open :: "socket set" \<comment> \<open>the sockets of the process that are open\<close>

definition ensureWsa :: "net_env \<Rightarrow> net \<Rightarrow> net" where
  "ensureWsa env s =
     (if nt_called s then s
      else if ne_startup env then s\<lparr>nt_called := True, nt_ready := True\<rparr> else s\<lparr>nt_called := True\<rparr>)"

definition transportShutdown :: "net \<Rightarrow> net" where
  "transportShutdown s = (if nt_ready s then s\<lparr>nt_ready := False\<rparr> else s)"

definition open_socket :: "socket \<Rightarrow> net \<Rightarrow> net" where
  "open_socket h s = s\<lparr>nt_open := insert h (nt_open s)\<rparr>"

definition closesocket :: "socket \<Rightarrow> net \<Rightarrow> net" where
  "closesocket h s = s\<lparr>nt_open := nt_open s - {h}\<rparr>"

section \<open>Peers\<close>

record TcpPeer =
  tp_sock :: "socket option"
  tp_desc :: string

definition peer_close :: "TcpPeer \<Rightarrow> net \<Rightarrow> TcpPeer \<times> net" where
  "peer_close p s =
     (case tp_sock p of None \<Rightarrow> (p, s) | Some h \<Rightarrow> (p\<lparr>tp_sock := None\<rparr>, closesocket h s))"

definition peer_describe :: "TcpPeer \<Rightarrow> string" where
  "peer_describe p = ''tcp:'' @ tp_desc p"

definition connectTcpPeer :: "string \<Rightarrow> u16 \<Rightarrow> int \<Rightarrow> net_env \<Rightarrow> net \<Rightarrow> TcpPeer option \<times> net" where
  "connectTcpPeer address port connectTimeoutMs env s =
     (let s = ensureWsa env s
      in case ne_socket env of
           None \<Rightarrow> (None, s)
         | Some h \<Rightarrow>
             let s = open_socket h s;
                 peer = \<lparr>tp_sock = Some h, tp_desc = to_string port\<rparr>
             in if \<not> ne_pton env address then (None, closesocket h s)
                else if \<not> ne_connect env address port then
                  if ne_select env connectTimeoutMs \<le> 0 then (None, closesocket h s)
                  else if ne_so_error env \<noteq> 0 then (None, closesocket h s)
                  else (Some peer, s)
                else (Some peer, s))"

section \<open>Listeners\<close>

record TcpListener =
  tl_listen :: "socket option"
  tl_port :: u16

definition new_listener :: TcpListener where
  "new_listener = \<lparr>tl_listen = None, tl_port = 0\<rparr>"

definition listener_close :: "TcpListener \<Rightarrow> net \<Rightarrow> TcpListener \<times> net" where
  "listener_close l s =
     (case tl_listen l of None \<Rightarrow> (l, s) | Some h \<Rightarrow> (l\<lparr>tl_listen := None\<rparr>, closesocket h s))"

definition listener_bind :: "string \<Rightarrow> u16 \<Rightarrow> net_env \<Rightarrow> TcpListener \<Rightarrow> net \<Rightarrow> bool \<times> TcpListener \<times> net" where
  "listener_bind address port env l s =
     (let s = ensureWsa env s
      in case ne_socket env of
           None \<Rightarrow> (False, l\<lparr>tl_listen := None\<rparr>, s)
         | Some h \<Rightarrow>
             let l = l\<lparr>tl_listen := Some h\<rparr>;
                 s = open_socket h s
             in if \<not> ne_pton env address then (False, l, s)
                else if \<not> ne_bind env address port then (False, l, s)
                else if \<not> ne_listen env then (False, l, s)
                else (True, (case ne_sockname env of Some p \<Rightarrow> l\<lparr>tl_port := p\<rparr> | None \<Rightarrow> l), s))"

definition boundPort :: "TcpListener \<Rightarrow> u16" where
  "boundPort l = tl_port l"

definition listener_describe :: "TcpListener \<Rightarrow> string" where
  "listener_describe l = ''tcp:127.0.0.1:'' @ to_string (tl_port l)"

text \<open>A listener that could not be bound is deleted, which closes it.\<close>

definition createTcpListener :: "u16 \<Rightarrow> net_env \<Rightarrow> net \<Rightarrow> TcpListener option \<times> net" where
  "createTcpListener port env s =
     (let s = ensureWsa env s
      in case listener_bind ''127.0.0.1'' port env new_listener s of
           (ok, l, s1) \<Rightarrow> if \<not> ok then (None, snd (listener_close l s1)) else (Some l, s1))"

definition listener_accept :: "int \<Rightarrow> net_env \<Rightarrow> net \<Rightarrow> TcpPeer option \<times> net" where
  "listener_accept timeoutMs env s =
     (if timeoutMs \<ge> 0 \<and> ne_select env timeoutMs \<le> 0 then (None, s)
      else case ne_accept env of
             None \<Rightarrow> (None, s)
           | Some (h, port) \<Rightarrow>
               (Some \<lparr>tp_sock = Some h, tp_desc = to_string port\<rparr>, open_socket h s))"

section \<open>Ownership\<close>

text \<open>
  An operation that hands out the owner of a socket. \<open>fresh\<close> is what the library documents: a
  new socket is none of the open ones.
\<close>

definition fresh :: "net_env \<Rightarrow> net \<Rightarrow> bool" where
  "fresh env s \<longleftrightarrow> (\<forall>h. ne_socket env = Some h \<longrightarrow> h \<notin> nt_open s) \<and>
     (\<forall>h port. ne_accept env = Some (h, port) \<longrightarrow> h \<notin> nt_open s)"

locale socket_owner =
  fixes acquire :: "net_env \<Rightarrow> net \<Rightarrow> 'o option \<times> net"
    and close :: "'o \<Rightarrow> net \<Rightarrow> 'o \<times> net"
    and sock :: "'o \<Rightarrow> socket option"
  assumes refused: "fresh env s \<Longrightarrow> fst (acquire env s) = None \<Longrightarrow> nt_open (snd (acquire env s)) = nt_open s"
    and acquired: "fresh env s \<Longrightarrow> fst (acquire env s) = Some x \<Longrightarrow>
      \<exists>h. sock x = Some h \<and> h \<notin> nt_open s \<and> nt_open (snd (acquire env s)) = insert h (nt_open s)"
    and closed: "sock x = Some h \<Longrightarrow> nt_open (snd (close x s)) = nt_open s - {h}"
    and no_longer_owner: "sock (fst (close x s)) = None"
    and closed_already: "sock x = None \<Longrightarrow> close x s = (x, s)"
begin

lemma close_twice: "close (fst (close x s)) (snd (close x s)) = close x s"
  by (simp add: closed_already no_longer_owner)

lemma balanced:
  assumes "fresh env s"
  shows "case acquire env s of
      (None, s') \<Rightarrow> nt_open s' = nt_open s
    | (Some x, s') \<Rightarrow> (\<exists>h. sock x = Some h \<and> h \<notin> nt_open s \<and> nt_open s' = insert h (nt_open s)) \<and>
        nt_open (snd (close x s')) = nt_open s \<and> close (fst (close x s')) (snd (close x s')) = close x s'"
proof (cases "fst (acquire env s)")
  case None
  with refused [OF assms] show ?thesis by (simp add: case_prod_unfold)
next
  case (Some x)
  from acquired [OF assms this] obtain h where h: "sock x = Some h" "h \<notin> nt_open s"
      "nt_open (snd (acquire env s)) = insert h (nt_open s)"
    by blast
  then have "nt_open (snd (close x (snd (acquire env s)))) = nt_open s" by (simp add: closed)
  with h Some show ?thesis by (simp add: case_prod_unfold close_twice)
qed

end

lemmas net_defs = ensureWsa_def open_socket_def closesocket_def fresh_def Let_def

lemma ensureWsa_open [simp]: "nt_open (ensureWsa env s) = nt_open s"
  by (simp add: ensureWsa_def)

interpretation connected: socket_owner "connectTcpPeer address port timeoutMs" peer_close tp_sock
  for address port timeoutMs
  by unfold_locales
    (auto simp: connectTcpPeer_def peer_close_def open_socket_def closesocket_def fresh_def Let_def
      split: option.splits if_splits)

interpretation accepted: socket_owner "listener_accept timeoutMs" peer_close tp_sock for timeoutMs
  by unfold_locales
    (auto simp: listener_accept_def peer_close_def open_socket_def closesocket_def fresh_def
      split: option.splits if_splits)

interpretation listening: socket_owner "createTcpListener port" listener_close tl_listen for port
  by unfold_locales
    (auto simp: createTcpListener_def listener_bind_def new_listener_def listener_close_def open_socket_def
      closesocket_def fresh_def Let_def split: option.splits if_splits)

text \<open>
  C30. However the calls of the socket library end, creating a listener, accepting a peer and
  connecting one either fail and leave no socket open that was not open before, or hand out an
  owner of exactly one new socket; closing the owner closes that socket and no other, and closing
  it again does nothing.
\<close>

theorem sockets_not_leaked:
  assumes "fresh env s"
  shows "(case createTcpListener listenPort env s of
      (None, s') \<Rightarrow> nt_open s' = nt_open s
    | (Some l, s') \<Rightarrow> (\<exists>h. tl_listen l = Some h \<and> h \<notin> nt_open s \<and> nt_open s' = insert h (nt_open s)) \<and>
        nt_open (snd (listener_close l s')) = nt_open s \<and>
        listener_close (fst (listener_close l s')) (snd (listener_close l s')) = listener_close l s') \<and>
    (case listener_accept timeoutMs env s of
      (None, s') \<Rightarrow> nt_open s' = nt_open s
    | (Some p, s') \<Rightarrow> (\<exists>h. tp_sock p = Some h \<and> h \<notin> nt_open s \<and> nt_open s' = insert h (nt_open s)) \<and>
        nt_open (snd (peer_close p s')) = nt_open s \<and>
        peer_close (fst (peer_close p s')) (snd (peer_close p s')) = peer_close p s') \<and>
    (case connectTcpPeer address port connectTimeoutMs env s of
      (None, s') \<Rightarrow> nt_open s' = nt_open s
    | (Some p, s') \<Rightarrow> (\<exists>h. tp_sock p = Some h \<and> h \<notin> nt_open s \<and> nt_open s' = insert h (nt_open s)) \<and>
        nt_open (snd (peer_close p s')) = nt_open s \<and>
        peer_close (fst (peer_close p s')) (snd (peer_close p s')) = peer_close p s')"
  using listening.balanced [OF assms, of listenPort] accepted.balanced [OF assms, of timeoutMs]
    connected.balanced [OF assms, of address port connectTimeoutMs]
  by (intro conjI)

text \<open>A refused connection on a process that has two sockets open.\<close>

definition sample_env :: net_env where
  "sample_env = \<lparr>ne_startup = True, ne_socket = Some 3, ne_pton = (\<lambda>a. a = ''127.0.0.1''), ne_bind = (\<lambda>a p. False), ne_listen = True,
     ne_sockname = None, ne_select = (\<lambda>t. 0), ne_accept = Some (4, 80), ne_connect = (\<lambda>a p. False), ne_so_error = 0\<rparr>"

definition sample_net :: net where
  "sample_net = \<lparr>nt_called = False, nt_ready = False, nt_open = {1, 2}\<rparr>"

theorem sockets_not_leaked_witness:
  "nt_open (snd (createTcpListener 80 sample_env sample_net)) = {1, 2} \<and>
   nt_open (snd (connectTcpPeer ''127.0.0.1'' 80 100 sample_env sample_net)) = {1, 2}"
proof -
  have "fresh sample_env sample_net" by (simp add: fresh_def sample_env_def sample_net_def)
  moreover have "fst (createTcpListener 80 sample_env sample_net) = None"
    "fst (connectTcpPeer ''127.0.0.1'' 80 100 sample_env sample_net) = None"
    by (simp_all add: createTcpListener_def listener_bind_def connectTcpPeer_def sample_env_def Let_def)
  ultimately show ?thesis
    using sockets_not_leaked [of sample_env sample_net 80 0 "''127.0.0.1''" 80 100]
    by (simp add: case_prod_unfold sample_net_def)
qed

text \<open>The library is started at most once: after a shutdown nothing starts it again.\<close>

lemma shutdown_is_permanent:
  "nt_called s \<Longrightarrow> \<not> nt_ready (ensureWsa env (transportShutdown s)) \<and>
   transportShutdown (transportShutdown s) = transportShutdown s"
  by (simp add: ensureWsa_def transportShutdown_def)

text \<open>A second bind forgets the socket of the first, which then stays open for good.\<close>

lemma second_bind_leaks:
  assumes "tl_listen l = Some old" and "ne_socket env = Some h" and "h \<noteq> old" and "old \<in> nt_open s"
  shows "case listener_bind address port env l s of (ok, l1, s1) \<Rightarrow>
    tl_listen l1 = Some h \<and> old \<in> nt_open (snd (listener_close l1 s1))"
  using assms by (auto simp: listener_bind_def listener_close_def open_socket_def closesocket_def Let_def split: option.splits)

end
