(* ===== verification/Expected.thy ===== *)
theory Expected
  imports Prelude
begin

text \<open>
  The result type of \<open>detail/expected.hpp\<close>: a value or an error, with accessors that throw
  \<open>BadExpectedAccess\<close> for the alternative that is not there.
\<close>

datatype ('t, 'e) expected = Value 't | Error 'e

datatype exception = BadExpectedAccess string

definition has_value :: "('t, 'e) expected \<Rightarrow> bool" where
  "has_value x = (case x of Value v \<Rightarrow> True | Error e \<Rightarrow> False)"

definition index :: "('t, 'e) expected \<Rightarrow> nat" where
  "index x = (case x of Value v \<Rightarrow> 0 | Error e \<Rightarrow> 1)"

definition unchecked_access :: "nat \<Rightarrow> ('t, 'e) expected \<Rightarrow> exception + unit" where
  "unchecked_access want x =
     (if index x \<noteq> want then Inl (BadExpectedAccess ''expected: accessed wrong alternative'') else Inr ())"

definition value_at :: "('t, 'e) expected \<Rightarrow> exception + 't" where
  "value_at x =
     (case unchecked_access 0 x of
        Inl ex \<Rightarrow> Inl ex
      | Inr _ \<Rightarrow> (case x of Value v \<Rightarrow> Inr v | Error e \<Rightarrow> Inl (BadExpectedAccess [])))"

definition error_at :: "('t, 'e) expected \<Rightarrow> exception + 'e" where
  "error_at x =
     (case unchecked_access 1 x of
        Inl ex \<Rightarrow> Inl ex
      | Inr _ \<Rightarrow> (case x of Error e \<Rightarrow> Inr e | Value v \<Rightarrow> Inl (BadExpectedAccess [])))"

definition value_or :: "'t \<Rightarrow> ('t, 'e) expected \<Rightarrow> exception + 't" where
  "value_or dflt x = (if has_value x then value_at x else Inr dflt)"

lemma value_at_cases:
  "value_at (Value v) = Inr v"
  "value_at (Error e) = Inl (BadExpectedAccess ''expected: accessed wrong alternative'')"
  by (simp_all add: value_at_def unchecked_access_def index_def)

lemma error_at_cases:
  "error_at (Error e) = Inr e"
  "error_at (Value v) = Inl (BadExpectedAccess ''expected: accessed wrong alternative'')"
  by (simp_all add: error_at_def unchecked_access_def index_def)

text \<open>Exactly one of the two accessors succeeds, and \<open>value_or\<close> never throws.\<close>

lemma one_alternative: "isl (value_at x) \<longleftrightarrow> \<not> isl (error_at x)"
  by (cases x) (simp_all add: value_at_cases error_at_cases)

lemma value_or_total: "value_or d x = Inr (case x of Value v \<Rightarrow> v | Error e \<Rightarrow> d)"
  by (cases x) (simp_all add: value_or_def has_value_def value_at_cases)

end
