(* ===== verification/Tools.thy ===== *)
theory Tools
  imports Explain Stores Sockets Worker
begin

text \<open>
  The command line programs: \<open>wf_inspect\<close>, which prints a stored record
  (\<open>tools/wf_inspect.cpp\<close>), the worker process (\<open>tools/worker_main.cpp\<close>), and the walk through a
  lifecycle in \<open>examples/basic_usage.cpp\<close>. What a program prints is the list of its lines.
\<close>

section \<open>Text\<close>

text \<open>A string given to \<open>%s\<close> by \<open>c_str()\<close> ends at its first NUL character.\<close>

definition c_str :: "string \<Rightarrow> string" where
  "c_str s = takeWhile (\<lambda>c. c \<noteq> CHR 0x00) s"

definition signed_text :: "int \<Rightarrow> string" where
  "signed_text n = (if n < 0 then ''-'' @ decimal (nat (- n)) else decimal (nat n))"

definition size_text :: "'a list \<Rightarrow> string" where
  "size_text xs = decimal (length xs)"

definition id_text :: "'tag unique_value \<Rightarrow> string" where
  "id_text i = to_string (toU64 i)"

section \<open>wf_inspect\<close>

text \<open>
  \<open>percent\<close> is present if the total is known and not zero; its value is the quotient of the two
  counters as doubles, whose arithmetic is the parameter \<open>fdiv\<close>.
\<close>

definition percent :: "(u64 \<Rightarrow> u64 \<Rightarrow> f64) \<Rightarrow> Progress \<Rightarrow> f64 option" where
  "percent fdiv p =
     (if pg_totalKind p \<noteq> TotalKind.KNOWN \<or> pg_total p = 0 then None else Some (fdiv (pg_completed p) (pg_total p)))"

definition episode_line :: "nat \<Rightarrow> Episode \<Rightarrow> string" where
  "episode_line i e =
     ''    ['' @ decimal i @ ''] id='' @ id_text (ep_id e) @ '' gen='' @ id_text (ep_generation e) @
     '' state='' @ episodeStateName (ep_state e) @ '' auth='' @ (if ep_authoritative e then ''1'' else ''0'') @
     '' worker='' @ id_text (ep_worker e) @ ''/boot='' @ id_text (ep_boot e)"

definition history_line :: "TransitionRecord \<Rightarrow> string" where
  "history_line h =
     ''    '' @ workloadStateName (tr_from h) @ '' -> '' @ workloadStateName (tr_to h) @
     '' ['' @ outcomeName (tr_outcome h) @ ''] '' @ c_str (tr_reason h)"

definition why_line :: "string \<Rightarrow> Explanation \<Rightarrow> string" where
  "why_line label ex =
     label @ outcomeName (ex_outcome ex) @ (if ex_detail ex = [] then [] else c_str ('': '' @ ex_detail ex))"

definition inspect_report :: "(u64 \<Rightarrow> u64 \<Rightarrow> f64) \<Rightarrow> Workload \<Rightarrow> string list" where
  "inspect_report fdiv w =
     [''Workload '' @ id_text (wl_id w) @ '' '' @ [CHR 0x27] @ c_str (wl_name w) @ [CHR 0x27],
      ''  state          = '' @ workloadStateName (wl_state w),
      ''  generation     = '' @ id_text (wl_generation w),
      ''  revision       = '' @ id_text (wl_revision w),
      ''  coordinatorEp  = '' @ id_text (wl_epoch w),
      ''  progress       = '' @ to_string (pg_completed (wl_progress w)) @ ''/'' @ to_string (pg_total (wl_progress w)) @
        '' ('' @ (if percent fdiv (wl_progress w) \<noteq> None then ''known'' else ''unknown-total'') @ '')'',
      ''  restartCount   = '' @ to_string (wl_restartCount w) @ '' (max '' @
        to_string (rp_maxRestarts (po_restart (wl_policy w))) @ '')'',
      ''  contractGen    = '' @ id_text (rc_generation (wl_contract w)) @ '' (grant='' @
        grantStatusName (rg_status (rc_grant (wl_contract w))) @ '')'',
      ''  priority       = base '' @ signed_text (sint (pr_baseValue (wl_priority w))) @ '' + promo '' @
        signed_text (sint (pr_promotion (wl_priority w))),
      ''  episodes       = '' @ size_text (wl_episodes w)] @
     map (\<lambda>(i, e). episode_line i e) (enumerate 0 (wl_episodes w)) @
     [''  history        = '' @ size_text (wl_history w) @ '' transitions''] @
     map history_line (wl_history w) @
     [why_line ''  why-blocked    = '' (explainBlocked w),
      why_line ''  why-restart    = '' (explainRestartAllowed w)]"

text \<open>
  The exit status and the lines on the standard output; \<open>None\<close> if decoding terminates the process.
  \<open>open_file\<close> is the file system: the content of a file that can be opened and what \<open>ftell\<close> says
  of its length, negative for an error.
\<close>

definition wf_inspect ::
  "arg_order \<Rightarrow> arg_order \<Rightarrow> (u64 \<Rightarrow> u64 \<Rightarrow> f64) \<Rightarrow> (string \<Rightarrow> (bytes \<times> int) option) \<Rightarrow> string list \<Rightarrow> (int \<times> string list) option" where
  "wf_inspect oc od fdiv open_file argv =
     (if length argv < 2 then Some (2, [])
      else case open_file (argv ! 1) of
        None \<Rightarrow> Some (1, [])
      | Some (content, sz) \<Rightarrow>
          if sz < 0 then Some (1, [])
          else case decodeWorkload oc od (take (nat sz) content) of
            None \<Rightarrow> None
          | Some (status, w) \<Rightarrow>
              if status \<noteq> Outcome.ALLOW then Some (1, [''decode failed: '' @ outcomeName status])
              else Some (0, inspect_report fdiv w))"

text \<open>
  Pointed at the file of a saved workload, the inspection tool succeeds and prints the report of
  that very workload: what the codec drops or the file adds is not visible in it.
\<close>

theorem inspect_reports_saved:
  assumes "storable w" and "open_file path = Some (encodeWorkload w, int (length (encodeWorkload w)))"
  shows "wf_inspect Left_to_right Left_to_right fdiv open_file [program, path] = Some (0, inspect_report fdiv w)"
proof -
  have "inspect_report fdiv (restored Left_to_right Left_to_right w) = inspect_report fdiv w"
    by (simp add: restored_def contract_read_def deps_read_def inspect_report_def explainBlocked_def
        explainRestartAllowed_def)
  then show ?thesis using assms by (simp add: wf_inspect_def decode_storable)
qed

theorem inspect_reports_saved_witness:
  "wf_inspect Left_to_right Left_to_right (\<lambda>a b. F64 0)
     (\<lambda>path. Some (encodeWorkload sample_running, int (length (encodeWorkload sample_running)))) [''wf_inspect'', ''7.wf''] =
   Some (0, inspect_report (\<lambda>a b. F64 0) sample_running)"
  by (rule inspect_reports_saved) (simp_all add: storable_def sample_running_fits)

lemma inspect_sample: "take 3 (inspect_report (\<lambda>a b. F64 0) sample_running) =
  [''Workload 7 '' @ [CHR 0x27] @ ''w'' @ [CHR 0x27], ''  state          = RUNNING'', ''  generation     = 2'']"
  by code_simp

text \<open>No arguments, a file that cannot be opened and a record that is rejected have their own endings.\<close>

lemma inspect_errors:
  "wf_inspect oc od fdiv open_file [program] = Some (2, [])"
  "open_file path = None \<Longrightarrow> wf_inspect oc od fdiv open_file (program # path # args) = Some (1, [])"
  "open_file path = Some (content, int (length content)) \<Longrightarrow> decodeWorkload oc od content = Some (st, w) \<Longrightarrow>
    st \<noteq> Outcome.ALLOW \<Longrightarrow>
    wf_inspect oc od fdiv open_file (program # path # args) = Some (1, [''decode failed: '' @ outcomeName st])"
  by (simp_all add: wf_inspect_def)

section \<open>The worker process\<close>

text \<open>\<open>std::atoi\<close>: 0 without digits; beyond the range of \<open>int\<close> it is undefined (\<open>None\<close>).\<close>

definition atoi :: "string \<Rightarrow> int option" where
  "atoi s =
     (let t = dropWhile is_space s;
          u = (if t \<noteq> [] \<and> (hd t = CHR ''-'' \<or> hd t = CHR ''+'') then tl t else t);
          v = horner (takeWhile is_digit u);
          n = (if t \<noteq> [] \<and> hd t = CHR ''-'' then - v else v)
      in if n < - (2 ^ 31) \<or> n \<ge> 2 ^ 31 then None else Some n)"

fun scan_port :: "string list \<Rightarrow> u16 \<Rightarrow> u16 option" where
  "scan_port (a # b # rest) port =
     (if a = ''--port'' then (case atoi b of None \<Rightarrow> None | Some n \<Rightarrow> scan_port (b # rest) (word_of_int n))
      else scan_port (b # rest) port)"
| "scan_port _ port = Some port"

text \<open>How the process ends: \<open>Ends None\<close> is a worker that waits for a frame.\<close>

datatype process = Undefined_behaviour | Ends "worker_exit option"

definition worker_main ::
  "string list \<Rightarrow> net_env \<Rightarrow> u64 \<Rightarrow> u64 \<Rightarrow> (nat \<Rightarrow> bool) \<Rightarrow> bytes option list \<Rightarrow> net \<Rightarrow> process \<times> net" where
  "worker_main argv env now pid ok inbox s =
     (case scan_port (tl argv) 0 of
        None \<Rightarrow> (Undefined_behaviour, s)
      | Some port \<Rightarrow>
          if port = 0 then (Ends (Some (Returns 1)), s)
          else case connectTcpPeer ''127.0.0.1'' port 5000 env s of
            (None, s1) \<Rightarrow> (Ends (Some (Returns 1)), s1)
          | (Some p, s1) \<Rightarrow>
              let w = fst (freshWorkerId 1000);
                  b = fst (freshBootId now pid 1);
                  rc = fst (runWorker ok cpuReferenceSegment w b \<lparr>pe_inbox = inbox, pe_sent = [], pe_attempts = 0\<rparr>)
              in (Ends rc, case rc of Some (Returns n) \<Rightarrow> snd (peer_close p s1) | _ \<Rightarrow> s1))"

text \<open>
  The port is taken modulo \<open>2 ^ 16\<close>: the worker connects to another port than the one it was given.
\<close>

lemma port_wraps: "scan_port [''--port'', ''65616''] 0 = Some 80"
  by code_simp

text \<open>A worker that returns has closed its connection, whatever status it returns.\<close>

lemma worker_closes:
  assumes "fresh env s" and "fst (worker_main argv env now pid ok inbox s) = Ends (Some (Returns n))"
  shows "nt_open (snd (worker_main argv env now pid ok inbox s)) = nt_open s"
proof (cases "scan_port (tl argv) 0")
  case None
  with assms(2) show ?thesis by (simp add: worker_main_def)
next
  case (Some port)
  note bal = connected.balanced [OF assms(1), of "''127.0.0.1''" port 5000]
  show ?thesis
  proof (cases "connectTcpPeer ''127.0.0.1'' port 5000 env s")
    case (Pair r s1)
    with assms(2) bal Some show ?thesis
      by (cases r) (auto simp: worker_main_def Let_def split: if_splits option.splits)
  qed
qed

end
