(* ===== verification/Examples.thy ===== *)
theory Examples
  imports Tools
begin

text \<open>
  The two example programs (\<open>examples/basic_usage.cpp\<close>, \<open>examples/consumer/main.cpp\<close>), which use
  the aggregate without the engine, and what they print.
\<close>

definition example_policy :: Policy where
  "example_policy = default_policy\<lparr>
     po_restart := (po_restart default_policy)\<lparr>rp_kind := RestartKind.ALWAYS_WITH_LIMIT, rp_maxRestarts := 2\<rparr>,
     po_completion := (po_completion default_policy)\<lparr>cp_kind := CompletionKind.SINGLE_RESULT\<rparr>,
     po_migration := (po_migration default_policy)\<lparr>mp_eligibility := MigrationEligibility.CHECKPOINT_AND_RESUME\<rparr>,
     po_suspension := (po_suspension default_policy)\<lparr>sp_allowed := True\<rparr>,
     po_generation := fromU64 1\<rparr>"

definition state_line :: "Workload \<Rightarrow> string" where
  "state_line w = ''state: '' @ workloadStateName (wl_state w)"

text \<open>The double 1.0.\<close>

definition one_unit :: f64 where "one_unit = F64 0x3FF0000000000000"

text \<open>The workload with its contract, its grant and one required dependency.\<close>

definition example_start :: Workload where
  "example_start =
     (let w = (create (UniqueValue 42) ''example'' ''compute 42'')\<lparr>wl_policy := example_policy\<rparr>;
          w = w\<lparr>wl_contract := (wl_contract w)\<lparr>rc_id := UniqueValue 10\<rparr>\<rparr>;
          w = snd (on_contract (add_requirement \<lparr>rr_kind = ResourceKind.ACCELERATOR_COUNT, rr_level = NeedLevel.REQUIRED,
                 rr_minValue = one_unit, rr_maxValue = f64_zero, rr_spec = []\<rparr>) w);
          w = snd (on_contract (applyGrant \<lparr>rg_contractId = UniqueValue 10,
                 rg_contractGeneration = rc_generation (wl_contract w), rg_status = GrantStatus.GRANTED,
                 rg_bindings = [\<lparr>rb_kind = ResourceKind.ACCELERATOR_COUNT, rb_amount = one_unit, rb_qualifier = ''gpu0''\<rparr>],
                 rg_released = False\<rparr>) w)
      in w\<lparr>wl_deps := addDefForTest \<lparr>dd_dependsOn = UniqueValue 1, dd_requirement = DependencyRequirement.REQUIRED,
             dd_readyWhen = DependencyReady.COMPLETED, dd_artifactKey = []\<rparr> ((wl_deps w)\<lparr>dset_id := UniqueValue 20\<rparr>)\<rparr>)"

definition example_blocked :: Workload where
  "example_blocked =
     (let w = snd (transition WorkloadState.VALIDATING (wl_generation example_start) ''validate'' example_start)
      in snd (settle (wl_generation w) w))"

definition example_unblocked :: Workload where
  "example_unblocked =
     (let w = snd (on_deps (setStatus 0 DependencyStatus.SATISFIED (fromU64 1)) example_blocked)
      in snd (settle (wl_generation w) w))"

definition example_finished :: Workload where
  "example_finished =
     (let w = snd (startEpisode (UniqueValue 100) (UniqueValue 1) (fromU64 1) True example_unblocked);
          gen = wl_generation w;
          w = snd (admitDispatch (UniqueValue 100) (UniqueValue 1) (UniqueValue 1) w);
          w = snd (reportProgress (UniqueValue 100) (fromU64 1) 7 True w);
          w = snd (markEpisodeCompleted (UniqueValue 100) w)
      in snd (commitCompletion gen w))"

text \<open>\<open>can_open\<close>: whether the file for the record can be opened. \<open>None\<close> if decoding terminates the process.\<close>

definition basic_usage :: "arg_order \<Rightarrow> arg_order \<Rightarrow> bool \<Rightarrow> string list option" where
  "basic_usage oc od can_open =
     (let bytes = encodeWorkload example_finished
      in case decodeWorkload oc od bytes of
           None \<Rightarrow> None
         | Some (st, r) \<Rightarrow> Some (
             [state_line example_start,
              state_line example_blocked,
              ''why-blocked: '' @ outcomeName (ex_outcome (explainBlocked example_blocked)),
              state_line example_unblocked,
              state_line example_finished @ '' (progress='' @ to_string (pg_completed (wl_progress example_finished)) @ '')'',
              ''recovered: state='' @ workloadStateName (wl_state r) @ '' gen='' @ id_text (wl_generation r) @
                '' id='' @ id_text (wl_id r)] @
             (if can_open then [''persisted to wf-example-1.bin ('' @ size_text bytes @ '' bytes)''] else [])))"

definition consumer_main :: "string list" where
  "consumer_main =
     (let w = (create (UniqueValue 7) ''consumer'' ''downstream'')\<lparr>wl_policy := default_policy\<lparr>
            po_completion := (po_completion default_policy)\<lparr>cp_kind := CompletionKind.SINGLE_RESULT\<rparr>,
            po_restart := (po_restart default_policy)\<lparr>rp_kind := RestartKind.ALWAYS_WITH_LIMIT, rp_maxRestarts := 1\<rparr>,
            po_generation := fromU64 1\<rparr>\<rparr>
      in [''consumer ok: workload='' @ id_text (wl_id w) @ '' state='' @ workloadStateName (wl_state w)])"

lemma example_finished_facts:
  "storable example_finished" "wl_state example_finished = WorkloadState.COMPLETED"
  "pg_completed (wl_progress example_finished) = 7" "wl_generation example_finished = UniqueValue 2"
  "wl_id example_finished = UniqueValue 42"
  by code_simp+

text \<open>
  The example blocks on its dependency, becomes ready when it is satisfied, completes with the 7
  units it reported, and is recovered from its record in the same state; however the compiler
  orders the arguments of \<open>decode\<close>, the recovered state, generation and identity are right.
\<close>

lemma basic_usage_prints:
  "basic_usage oc od False = Some
     [''state: CREATED'', ''state: WAITING_FOR_DEPENDENCIES'', ''why-blocked: BLOCKED_DEPENDENCY'', ''state: READY'',
      ''state: COMPLETED (progress=7)'', ''recovered: state=COMPLETED gen=2 id=42'']"
proof -
  have lines: "state_line example_start = ''state: CREATED''" "state_line example_blocked = ''state: WAITING_FOR_DEPENDENCIES''"
    "outcomeName (ex_outcome (explainBlocked example_blocked)) = ''BLOCKED_DEPENDENCY''"
    "state_line example_unblocked = ''state: READY''"
    by code_simp+
  have names: "workloadStateName WorkloadState.COMPLETED = ''COMPLETED''" "to_string (7 :: u64) = ''7''"
    "id_text (UniqueValue 2 :: WorkloadGeneration) = ''2''" "id_text (UniqueValue 42 :: WorkloadId) = ''42''"
    by code_simp+
  show ?thesis
    by (simp add: basic_usage_def decode_storable example_finished_facts restored_def lines names state_line_def [of example_finished])
qed

lemma consumer_prints: "consumer_main = [''consumer ok: workload=7 state=CREATED'']"
  by code_simp

end
