(* ===== verification/Gpu.thy ===== *)
theory Gpu
  imports Prelude Complex_Main "HOL-Library.Multiset" "HOL-Library.Log_Nat" "HOL-Library.Signed_Division"
begin

text \<open>
  The device side of the CUDA proof (\<open>cuda/workload_cuda_proof.cu\<close>): the segment kernel and its
  launch, the host reference, and \<open>GpuState\<close>, which owns a device buffer and mirrors it on the
  host. The CUDA runtime is the environment: which of its calls succeed, what fresh memory holds,
  how much memory it reports free, and in which order the threads of a launch run.

  An access outside a buffer and a product that does not fit an \<open>int\<close> are undefined behaviour:
  the kernel and the host loop have the value \<open>None\<close> there. Buffer elements are rational numbers
  that every addition rounds to single precision.
\<close>

section \<open>Arithmetic\<close>

text \<open>
  The \<open>int\<close> arithmetic of C++: the result, or \<open>None\<close> when it does not fit, which is undefined
  behaviour.
\<close>

definition int32 :: "int \<Rightarrow> int option" where
  "int32 x = (if - (2 ^ 31) \<le> x \<and> x < 2 ^ 31 then Some x else None)"

text \<open>
  Rounding to single precision: to the nearest multiple of the unit of the last of 24 places, ties
  to even. The magnitudes here are far inside the exponent range, which is not modelled.
\<close>

definition round_even :: "rat \<Rightarrow> int" where
  "round_even y =
     (let f = \<lfloor>y\<rfloor>; d = y - of_int f
      in if d < 1 / 2 then f else if 1 / 2 < d then f + 1 else if even f then f else f + 1)"

definition f32 :: "rat \<Rightarrow> rat" where
  "f32 x =
     (if x = 0 then 0
      else
        let (p, q) = quotient_of x;
            e0 = bitlen \<bar>p\<bar> - bitlen q;
            e = (if 2 powi e0 \<le> \<bar>x\<bar> then e0 else e0 - 1);
            u = 2 powi (e - 23)
        in of_int (round_even (x / u)) * u)"


lemma round_even_int [simp]: "round_even (of_int m) = m"
  by (simp add: round_even_def)

text \<open>Multiples of a quarter below \<open>2 ^ 22\<close> have at most 24 significant places and are kept.\<close>

lemma f32_quarter:
  assumes "\<bar>m\<bar> < 2 ^ 24"
  shows "f32 (of_int m * (1 / 4)) = of_int m * (1 / 4)"
proof (cases "m = 0")
  case False
  let ?x = "of_int m * (1 / 4) :: rat"
  obtain p q where pq: "quotient_of ?x = (p, q)" by (cases "quotient_of ?x")
  define e0 where "e0 = bitlen \<bar>p\<bar> - bitlen q"
  define e where "e = (if 2 powi e0 \<le> \<bar>?x\<bar> then e0 else e0 - 1)"
  have x0: "?x \<noteq> 0" using False by simp
  have q: "0 < q" and x: "?x = of_int p / of_int q"
    using pq quotient_of_denom_pos quotient_of_div by blast+
  have p: "p \<noteq> 0" using x x0 by auto
  have low: "2 powi (e0 - 1) < \<bar>?x\<bar>"
  proof -
    have a: "2 ^ nat (bitlen \<bar>p\<bar> - 1) \<le> \<bar>p\<bar>" using bitlen_bounds [of "\<bar>p\<bar>"] p by simp
    have b: "q < 2 ^ nat (bitlen q)" using bitlen_bounds [of q] q by simp
    have pos: "0 < bitlen \<bar>p\<bar>" "0 < bitlen q" using p q bitlen_eq_zero_iff [of "\<bar>p\<bar>"] bitlen_nonneg [of "\<bar>p\<bar>"] bitlen_eq_zero_iff [of q] bitlen_nonneg [of q]
      by linarith+
    have "(2 :: rat) powi (e0 - 1) = 2 powi (bitlen \<bar>p\<bar> - 1) / 2 powi (bitlen q)"
      by (simp add: e0_def power_int_diff)
    also have "\<dots> = 2 ^ nat (bitlen \<bar>p\<bar> - 1) / 2 ^ nat (bitlen q)"
      using pos by (simp add: power_int_def)
    also have "\<dots> \<le> of_int \<bar>p\<bar> / 2 ^ nat (bitlen q)"
    proof (rule divide_right_mono)
      show "(2 :: rat) ^ nat (bitlen \<bar>p\<bar> - 1) \<le> of_int \<bar>p\<bar>"
        using a by (metis of_int_le_iff of_int_numeral of_int_power)
    qed simp
    also have "\<dots> < of_int \<bar>p\<bar> / of_int q"
    proof (rule divide_strict_left_mono)
      show "(of_int q :: rat) < 2 ^ nat (bitlen q)"
        using b by (metis of_int_less_iff of_int_numeral of_int_power)
    qed (use p q in simp_all)
    also have "\<dots> = \<bar>?x\<bar>" using q unfolding x abs_divide by simp
    finally show ?thesis .
  qed
  have "2 powi e \<le> \<bar>?x\<bar>" using low by (auto simp: e_def)
  moreover have "\<bar>?x\<bar> < 2 powi 22"
  proof -
    have "(of_int \<bar>m\<bar> :: rat) < 2 ^ 24" using assms by (metis of_int_less_iff of_int_numeral of_int_power)
    then show ?thesis by simp
  qed
  ultimately have "(2 :: rat) powi e < 2 powi 22" by simp
  then have "e < 22" using power_int_increasing [of 22 e "2 :: rat"] by force
  define k where "k = nat (23 - e)"
  have k: "e - 23 = - int k" "2 \<le> k" using \<open>e < 22\<close> by (simp_all add: k_def)
  have "(2 :: rat) powi (e - 23) = 1 / 2 ^ k"
    unfolding k(1) by (simp add: power_int_minus_divide)
  moreover have "?x / (1 / 2 ^ k) = of_int (m * 2 ^ (k - 2))"
  proof -
    obtain j where "k = j + 2" using k(2) by (metis add.commute le_Suc_ex)
    then show ?thesis by (simp add: power_add)
  qed
  ultimately have "round_even (?x / 2 powi (e - 23)) = m * 2 ^ (k - 2)"
    "?x = of_int (m * 2 ^ (k - 2)) * 2 powi (e - 23)"
    by (simp_all only: round_even_int) (simp add: field_simps)
  then have "of_int (round_even (?x / 2 powi (e - 23))) * 2 powi (e - 23) = ?x" by metis
  then show ?thesis
    using x0 by (simp only: f32_def pq prod.case Let_def e0_def [symmetric] e_def [symmetric] if_False)
qed (simp add: f32_def)

section \<open>The kernel and its reference\<close>

definition kBuf :: int where "kBuf = 65536"
definition kSegs :: nat where "kSegs = 8"
definition kUnits :: u64 where "kUnits = 1000"

text \<open>What a segment adds to element \<open>i\<close>; \<open>%\<close> truncates towards zero.\<close>

definition delta :: "int \<Rightarrow> int \<Rightarrow> rat option" where
  "delta i seg =
     Option.bind (int32 (seg + 1)) (\<lambda>s.
     map_option (\<lambda>p. of_int (p smod 31) * (1 / 4)) (int32 (i * s)))"

text \<open>\<open>buf[i] += \<dots>\<close>, for an index inside the buffer.\<close>

definition add_at :: "int \<Rightarrow> int \<Rightarrow> rat list \<Rightarrow> rat list option" where
  "add_at seg i buf =
     (if 0 \<le> i \<and> i < int (length buf)
      then map_option (\<lambda>d. buf[nat i := f32 (buf ! nat i + d)]) (delta i seg) else None)"

text \<open>One thread: the index is computed in \<open>unsigned int\<close> and read as an \<open>int\<close>.\<close>

definition segKernel :: "u32 \<Rightarrow> int \<Rightarrow> int \<Rightarrow> u32 \<Rightarrow> u32 \<Rightarrow> rat list \<Rightarrow> rat list option" where
  "segKernel blockDim n seg blockIdx threadIdx buf =
     (let i = sint (blockIdx * blockDim + threadIdx)
      in if i < n then add_at seg i buf else Some buf)"

primrec steps :: "('a \<Rightarrow> 'b \<Rightarrow> 'b option) \<Rightarrow> 'a list \<Rightarrow> 'b \<Rightarrow> 'b option" where
  "steps f [] b = Some b"
| "steps f (x # xs) b = Option.bind (f x b) (steps f xs)"

text \<open>A launch runs every thread of the grid once, in some order.\<close>

definition grid :: "nat \<Rightarrow> nat \<Rightarrow> (nat \<times> nat) list" where
  "grid blocks threads = List.product [0..<blocks] [0..<threads]"

definition launch :: "(nat \<times> nat) list \<Rightarrow> nat \<Rightarrow> int \<Rightarrow> int \<Rightarrow> rat list \<Rightarrow> rat list option" where
  "launch order threads n seg buf =
     steps (\<lambda>(b, t). segKernel (word_of_nat threads) n seg (word_of_nat b) (word_of_nat t)) order buf"

definition hostApply :: "int \<Rightarrow> int \<Rightarrow> rat list \<Rightarrow> rat list option" where
  "hostApply n seg h = steps (\<lambda>i. add_at seg (int i)) [0..<nat n] h"

text \<open>\<open>(n + threads - 1) / threads\<close>, in \<open>int\<close>.\<close>

definition block_count :: "int \<Rightarrow> int \<Rightarrow> int option" where
  "block_count n threads =
     Option.bind (int32 (n + threads)) (\<lambda>a. map_option (\<lambda>b. b sdiv threads) (int32 (a - 1)))"

text \<open>Updating distinct elements one after the other updates each of them once.\<close>

lemma steps_cong: "(\<And>x b. x \<in> set xs \<Longrightarrow> length b = m \<Longrightarrow> f x b = g x b) \<Longrightarrow>
  (\<And>x b b'. g x b = Some b' \<Longrightarrow> length b = m \<Longrightarrow> length b' = m) \<Longrightarrow> length b = m \<Longrightarrow> steps f xs b = steps g xs b"
proof (induction xs arbitrary: b)
  case (Cons x xs)
  then show ?case by (cases "g x b") simp_all
qed simp

lemma steps_map: "steps f (map h xs) b = steps (\<lambda>x. f (h x)) xs b"
proof (induction xs arbitrary: b)
  case (Cons x xs)
  then show ?case by (simp add: fun_eq_iff) (cases "f (h x) b"; simp)
qed simp

lemma steps_updates:
  assumes "distinct is" and "length xs = n"
  shows "steps (\<lambda>i xs. if i < n then map_option (\<lambda>d. xs[i := g (xs ! i) d]) (dl i) else Some xs) is xs =
    (if \<exists>i\<in>set is. i < n \<and> dl i = None then None
     else Some (map (\<lambda>k. if k \<in> set is then g (xs ! k) (the (dl k)) else xs ! k) [0..<n]))"
  using assms
proof (induction "is" arbitrary: xs)
  case Nil
  then show ?case by (simp add: list_eq_iff_nth_eq)
next
  case (Cons i "is")
  show ?case
  proof (cases "i < n \<and> dl i = None")
    case True
    then show ?thesis by auto
  next
    case False
    let ?ys = "if i < n then xs[i := g (xs ! i) (the (dl i))] else xs"
    have step: "(if i < n then map_option (\<lambda>d. xs[i := g (xs ! i) d]) (dl i) else Some xs) = Some ?ys"
      using False by auto
    have "length ?ys = n" using Cons.prems by simp
    moreover have "map (\<lambda>k. if k \<in> set is then g (?ys ! k) (the (dl k)) else ?ys ! k) [0..<n] =
        map (\<lambda>k. if k \<in> set (i # is) then g (xs ! k) (the (dl k)) else xs ! k) [0..<n]"
      using Cons.prems by (auto simp: nth_list_update)
    ultimately show ?thesis
      using Cons.IH [of ?ys] Cons.prems(1) False unfolding steps.simps step by auto
  qed
qed

text \<open>What both the kernel and the host loop make of a buffer.\<close>

definition segment_applied :: "int \<Rightarrow> int \<Rightarrow> rat list \<Rightarrow> rat list option" where
  "segment_applied n seg h =
     (if \<exists>k<nat n. delta (int k) seg = None then None
      else Some (map (\<lambda>k. f32 (h ! k + the (delta (int k) seg))) [0..<nat n]))"

lemma steps_add:
  assumes "distinct is" and "length h = nat n" and "{0..<nat n} \<subseteq> set is"
  shows "steps (\<lambda>i xs. if i < nat n then map_option (\<lambda>d. xs[i := f32 (xs ! i + d)]) (delta (int i) seg) else Some xs) is h
    = segment_applied n seg h"
proof -
  have "(\<exists>i\<in>set is. i < nat n \<and> delta (int i) seg = None) \<longleftrightarrow> (\<exists>k<nat n. delta (int k) seg = None)"
    using assms(3) by auto
  moreover have "map (\<lambda>k. if k \<in> set is then f32 (h ! k + the (delta (int k) seg)) else h ! k) [0..<nat n] =
      map (\<lambda>k. f32 (h ! k + the (delta (int k) seg))) [0..<nat n]"
    using assms(3) by auto
  ultimately show ?thesis
    unfolding segment_applied_def
    using steps_updates [OF assms(1,2), of "\<lambda>x d. f32 (x + d)" "\<lambda>i. delta (int i) seg"] by simp
qed

lemma add_at_nat:
  "length xs = nat n \<Longrightarrow> k < nat n \<Longrightarrow>
   add_at seg (int k) xs = map_option (\<lambda>d. xs[k := f32 (xs ! k + d)]) (delta (int k) seg)"
proof -
  assume "length xs = nat n" "k < nat n"
  then have "0 \<le> int k \<and> int k < int (length xs)" by (simp only: zless_nat_eq_int_zless) simp
  then show ?thesis by (simp only: add_at_def if_True simp_thms nat_int)
qed

lemma update_length:
  "(if i < m then map_option (\<lambda>d. xs[i := f32 (xs ! i + d)]) (dl i) else Some xs) = Some ys \<Longrightarrow>
   length xs = m \<Longrightarrow> length ys = m"
  by (auto split: if_splits)

lemma hostApply_eq: "length h = nat n \<Longrightarrow> hostApply n seg h = segment_applied n seg h"
proof -
  assume h: "length h = nat n"
  have "hostApply n seg h =
      steps (\<lambda>i xs. if i < nat n then map_option (\<lambda>d. xs[i := f32 (xs ! i + d)]) (delta (int i) seg) else Some xs) [0..<nat n] h"
    unfolding hostApply_def
    by (rule steps_cong [OF _ _ h]) (simp add: add_at_nat, erule update_length)
  also have "\<dots> = segment_applied n seg h"
    using h by (intro steps_add) simp_all
  finally show ?thesis .
qed

lemma length_segment_applied: "segment_applied n seg h = Some h' \<Longrightarrow> length h' = nat n"
  by (auto simp: segment_applied_def split: if_splits)

lemma sint_small: "k < 2 ^ 31 \<Longrightarrow> sint (word_of_nat k :: u32) = int k"
  by (simp add: sint_uint uint_nat unat_of_nat signed_take_bit_int_eq_self)

lemma thread_index:
  assumes "b < blocks" and "t < threads" and "blocks * threads < 2 ^ 31"
  shows "sint ((word_of_nat b :: u32) * word_of_nat threads + word_of_nat t) = int (b * threads + t)"
proof -
  have "b * threads + t < blocks * threads"
    using assms(1,2) mult_le_mono1 [of "Suc b" blocks threads] by simp
  then have "b * threads + t < 2 ^ 31" using assms(3) by simp
  then have "sint (word_of_nat (b * threads + t) :: u32) = int (b * threads + t)"
    by (rule sint_small)
  then show ?thesis by simp
qed

lemma blocks_cover:
  assumes "0 \<le> n" and "block_count n 256 = Some m"
  shows "nat n \<le> nat m * 256" and "nat m * 256 < 2 ^ 31"
proof -
  from assms(2) have n: "n + 256 < 2 ^ 31" and "m = (n + 255) sdiv 256"
    by (auto simp: block_count_def int32_def bind_eq_Some_conv add.commute split: if_splits)
  then have m: "m = (n + 255) div 256" using assms(1) by (simp add: signed_divide_int_def sgn_if)
  have "0 \<le> m" "n \<le> m * 256" "m * 256 < 2 ^ 31"
    using assms(1) n unfolding m by linarith+
  moreover from this have "nat m * 256 = nat (m * 256)" by (simp add: nat_mult_distrib)
  ultimately show "nat n \<le> nat m * 256" "nat m * 256 < 2 ^ 31" by (simp_all add: nat_less_iff)
qed

lemma launch_eq:
  assumes "mset order = mset (grid blocks threads)" and "nat n \<le> blocks * threads" and "blocks * threads < 2 ^ 31"
    and "length buf = nat n"
  shows "launch order threads n seg buf = segment_applied n seg buf"
proof -
  let ?idx = "\<lambda>(b, t). b * threads + t"
  have order: "set order = {0..<blocks} \<times> {0..<threads}" "distinct order"
    using assms(1) mset_eq_setD [OF assms(1)] mset_eq_imp_distinct_iff [OF assms(1)]
    by (simp_all add: grid_def distinct_product)
  have inj: "inj_on ?idx (set order)"
  proof (rule inj_onI, clarsimp simp: order(1))
    fix b t b' t'
    assume t: "t < threads" "t' < threads" and eq: "b * threads + t = b' * threads + t'"
    from t have "(b * threads + t) div threads = b" "(b' * threads + t') div threads = b'" by simp_all
    with eq show "b = b' \<and> t = t'" by simp
  qed
  have hit: "k \<in> ?idx ` set order" if "k < nat n" for k
  proof -
    from that assms(2) have k: "k < blocks * threads" by simp
    then have "k div threads < blocks" "k mod threads < threads"
      by (simp add: less_mult_imp_div_less, cases "threads = 0") simp_all
    then have "(k div threads, k mod threads) \<in> set order" by (simp add: order(1))
    then show ?thesis by (intro image_eqI [where x = "(k div threads, k mod threads)"]) simp_all
  qed
  let ?upd = "\<lambda>i xs. if i < nat n then map_option (\<lambda>d. xs[i := f32 (xs ! i + d)]) (delta (int i) seg) else Some xs"
  have "launch order threads n seg buf = steps (\<lambda>p. ?upd (?idx p)) order buf"
    unfolding launch_def
  proof (rule steps_cong [OF _ _ assms(4)])
    fix p and xs :: "rat list" assume "p \<in> set order" and xs: "length xs = nat n"
    then obtain b t where p: "p = (b, t)" "b < blocks" "t < threads" by (auto simp: order(1))
    show "(\<lambda>(b, t). segKernel (word_of_nat threads) n seg (word_of_nat b) (word_of_nat t)) p xs = ?upd (?idx p) xs"
    proof (cases "b * threads + t < nat n")
      case True
      moreover from True have "int (b * threads + t) < n" by (simp only: zless_nat_eq_int_zless)
      ultimately show ?thesis
        unfolding p(1) prod.case segKernel_def Let_def thread_index [OF p(2,3) assms(3)]
        using add_at_nat [OF xs True, of seg] by (simp only: if_True)
    next
      case False
      moreover from False have "\<not> int (b * threads + t) < n" by (simp only: zless_nat_eq_int_zless simp_thms)
      ultimately show ?thesis
        unfolding p(1) prod.case segKernel_def Let_def thread_index [OF p(2,3) assms(3)] by (simp only: if_False)
    qed
  qed (erule update_length)
  also have "\<dots> = steps ?upd (map ?idx order) buf"
    by (simp only: steps_map)
  also have "\<dots> = segment_applied n seg buf"
    using order inj hit assms(4) by (intro steps_add) (auto simp: distinct_map)
  finally show ?thesis .
qed

text \<open>The products of indices that occur fit an \<open>int\<close>, where \<open>%\<close> is the mathematical remainder.\<close>

lemma delta_fits:
  assumes "0 \<le> i" and "0 \<le> seg" and "seg + 1 < 2 ^ 31" and "i * (seg + 1) < 2 ^ 31"
  shows "delta i seg = Some (of_int ((i * (seg + 1)) mod 31) * (1 / 4))"
proof -
  have rem: "p smod 31 = p mod 31" if "0 \<le> p" for p :: int
    using that by (cases "p = 0") (simp_all add: smod_int_alt_def)
  have nonneg: "0 \<le> i * (seg + 1)" using assms(1,2) by simp
  have fits: "int32 x = Some x" if "0 \<le> x" "x < 2 ^ 31" for x
    using that by (simp add: int32_def)
  have "int32 (seg + 1) = Some (seg + 1)" "int32 (i * (seg + 1)) = Some (i * (seg + 1))"
    using assms nonneg by (intro fits; simp)+
  then show ?thesis
    using rem [OF nonneg] by (simp add: delta_def)
qed

lemma segment_applied_fits:
  assumes "0 \<le> seg" and "seg + 1 < 2 ^ 31" and "(n - 1) * (seg + 1) < 2 ^ 31"
  shows "segment_applied n seg h =
    Some (map (\<lambda>k. f32 (h ! k + of_int ((int k * (seg + 1)) mod 31) * (1 / 4))) [0..<nat n])"
proof -
  have d: "delta (int k) seg = Some (of_int ((int k * (seg + 1)) mod 31) * (1 / 4))" if "k < nat n" for k
  proof (rule delta_fits)
    have "int k * (seg + 1) \<le> (n - 1) * (seg + 1)"
      using that assms(1) by (intro mult_right_mono) auto
    then show "int k * (seg + 1) < 2 ^ 31" using assms(3) by linarith
  qed (use assms in simp_all)
  then have "\<not> (\<exists>k<nat n. delta (int k) seg = None)" using option.distinct(1) by metis
  moreover have "map (\<lambda>k. f32 (h ! k + the (delta (int k) seg))) [0..<nat n] =
      map (\<lambda>k. f32 (h ! k + of_int ((int k * (seg + 1)) mod 31) * (1 / 4))) [0..<nat n]"
    using d by (intro map_cong refl) (simp only: set_upt atLeastLessThan_iff option.sel)
  ultimately show ?thesis by (simp only: segment_applied_def if_False)
qed

text \<open>
  C29. Launched with 256 threads per block on the number of blocks \<open>runSeg\<close> computes, where that
  computation does not overflow, the kernel does to a buffer of \<open>n\<close> elements what the host loop
  does, in whatever order the threads run: no thread leaves the buffer, every element is updated
  exactly once, and both are undefined when a product of an index overflows. When none does, each
  element is the single precision sum of its old value and a quarter of the remainder.
\<close>

theorem kernel_matches_host:
  assumes "0 \<le> n" and "block_count n 256 = Some m" and "length buf = nat n"
    and "mset order = mset (grid (nat m) 256)"
  shows "launch order 256 n seg buf = hostApply n seg buf \<and>
    (0 \<le> seg \<and> seg + 1 < 2 ^ 31 \<and> (n - 1) * (seg + 1) < 2 ^ 31 \<longrightarrow>
       hostApply n seg buf =
         Some (map (\<lambda>k. f32 (buf ! k + of_int ((int k * (seg + 1)) mod 31) * (1 / 4))) [0..<nat n]))"
  using launch_eq [OF assms(4) blocks_cover [OF assms(1,2)] assms(3), of seg] hostApply_eq [OF assms(3), of seg]
    segment_applied_fits [of seg n buf] by simp

theorem kernel_matches_host_witness:
  "launch (rev (grid 2 256)) 256 300 3 (replicate 300 (3 / 2)) = hostApply 300 3 (replicate 300 (3 / 2)) \<and>
   hostApply 300 3 (replicate 300 (3 / 2)) =
     Some (map (\<lambda>k. f32 (replicate 300 (3 / 2) ! k + of_int ((int k * (3 + 1)) mod 31) * (1 / 4))) [0..<nat 300])"
proof -
  have "block_count 300 256 = Some 2" by code_simp
  moreover have "mset (rev (grid 2 256)) = mset (grid (nat 2) 256)" by simp
  ultimately show ?thesis
    using kernel_matches_host [of 300 2 "replicate 300 (3 / 2)" "rev (grid 2 256)" 3] by simp
qed

text \<open>
  The buffers of the proof hold multiples of a quarter, and a segment adds at most 30 quarters: as
  long as they stay below \<open>2 ^ 24\<close> quarters, no addition rounds.
\<close>

definition quarters :: "int \<Rightarrow> rat \<Rightarrow> bool" where
  "quarters q x \<longleftrightarrow> (\<exists>m. x = of_int m * (1 / 4) \<and> 0 \<le> m \<and> m \<le> q)"

lemma index_product_fits:
  "n \<le> kBuf \<Longrightarrow> 0 \<le> seg \<Longrightarrow> seg < int kSegs \<Longrightarrow> (n - 1) * (seg + 1) < 2 ^ 31"
proof -
  assume *: "n \<le> kBuf" "0 \<le> seg" "seg < int kSegs"
  then have "(n - 1) * (seg + 1) \<le> (kBuf - 1) * (seg + 1)" by (intro mult_right_mono) auto
  also have "\<dots> \<le> (kBuf - 1) * 8" using * by (simp add: mult_left_mono kSegs_def kBuf_def)
  finally show ?thesis by (simp add: kBuf_def)
qed

lemma quarters_add:
  assumes "quarters q x" and "q + 30 < 2 ^ 24"
  shows "f32 (x + of_int (p mod 31) * (1 / 4)) = x + of_int (p mod 31) * (1 / 4)"
    and "quarters (q + 30) (x + of_int (p mod 31) * (1 / 4))"
proof -
  from assms(1) obtain m where m: "x = of_int m * (1 / 4)" "0 \<le> m" "m \<le> q" by (auto simp: quarters_def)
  have r: "0 \<le> p mod 31" "p mod 31 \<le> 30" by simp_all
  have sum: "x + of_int (p mod 31) * (1 / 4) = of_int (m + p mod 31) * (1 / 4)"
    by (simp only: m(1) of_int_add distrib_right)
  then show "quarters (q + 30) (x + of_int (p mod 31) * (1 / 4))"
    using m(2,3) r unfolding quarters_def by (intro exI [of _ "m + p mod 31"]) linarith
  have "\<bar>m + p mod 31\<bar> < 2 ^ 24" using m r assms(2) by linarith
  then show "f32 (x + of_int (p mod 31) * (1 / 4)) = x + of_int (p mod 31) * (1 / 4)"
    unfolding sum by (rule f32_quarter)
qed

lemma buffers_exact:
  assumes "length h = nat n" and "list_all (quarters q) h" and "q + 30 < 2 ^ 24"
    and "n \<le> kBuf" and "0 \<le> seg" and "seg < int kSegs"
  shows "\<exists>h'. hostApply n seg h = Some h' \<and> list_all (quarters (q + 30)) h' \<and>
    h' = map (\<lambda>k. h ! k + of_int ((int k * (seg + 1)) mod 31) * (1 / 4)) [0..<nat n]"
proof -
  have "seg + 1 < 2 ^ 31" using assms(6) by (simp add: kSegs_def)
  from segment_applied_fits [OF assms(5) this index_product_fits [OF assms(4-6)], of h]
  have "hostApply n seg h =
      Some (map (\<lambda>k. f32 (h ! k + of_int ((int k * (seg + 1)) mod 31) * (1 / 4))) [0..<nat n])"
    by (simp only: hostApply_eq [OF assms(1)])
  then show ?thesis
    using assms(1,2) quarters_add [OF _ assms(3)] by (auto simp: list_all_length)
qed

section \<open>The runtime\<close>

text \<open>
  A program on the runtime ends early by \<open>exit\<close>, abnormally, or without a defined behaviour.
\<close>

datatype ending = Exit int | Terminate | Undefined

text \<open>
  Blocks of device memory are known by their number; a freed block is \<open>None\<close>. The environment
  says which of the checked calls succeed (by their number), what a new block holds, the order of the
  threads of a launch, and what \<open>cudaMemGetInfo\<close> answers: the number of free bytes, or
  \<open>None\<close> when it fails and leaves its arguments as they are. Nothing relates these answers to
  the blocks that are allocated: other processes use the device, and the runtime keeps memory of
  its own.
\<close>

record cuda_env =
  ce_ok :: "nat \<Rightarrow> bool"
  ce_garbage :: "nat \<Rightarrow> nat \<Rightarrow> rat"
  ce_order :: "nat \<Rightarrow> (nat \<times> nat) list \<Rightarrow> (nat \<times> nat) list"
  ce_free :: "nat \<Rightarrow> u64 option"

record device =
  dv_calls :: nat
  dv_blocks :: "rat list option list"

text \<open>
  The order in which the threads of a grid run: the one of the environment if it runs each of them
  once, as the runtime does.
\<close>

definition thread_order :: "cuda_env \<Rightarrow> device \<Rightarrow> (nat \<times> nat) list \<Rightarrow> (nat \<times> nat) list" where
  "thread_order env dv xs =
     (if mset (ce_order env (dv_calls dv) xs) = mset xs then ce_order env (dv_calls dv) xs else xs)"

lemma thread_order_mset: "mset (thread_order env dv xs) = mset xs"
  by (simp add: thread_order_def)

text \<open>\<open>GPU_CHECK\<close>: a call that fails ends the process with status 2.\<close>

definition gpu_check :: "cuda_env \<Rightarrow> device \<Rightarrow> ending + device" where
  "gpu_check env dv = (if ce_ok env (dv_calls dv) then Inr (dv\<lparr>dv_calls := dv_calls dv + 1\<rparr>) else Inl (Exit 2))"

definition block_of :: "nat option \<Rightarrow> device \<Rightarrow> rat list option" where
  "block_of p dv = (case p of None \<Rightarrow> None | Some k \<Rightarrow> if k < length (dv_blocks dv) then dv_blocks dv ! k else None)"

definition set_block :: "nat \<Rightarrow> rat list option \<Rightarrow> device \<Rightarrow> device" where
  "set_block k b dv = dv\<lparr>dv_blocks := (dv_blocks dv)[k := b]\<rparr>"

definition cudaMalloc :: "cuda_env \<Rightarrow> nat \<Rightarrow> device \<Rightarrow> ending + nat \<times> device" where
  "cudaMalloc env n dv =
     (case gpu_check env dv of
        Inl x \<Rightarrow> Inl x
      | Inr dv1 \<Rightarrow>
          let k = length (dv_blocks dv1)
          in Inr (k, dv1\<lparr>dv_blocks := dv_blocks dv1 @ [Some (map (ce_garbage env (dv_calls dv)) [0..<n])]\<rparr>))"

text \<open>A copy to or from memory that is not allocated is a call that fails.\<close>

definition cudaMemcpy_to :: "cuda_env \<Rightarrow> nat option \<Rightarrow> rat list \<Rightarrow> nat \<Rightarrow> device \<Rightarrow> ending + device" where
  "cudaMemcpy_to env p src n dv =
     (case gpu_check env dv of
        Inl x \<Rightarrow> Inl x
      | Inr dv1 \<Rightarrow>
          (case block_of p dv1 of
             None \<Rightarrow> Inl (Exit 2)
           | Some b \<Rightarrow> Inr (set_block (the p) (Some (take n src @ drop n b)) dv1)))"

definition cudaMemcpy_from :: "cuda_env \<Rightarrow> nat option \<Rightarrow> nat \<Rightarrow> device \<Rightarrow> ending + rat list \<times> device" where
  "cudaMemcpy_from env p n dv =
     (case gpu_check env dv of
        Inl x \<Rightarrow> Inl x
      | Inr dv1 \<Rightarrow> (case block_of p dv1 of None \<Rightarrow> Inl (Exit 2) | Some b \<Rightarrow> Inr (take n b, dv1)))"

definition cudaFree :: "cuda_env \<Rightarrow> nat \<Rightarrow> device \<Rightarrow> ending + device" where
  "cudaFree env k dv = (case gpu_check env dv of Inl x \<Rightarrow> Inl x | Inr dv1 \<Rightarrow> Inr (set_block k None dv1))"

text \<open>
  \<open>freeMem\<close> does not look at the result of \<open>cudaMemGetInfo\<close>: when the call fails, \<open>f\<close> is
  still 0.
\<close>

definition reported :: "(nat \<Rightarrow> u64 option) \<Rightarrow> nat \<Rightarrow> u64" where
  "reported answer k = (case answer k of None \<Rightarrow> 0 | Some f \<Rightarrow> f)"

definition freeMem :: "cuda_env \<Rightarrow> device \<Rightarrow> u64 \<times> device" where
  "freeMem env dv = (reported (ce_free env) (dv_calls dv), dv\<lparr>dv_calls := dv_calls dv + 1\<rparr>)"

text \<open>The blocks that are allocated.\<close>

fun live_from :: "nat \<Rightarrow> rat list option list \<Rightarrow> (nat \<times> rat list) list" where
  "live_from k [] = []"
| "live_from k (None # bs) = live_from (Suc k) bs"
| "live_from k (Some b # bs) = (k, b) # live_from (Suc k) bs"

definition live :: "device \<Rightarrow> (nat \<times> rat list) list" where
  "live dv = live_from 0 (dv_blocks dv)"

section \<open>GpuState\<close>

record GpuState =
  gs_d :: "nat option"
  gs_h :: "rat list"
  gs_n :: int

definition fillRef :: "rat \<Rightarrow> GpuState" where
  "fillRef seed = \<lparr>gs_d = None, gs_h = replicate (nat kBuf) seed, gs_n = kBuf\<rparr>"

definition gpu_reconstruct :: "cuda_env \<Rightarrow> GpuState \<times> device \<Rightarrow> ending + GpuState \<times> device" where
  "gpu_reconstruct env gd =
     (case gd of (g, dv) \<Rightarrow>
        case cudaMemcpy_to env (gs_d g) (gs_h g) (nat (gs_n g)) dv of Inl x \<Rightarrow> Inl x | Inr dv1 \<Rightarrow> Inr (g, dv1))"

definition gpu_alloc :: "cuda_env \<Rightarrow> GpuState \<times> device \<Rightarrow> ending + GpuState \<times> device" where
  "gpu_alloc env gd =
     (case gd of (g, dv) \<Rightarrow>
        case cudaMalloc env (nat (gs_n g)) dv of
          Inl x \<Rightarrow> Inl x
        | Inr (k, dv1) \<Rightarrow>
            let g1 = g\<lparr>gs_d := Some k\<rparr>
            in case cudaMemcpy_to env (gs_d g1) (gs_h g1) (nat (gs_n g1)) dv1 of Inl x \<Rightarrow> Inl x | Inr dv2 \<Rightarrow> Inr (g1, dv2))"

definition gpu_free :: "cuda_env \<Rightarrow> GpuState \<times> device \<Rightarrow> ending + GpuState \<times> device" where
  "gpu_free env gd =
     (case gd of (g, dv) \<Rightarrow>
        case gs_d g of
          None \<Rightarrow> Inr (g, dv)
        | Some k \<Rightarrow> (case cudaFree env k dv of Inl x \<Rightarrow> Inl x | Inr dv1 \<Rightarrow> Inr (g\<lparr>gs_d := None\<rparr>, dv1)))"

text \<open>
  The launch, the two calls that wait for it (\<open>cudaGetLastError\<close>, \<open>cudaDeviceSynchronize\<close>), and
  the host reference.
\<close>

definition gpu_runSeg :: "cuda_env \<Rightarrow> int \<Rightarrow> GpuState \<times> device \<Rightarrow> ending + GpuState \<times> device" where
  "gpu_runSeg env seg gd =
     (case gd of (g, dv) \<Rightarrow>
        case block_count (gs_n g) 256 of
          None \<Rightarrow> Inl Undefined
        | Some blocks \<Rightarrow>
            (case block_of (gs_d g) dv of
               None \<Rightarrow> Inl (Exit 2)
             | Some b \<Rightarrow>
                 (case launch (thread_order env dv (grid (nat blocks) 256)) 256 (gs_n g) seg b of
                    None \<Rightarrow> Inl Undefined
                  | Some b' \<Rightarrow>
                      (case gpu_check env (set_block (the (gs_d g)) (Some b') dv) of
                         Inl x \<Rightarrow> Inl x
                       | Inr dv1 \<Rightarrow>
                           (case gpu_check env dv1 of
                              Inl x \<Rightarrow> Inl x
                            | Inr dv2 \<Rightarrow>
                                (case hostApply (gs_n g) seg (gs_h g) of
                                   None \<Rightarrow> Inl Undefined
                                 | Some h \<Rightarrow> Inr (g\<lparr>gs_h := h\<rparr>, dv2)))))))"

definition gpu_verifyParity :: "cuda_env \<Rightarrow> GpuState \<times> device \<Rightarrow> ending + bool \<times> GpuState \<times> device" where
  "gpu_verifyParity env gd =
     (case gd of (g, dv) \<Rightarrow>
        case cudaMemcpy_from env (gs_d g) (nat (gs_n g)) dv of
          Inl x \<Rightarrow> Inl x
        | Inr (tmp, dv1) \<Rightarrow> Inr (list_all (\<lambda>i. tmp ! i = gs_h g ! i) [0..<nat (gs_n g)], g, dv1))"

section \<open>The interface the scenarios use\<close>

record 'g gpu_ops =
  go_fill :: "rat \<Rightarrow> 'g \<Rightarrow> 'g"
  go_alloc :: "'g \<Rightarrow> ending + 'g"
  go_free :: "'g \<Rightarrow> ending + 'g"
  go_runSeg :: "int \<Rightarrow> 'g \<Rightarrow> ending + 'g"
  go_verifyParity :: "'g \<Rightarrow> ending + bool \<times> 'g"
  go_reconstruct :: "'g \<Rightarrow> ending + 'g"
  go_synchronize :: "'g \<Rightarrow> ending + 'g"
  go_freeMem :: "'g \<Rightarrow> u64 \<times> 'g"

text \<open>The only way for an operation to end the process is a failed call.\<close>

definition lands :: "bool \<Rightarrow> ('a \<Rightarrow> bool) \<Rightarrow> ending + 'a \<Rightarrow> bool" where
  "lands may_fail P r \<longleftrightarrow> (case r of Inl x \<Rightarrow> may_fail \<and> x = Exit 2 | Inr y \<Rightarrow> P y)"

text \<open>
  \<open>idle b n\<close>: the program owns no block, those of others are \<open>b\<close>, and it has made \<open>n\<close> calls.
  \<open>resident b n\<close>: its buffer is allocated and equals the host reference, and freeing it leaves
  \<open>b\<close>. \<open>answer\<close> is what the memory queries report.
\<close>

locale gpu_device =
  fixes G :: "'g gpu_ops" and may_fail :: bool and idle :: "'b \<Rightarrow> nat \<Rightarrow> 'g \<Rightarrow> bool"
    and resident :: "'b \<Rightarrow> nat \<Rightarrow> 'g \<Rightarrow> bool" and answer :: "nat \<Rightarrow> u64"
  assumes fill: "idle b n g \<Longrightarrow> idle b n (go_fill G seed g)"
    and alloc: "idle b n g \<Longrightarrow> lands may_fail (resident b (n + 2)) (go_alloc G g)"
    and free: "resident b n g \<Longrightarrow> lands may_fail (idle b (n + 1)) (go_free G g)"
    and runSeg: "resident b n g \<Longrightarrow> 0 \<le> seg \<Longrightarrow> seg < int kSegs \<Longrightarrow>
      lands may_fail (resident b (n + 2)) (go_runSeg G seg g)"
    and verifyParity: "resident b n g \<Longrightarrow>
      lands may_fail (\<lambda>(ok, g'). ok \<and> resident b (n + 1) g') (go_verifyParity G g)"
    and reconstruct: "resident b n g \<Longrightarrow> lands may_fail (resident b (n + 1)) (go_reconstruct G g)"
    and synchronize: "idle b n g \<Longrightarrow> lands may_fail (idle b (n + 1)) (go_synchronize G g)"
    and freeMem: "idle b n g \<Longrightarrow> fst (go_freeMem G g) = answer n \<and> idle b (n + 1) (snd (go_freeMem G g))"

definition cuda_ops :: "cuda_env \<Rightarrow> (GpuState \<times> device) gpu_ops" where
  "cuda_ops env =
     \<lparr>go_fill = (\<lambda>seed gd. (fillRef seed, snd gd)),
      go_alloc = gpu_alloc env, go_free = gpu_free env, go_runSeg = gpu_runSeg env,
      go_verifyParity = gpu_verifyParity env, go_reconstruct = gpu_reconstruct env,
      go_synchronize = (\<lambda>(g, dv). map_sum id (Pair g) (gpu_check env dv)),
      go_freeMem = (\<lambda>(g, dv). map_prod id (Pair g) (freeMem env dv))\<rparr>"

definition mirrored :: "GpuState \<Rightarrow> bool" where
  "mirrored g \<longleftrightarrow> 0 \<le> gs_n g \<and> gs_n g \<le> kBuf \<and> length (gs_h g) = nat (gs_n g)"

definition cuda_idle :: "(nat \<times> rat list) list \<Rightarrow> nat \<Rightarrow> GpuState \<times> device \<Rightarrow> bool" where
  "cuda_idle b n gd \<longleftrightarrow>
     (case gd of (g, dv) \<Rightarrow> gs_d g = None \<and> mirrored g \<and> live dv = b \<and> dv_calls dv = n)"

definition cuda_resident :: "(nat \<times> rat list) list \<Rightarrow> nat \<Rightarrow> GpuState \<times> device \<Rightarrow> bool" where
  "cuda_resident b n gd \<longleftrightarrow> (case gd of (g, dv) \<Rightarrow>
     \<exists>k. gs_d g = Some k \<and> block_of (Some k) dv = Some (gs_h g) \<and> mirrored g \<and>
       live (set_block k None dv) = b \<and> dv_calls dv = n)"

lemma gpu_check_lands:
  "(\<And>dv'. dv_blocks dv' = dv_blocks dv \<Longrightarrow> dv_calls dv' = dv_calls dv + 1 \<Longrightarrow>
      lands (\<exists>k. \<not> ce_ok env k) P (f dv')) \<Longrightarrow>
  lands (\<exists>k. \<not> ce_ok env k) P (case gpu_check env dv of Inl x \<Rightarrow> Inl x | Inr dv' \<Rightarrow> f dv')"
  by (auto simp: gpu_check_def lands_def)

lemma live_blocks: "dv_blocks dv = dv_blocks dv' \<Longrightarrow> live dv = live dv'"
  by (simp add: live_def)

lemma live_set_blocks: "dv_blocks dv = dv_blocks dv' \<Longrightarrow> live (set_block k b dv) = live (set_block k b dv')"
  by (simp add: live_def set_block_def)

lemma block_of_blocks: "dv_blocks dv = dv_blocks dv' \<Longrightarrow> block_of p dv = block_of p dv'"
  by (simp add: block_of_def split: option.split)

lemma block_of_set: "block_of (Some k) dv \<noteq> None \<Longrightarrow> block_of (Some k) (set_block k b dv) = b"
  by (auto simp: block_of_def set_block_def split: if_splits)

lemma set_block_twice [simp]: "set_block k b (set_block k c dv) = set_block k b dv"
  by (simp add: set_block_def)

lemma set_block_calls [simp]: "dv_calls (set_block k b dv) = dv_calls dv"
  by (simp add: set_block_def)

lemma live_from_snoc_None: "live_from k (bs @ [None]) = live_from k bs"
proof (induction bs arbitrary: k)
  case (Cons b bs)
  then show ?case by (cases b) simp_all
qed simp

lemma block_of_None [simp]: "block_of None dv = None"
  by (simp add: block_of_def)

lemma reconstruct_lands:
  assumes "gs_d g = Some k" and "block_of (Some k) dv = Some old" and "length old = nat (gs_n g)" and "mirrored g"
    and "live (set_block k None dv) = b" and "dv_calls dv = n"
  shows "lands (\<exists>k. \<not> ce_ok env k) (cuda_resident b (n + 1))
     (case cudaMemcpy_to env (gs_d g) (gs_h g) (nat (gs_n g)) dv of Inl x \<Rightarrow> Inl x | Inr dv1 \<Rightarrow> Inr (g, dv1))"
proof -
  have split: "(case cudaMemcpy_to env (gs_d g) (gs_h g) (nat (gs_n g)) dv of Inl x \<Rightarrow> Inl x | Inr dv1 \<Rightarrow> Inr (g, dv1)) =
    (case gpu_check env dv of Inl x \<Rightarrow> Inl x | Inr dv1 \<Rightarrow>
       (case block_of (gs_d g) dv1 of None \<Rightarrow> Inl (Exit 2)
        | Some b \<Rightarrow> Inr (g, set_block (the (gs_d g)) (Some (take (nat (gs_n g)) (gs_h g) @ drop (nat (gs_n g)) b)) dv1)))"
    by (simp add: cudaMemcpy_to_def split: sum.split option.split)
  show ?thesis
    unfolding split
  proof (rule gpu_check_lands)
    fix dv1 :: device
    assume same: "dv_blocks dv1 = dv_blocks dv" and calls: "dv_calls dv1 = dv_calls dv + 1"
    have "block_of (Some k) dv1 = Some old" using assms(2) block_of_blocks [OF same] by simp
    then show "lands (\<exists>k. \<not> ce_ok env k) (cuda_resident b (n + 1))
       (case block_of (gs_d g) dv1 of None \<Rightarrow> Inl (Exit 2)
        | Some b \<Rightarrow> Inr (g, set_block (the (gs_d g)) (Some (take (nat (gs_n g)) (gs_h g) @ drop (nat (gs_n g)) b)) dv1))"
      using assms block_of_set [of k dv1 "Some (gs_h g)"] live_set_blocks [OF same, of k None] calls
      by (simp add: lands_def cuda_resident_def mirrored_def)
  qed
qed

lemma alloc_lands: "cuda_idle b n gd \<Longrightarrow> lands (\<exists>k. \<not> ce_ok env k) (cuda_resident b (n + 2)) (gpu_alloc env gd)"
proof (cases gd)
  case (Pair g dv)
  assume "cuda_idle b n gd"
  then have idle: "gs_d g = None" "mirrored g" "live dv = b" "dv_calls dv = n" by (simp_all add: cuda_idle_def Pair)
  let ?k = "length (dv_blocks dv)" and ?new = "map (ce_garbage env (dv_calls dv)) [0..<nat (gs_n g)]"
  have split: "gpu_alloc env gd = (case gpu_check env dv of Inl x \<Rightarrow> Inl x | Inr dv1 \<Rightarrow>
      (case cudaMemcpy_to env (Some (length (dv_blocks dv1))) (gs_h g) (nat (gs_n g)) (dv1\<lparr>dv_blocks := dv_blocks dv1 @ [Some ?new]\<rparr>) of
         Inl x \<Rightarrow> Inl x | Inr dv2 \<Rightarrow> Inr (g\<lparr>gs_d := Some (length (dv_blocks dv1))\<rparr>, dv2)))"
    by (simp add: gpu_alloc_def cudaMalloc_def Pair Let_def split: sum.split)
  show ?thesis
    unfolding split
  proof (rule gpu_check_lands)
    fix dv1 :: device
    assume same: "dv_blocks dv1 = dv_blocks dv" and calls: "dv_calls dv1 = dv_calls dv + 1"
    let ?dv2 = "dv1\<lparr>dv_blocks := dv_blocks dv @ [Some ?new]\<rparr>" and ?g = "g\<lparr>gs_d := Some ?k\<rparr>"
    have "length ?new = nat (gs_n ?g)" by simp
    moreover have "block_of (Some ?k) ?dv2 = Some ?new" by (simp add: block_of_def)
    moreover have "live (set_block ?k None ?dv2) = b"
      using idle(3) by (simp add: live_def set_block_def live_from_snoc_None)
    ultimately have "lands (\<exists>k. \<not> ce_ok env k) (cuda_resident b (n + 1 + 1))
        (case cudaMemcpy_to env (gs_d ?g) (gs_h ?g) (nat (gs_n ?g)) ?dv2 of Inl x \<Rightarrow> Inl x | Inr dv1 \<Rightarrow> Inr (?g, dv1))"
      using idle(2,4) calls by (intro reconstruct_lands) (assumption | simp add: mirrored_def)+
    then show "lands (\<exists>k. \<not> ce_ok env k) (cuda_resident b (n + 2))
      (case cudaMemcpy_to env (Some (length (dv_blocks dv1))) (gs_h g) (nat (gs_n g)) (dv1\<lparr>dv_blocks := dv_blocks dv1 @ [Some ?new]\<rparr>) of
         Inl x \<Rightarrow> Inl x | Inr dv2 \<Rightarrow> Inr (g\<lparr>gs_d := Some (length (dv_blocks dv1))\<rparr>, dv2))"
      unfolding same by simp
  qed
qed

lemma free_lands: "cuda_resident b n gd \<Longrightarrow> lands (\<exists>k. \<not> ce_ok env k) (cuda_idle b (n + 1)) (gpu_free env gd)"
proof (cases gd)
  case (Pair g dv)
  assume "cuda_resident b n gd"
  then obtain k where res: "gs_d g = Some k" "mirrored g" "live (set_block k None dv) = b" "dv_calls dv = n"
    by (auto simp: cuda_resident_def Pair)
  have split: "gpu_free env gd =
      (case gpu_check env dv of Inl x \<Rightarrow> Inl x | Inr dv1 \<Rightarrow> Inr (g\<lparr>gs_d := None\<rparr>, set_block k None dv1))"
    by (simp add: gpu_free_def cudaFree_def Pair res(1) split: sum.split)
  show ?thesis
    unfolding split
  proof (rule gpu_check_lands)
    fix dv1 :: device
    assume "dv_blocks dv1 = dv_blocks dv" and "dv_calls dv1 = dv_calls dv + 1"
    then show "lands (\<exists>k. \<not> ce_ok env k) (cuda_idle b (n + 1)) (Inr (g\<lparr>gs_d := None\<rparr>, set_block k None dv1))"
      using res live_set_blocks [of dv1 dv k None] by (simp add: lands_def cuda_idle_def mirrored_def)
  qed
qed

lemma runSeg_lands:
  assumes "cuda_resident b n gd" and seg: "0 \<le> seg" "seg < int kSegs"
  shows "lands (\<exists>k. \<not> ce_ok env k) (cuda_resident b (n + 2)) (gpu_runSeg env seg gd)"
proof (cases gd)
  case (Pair g dv)
  from assms(1) obtain k where res: "gs_d g = Some k" "block_of (Some k) dv = Some (gs_h g)" "mirrored g"
      "live (set_block k None dv) = b" "dv_calls dv = n"
    by (auto simp: cuda_resident_def Pair)
  then have range: "0 \<le> gs_n g" "gs_n g \<le> kBuf" "length (gs_h g) = nat (gs_n g)" by (simp_all add: mirrored_def)
  then obtain m where m: "block_count (gs_n g) 256 = Some m"
    by (auto simp: block_count_def int32_def kBuf_def)
  have "seg + 1 < 2 ^ 31" using seg(2) by (simp add: kSegs_def)
  then obtain h where h: "segment_applied (gs_n g) seg (gs_h g) = Some h"
    using segment_applied_fits [OF seg(1) _ index_product_fits [OF range(2) seg]] by blast
  have len: "length h = nat (gs_n g)" using h by (rule length_segment_applied)
  have kernel: "launch (thread_order env dv (grid (nat m) 256)) 256 (gs_n g) seg (gs_h g) = Some h"
    using launch_eq [OF thread_order_mset blocks_cover [OF range(1) m] range(3), of env dv seg] h by simp
  have host: "hostApply (gs_n g) seg (gs_h g) = Some h"
    using hostApply_eq [OF range(3), of seg] h by simp
  have run: "gpu_runSeg env seg gd =
      (case gpu_check env (set_block k (Some h) dv) of Inl x \<Rightarrow> Inl x | Inr dv1 \<Rightarrow>
        (case gpu_check env dv1 of Inl x \<Rightarrow> Inl x | Inr dv2 \<Rightarrow> Inr (g\<lparr>gs_h := h\<rparr>, dv2)))"
    by (simp add: gpu_runSeg_def Pair res(1,2) m kernel host split: sum.split)
  show ?thesis
    unfolding run
  proof (intro gpu_check_lands)
    fix dv1 dv2 :: device
    assume "dv_blocks dv1 = dv_blocks (set_block k (Some h) dv)" "dv_blocks dv2 = dv_blocks dv1"
      and calls: "dv_calls dv1 = dv_calls (set_block k (Some h) dv) + 1" "dv_calls dv2 = dv_calls dv1 + 1"
    then have same: "dv_blocks dv2 = dv_blocks (set_block k (Some h) dv)" by simp
    show "lands (\<exists>k. \<not> ce_ok env k) (cuda_resident b (n + 2)) (Inr (g\<lparr>gs_h := h\<rparr>, dv2))"
      using res len range block_of_set [of k dv "Some h"] block_of_blocks [OF same, of "Some k"]
        live_set_blocks [OF same, of k None] calls
      by (simp add: lands_def cuda_resident_def mirrored_def)
  qed
qed

lemma verifyParity_lands:
  "cuda_resident b n gd \<Longrightarrow>
   lands (\<exists>k. \<not> ce_ok env k) (\<lambda>(ok, gd'). ok \<and> cuda_resident b (n + 1) gd') (gpu_verifyParity env gd)"
proof (cases gd)
  case (Pair g dv)
  assume res: "cuda_resident b n gd"
  have split: "gpu_verifyParity env gd = (case gpu_check env dv of Inl x \<Rightarrow> Inl x | Inr dv1 \<Rightarrow>
      (case block_of (gs_d g) dv1 of None \<Rightarrow> Inl (Exit 2)
       | Some b \<Rightarrow> Inr (list_all (\<lambda>i. take (nat (gs_n g)) b ! i = gs_h g ! i) [0..<nat (gs_n g)], g, dv1)))"
    by (simp add: gpu_verifyParity_def cudaMemcpy_from_def Pair split: sum.split option.split)
  show ?thesis
    unfolding split
  proof (rule gpu_check_lands)
    fix dv1 :: device
    assume same: "dv_blocks dv1 = dv_blocks dv" and calls: "dv_calls dv1 = dv_calls dv + 1"
    from res obtain k where "gs_d g = Some k" "block_of (Some k) dv = Some (gs_h g)" "mirrored g"
      "live (set_block k None dv) = b" "dv_calls dv = n"
      by (auto simp: cuda_resident_def Pair)
    with calls show "lands (\<exists>k. \<not> ce_ok env k) (\<lambda>(ok, gd'). ok \<and> cuda_resident b (n + 1) gd')
       (case block_of (gs_d g) dv1 of None \<Rightarrow> Inl (Exit 2)
        | Some b \<Rightarrow> Inr (list_all (\<lambda>i. take (nat (gs_n g)) b ! i = gs_h g ! i) [0..<nat (gs_n g)], g, dv1))"
      using block_of_blocks [OF same, of "gs_d g"] live_set_blocks [OF same, of k None]
      by (simp add: lands_def cuda_resident_def list_all_iff)
  qed
qed

interpretation cuda: gpu_device "cuda_ops env" "\<exists>k. \<not> ce_ok env k" cuda_idle cuda_resident
  "reported (ce_free env)" for env
proof
  show "cuda_idle b n (go_fill (cuda_ops env) seed g)" if "cuda_idle b n g" for b n g seed
    using that by (simp add: cuda_idle_def cuda_ops_def mirrored_def fillRef_def kBuf_def case_prod_unfold)
  show "lands (\<exists>k. \<not> ce_ok env k) (cuda_resident b (n + 2)) (go_alloc (cuda_ops env) g)" if "cuda_idle b n g" for b n g
    using alloc_lands [OF that] by (simp add: cuda_ops_def)
  show "lands (\<exists>k. \<not> ce_ok env k) (cuda_idle b (n + 1)) (go_free (cuda_ops env) g)" if "cuda_resident b n g" for b n g
    using free_lands [OF that] by (simp add: cuda_ops_def)
  show "lands (\<exists>k. \<not> ce_ok env k) (cuda_resident b (n + 2)) (go_runSeg (cuda_ops env) seg g)"
    if "cuda_resident b n g" "0 \<le> seg" "seg < int kSegs" for b n g seg
    using runSeg_lands [OF that] by (simp add: cuda_ops_def)
  show "lands (\<exists>k. \<not> ce_ok env k) (\<lambda>(ok, g'). ok \<and> cuda_resident b (n + 1) g') (go_verifyParity (cuda_ops env) g)"
    if "cuda_resident b n g" for b n g
    using verifyParity_lands [OF that] by (simp add: cuda_ops_def)
  show "lands (\<exists>k. \<not> ce_ok env k) (cuda_resident b (n + 1)) (go_reconstruct (cuda_ops env) g)"
    if "cuda_resident b n g" for b n g
    using that reconstruct_lands [of "fst g" _ "snd g" "gs_h (fst g)" b n env]
    by (auto simp: cuda_ops_def gpu_reconstruct_def cuda_resident_def mirrored_def case_prod_unfold)
  show "lands (\<exists>k. \<not> ce_ok env k) (cuda_idle b (n + 1)) (go_synchronize (cuda_ops env) g)" if "cuda_idle b n g" for b n g
    using that by (auto simp: cuda_ops_def cuda_idle_def lands_def gpu_check_def live_def case_prod_unfold)
  show "fst (go_freeMem (cuda_ops env) g) = reported (ce_free env) n \<and> cuda_idle b (n + 1) (snd (go_freeMem (cuda_ops env) g))"
    if "cuda_idle b n g" for b n g
    using that by (auto simp: cuda_ops_def cuda_idle_def freeMem_def live_def case_prod_unfold)
qed

end
