(* ===== verification/Scenarios.thy ===== *)
theory Scenarios
  imports Engine Gpu
begin

text \<open>
  The CUDA proof program (\<open>cuda/workload_cuda_proof.cu\<close>): a workload advanced through the engine
  while its segments run on the device, in five scenarios, and \<open>main\<close>. The device is used through
  the interface \<open>gpu_device\<close>. The scenarios are proved against a dry run without a device, which
  is then evaluated. What the runtime reports as free memory is left open: the checks of the
  memory are the one part of the program whose result depends on it.
\<close>

section \<open>Programs\<close>

record 'g world =
  pw_engine :: "memory engine"
  pw_gpu :: 'g
  pw_checks :: "bool list" \<comment> \<open>the results of the checks, the latest first\<close>

type_synonym ('a, 'g) run = "'g world \<Rightarrow> ending + 'a \<times> 'g world"

definition seq :: "('a, 'g) run \<Rightarrow> ('a \<Rightarrow> ('b, 'g) run) \<Rightarrow> ('b, 'g) run" where
  "seq m k w = (case m w of Inl x \<Rightarrow> Inl x | Inr (v, w1) \<Rightarrow> k v w1)"

definition skip :: "(unit, 'g) run" where
  "skip w = Inr ((), w)"

definition CHECK :: "bool \<Rightarrow> (unit, 'g) run" where
  "CHECK b w = Inr ((), w\<lparr>pw_checks := b # pw_checks w\<rparr>)"

definition new_run :: "(unit, 'g) run" where
  "new_run w = Inr ((), w\<lparr>pw_engine := new_engine None\<rparr>)"

definition eng :: "(memory engine \<Rightarrow> EngineResult \<times> memory engine) \<Rightarrow> (EngineResult, 'g) run" where
  "eng f w = (case f (pw_engine w) of (r, e) \<Rightarrow> Inr (r, w\<lparr>pw_engine := e\<rparr>))"

definition snap :: "WorkloadId \<Rightarrow> (Workload, 'g) run" where
  "snap i w = Inr (snapshot i (pw_engine w), w)"

definition on_gpu :: "('g \<Rightarrow> ending + 'g) \<Rightarrow> (unit, 'g) run" where
  "on_gpu f w = (case f (pw_gpu w) of Inl x \<Rightarrow> Inl x | Inr g \<Rightarrow> Inr ((), w\<lparr>pw_gpu := g\<rparr>))"

definition on_gpu_bool :: "('g \<Rightarrow> ending + bool \<times> 'g) \<Rightarrow> (bool, 'g) run" where
  "on_gpu_bool f w = (case f (pw_gpu w) of Inl x \<Rightarrow> Inl x | Inr (b, g) \<Rightarrow> Inr (b, w\<lparr>pw_gpu := g\<rparr>))"

definition fill :: "'g gpu_ops \<Rightarrow> rat \<Rightarrow> (unit, 'g) run" where
  "fill G seed = on_gpu (\<lambda>g. Inr (go_fill G seed g))"

definition free_memory :: "'g gpu_ops \<Rightarrow> (u64, 'g) run" where
  "free_memory G w = (case go_freeMem G (pw_gpu w) of (m, g) \<Rightarrow> Inr (m, w\<lparr>pw_gpu := g\<rparr>))"

text \<open>\<open>std::optional::value\<close> of an empty optional throws, and nothing catches it.\<close>

definition value_of :: "'a option \<Rightarrow> ('a, 'g) run" where
  "value_of x w = (case x of None \<Rightarrow> Inl Terminate | Some v \<Rightarrow> Inr (v, w))"

text \<open>\<open>CHECK(f(...).outcome == ALLOW)\<close>, \<open>CHECK(p(eng.snapshot(id)))\<close> and the check of the memory.\<close>

definition allowed :: "(memory engine \<Rightarrow> EngineResult \<times> memory engine) \<Rightarrow> (unit, 'g) run" where
  "allowed f = seq (eng f) (\<lambda>r. CHECK (er_outcome r = Outcome.ALLOW))"

definition expect :: "WorkloadId \<Rightarrow> (Workload \<Rightarrow> bool) \<Rightarrow> (unit, 'g) run" where
  "expect i p = seq (snap i) (\<lambda>s. CHECK (p s))"

definition check_parity :: "'g gpu_ops \<Rightarrow> (unit, 'g) run" where
  "check_parity G = seq (on_gpu_bool (go_verifyParity G)) CHECK"

definition check_memory :: "'g gpu_ops \<Rightarrow> u64 \<Rightarrow> (unit, 'g) run" where
  "check_memory G beforeMem = seq (free_memory G) (\<lambda>m. CHECK (m \<ge> beforeMem))"

section \<open>Shared steps\<close>

text \<open>The double 1.0.\<close>

definition f64_one :: f64 where "f64_one = F64 0x3FF0000000000000"

definition proof_policy :: Policy where
  "proof_policy = default_policy\<lparr>
     po_restart := (po_restart default_policy)\<lparr>rp_kind := RestartKind.ALWAYS_WITH_LIMIT, rp_maxRestarts := 3\<rparr>,
     po_completion := (po_completion default_policy)\<lparr>cp_kind := CompletionKind.SINGLE_RESULT\<rparr>,
     po_migration := (po_migration default_policy)\<lparr>mp_eligibility := MigrationEligibility.CHECKPOINT_AND_RESUME\<rparr>,
     po_suspension := (po_suspension default_policy)\<lparr>sp_allowed := True\<rparr>,
     po_cancelRace := CancelRaceSemantics.COMPLETION_FIRST,
     po_generation := fromU64 1\<rparr>"

definition accelerator_requirement :: ResourceRequirement where
  "accelerator_requirement = \<lparr>rr_kind = ResourceKind.ACCELERATOR_COUNT, rr_level = NeedLevel.REQUIRED,
     rr_minValue = f64_one, rr_maxValue = f64_zero, rr_spec = []\<rparr>"

definition accelerator_grant :: "ResourceContractGeneration \<Rightarrow> ResourceGrant" where
  "accelerator_grant gen = \<lparr>rg_contractId = fromU64 10, rg_contractGeneration = gen, rg_status = GrantStatus.GRANTED,
     rg_bindings = [\<lparr>rb_kind = ResourceKind.ACCELERATOR_COUNT, rb_amount = f64_one, rb_qualifier = ''rtx5090''\<rparr>],
     rg_released = False\<rparr>"

definition makeReady :: "WorkloadId \<Rightarrow> (EngineResult, 'g) run" where
  "makeReady i =
     seq (eng (engine_create i ''cuda'' ''cuda-segmented'' proof_policy mem_save)) (\<lambda>r w.
     if \<not> isAllow (er_outcome r) then Inr (r, w)
     else
       seq (eng (engine_addResourceRequirement accelerator_requirement mem_save i)) (\<lambda>_.
       seq (snap i) (\<lambda>s.
       seq (eng (engine_applyGrant (accelerator_grant (rc_generation (wl_contract s))) mem_save i)) (\<lambda>_.
       seq (eng (engine_validate mem_save i)) (\<lambda>_.
       eng (engine_settle mem_save i))))) w)"

definition admit :: "WorkloadId \<Rightarrow> ExecutionEpisodeId \<Rightarrow> u64 \<Rightarrow> u64 \<Rightarrow> (unit, 'g) run" where
  "admit i ep wk boot = allowed (engine_admitDispatch ep (fromU64 wk) (fromU64 boot) mem_save i)"

definition report :: "WorkloadId \<Rightarrow> ExecutionEpisodeId \<Rightarrow> (EngineResult, 'g) run" where
  "report i ep = eng (engine_progress ep (fromU64 1) kUnits True mem_save i)"

primrec run_segments :: "'g gpu_ops \<Rightarrow> WorkloadId \<Rightarrow> ExecutionEpisodeId \<Rightarrow> nat list \<Rightarrow> (unit, 'g) run" where
  "run_segments G i ep [] = skip"
| "run_segments G i ep (s # ss) =
     seq (on_gpu (go_runSeg G (int s))) (\<lambda>_.
     seq (report i ep) (\<lambda>pr.
     seq (CHECK (isAllow (er_outcome pr))) (\<lambda>_.
     run_segments G i ep ss)))"

definition runFullToCompletion :: "'g gpu_ops \<Rightarrow> WorkloadId \<Rightarrow> nat \<Rightarrow> nat \<Rightarrow> (unit, 'g) run" where
  "runFullToCompletion G i startSeg endSeg =
     seq (snap i) (\<lambda>s. run_segments G i (currentEpisodeId s) [startSeg..<endSeg])"

definition start :: "WorkloadId \<Rightarrow> u64 \<Rightarrow> (EngineResult, 'g) run" where
  "start i owner = eng (engine_startEpisode (fromU64 owner) (fromU64 1) mem_save i)"

text \<open>Start an episode, check it, and take its identity.\<close>

definition started :: "WorkloadId \<Rightarrow> u64 \<Rightarrow> (ExecutionEpisodeId, 'g) run" where
  "started i owner =
     seq (start i owner) (\<lambda>se. seq (CHECK (isAllow (er_outcome se))) (\<lambda>_. value_of (er_episodeId se)))"

definition units :: "nat \<Rightarrow> Workload \<Rightarrow> bool" where
  "units n s \<longleftrightarrow> pg_completed (wl_progress s) = word_of_nat n * kUnits"

definition in_state :: "WorkloadState \<Rightarrow> Workload \<Rightarrow> bool" where
  "in_state st s \<longleftrightarrow> wl_state s = st"

definition complete_episode :: "WorkloadId \<Rightarrow> ExecutionEpisodeId \<Rightarrow> WorkloadGeneration \<Rightarrow> (unit, 'g) run" where
  "complete_episode i ep gen =
     seq (expect i (units kSegs)) (\<lambda>_.
     seq (allowed (engine_episodeCompleted ep mem_save i)) (\<lambda>_.
     allowed (engine_commitCompletion gen mem_save i)))"

section \<open>The scenarios\<close>

definition scenarioA :: "'g gpu_ops \<Rightarrow> (unit, 'g) run" where
  "scenarioA G =
     (let i = fromU64 1 in
     seq new_run (\<lambda>_.
     seq (makeReady i) (\<lambda>_.
     seq (expect i (in_state WorkloadState.READY)) (\<lambda>_.
     seq (started i 1) (\<lambda>ep.
     seq (snap i) (\<lambda>s. let gen = wl_generation s in
     seq (admit i ep 1 1) (\<lambda>_.
     seq (fill G (3 / 2)) (\<lambda>_.
     seq (free_memory G) (\<lambda>beforeMem.
     seq (on_gpu (go_alloc G)) (\<lambda>_.
     seq (runFullToCompletion G i 0 kSegs) (\<lambda>_.
     seq (check_parity G) (\<lambda>_.
     seq (complete_episode i ep gen) (\<lambda>_.
     seq (expect i (in_state WorkloadState.COMPLETED)) (\<lambda>_.
     seq (on_gpu (go_free G)) (\<lambda>_.
     seq (on_gpu (go_synchronize G)) (\<lambda>_.
     check_memory G beforeMem))))))))))))))))"

definition scenarioB :: "'g gpu_ops \<Rightarrow> (unit, 'g) run" where
  "scenarioB G =
     (let i = fromU64 2 in
     seq new_run (\<lambda>_.
     seq (makeReady i) (\<lambda>_.
     seq (started i 1) (\<lambda>ep1.
     seq (snap i) (\<lambda>s. let gen = wl_generation s in
     seq (admit i ep1 1 1) (\<lambda>_.
     seq (fill G 2) (\<lambda>_.
     seq (free_memory G) (\<lambda>beforeMem.
     seq (on_gpu (go_alloc G)) (\<lambda>_.
     seq (runFullToCompletion G i 0 2) (\<lambda>_.
     seq (expect i (units 2)) (\<lambda>_.
     seq (on_gpu (go_free G)) (\<lambda>_.
     seq (allowed (engine_onWorkerLost (fromU64 1) (fromU64 1) gen mem_save i)) (\<lambda>_.
     seq (expect i (in_state WorkloadState.RECOVERING)) (\<lambda>_.
     seq (allowed (engine_planRestart ''WORKER_LOSS'' gen mem_save i)) (\<lambda>_.
     seq (expect i (in_state WorkloadState.RESTART_PENDING)) (\<lambda>_.
     seq (expect i (\<lambda>s. wl_restartCount s = 1)) (\<lambda>_.
     seq (started i 2) (\<lambda>ep2.
     seq (snap i) (\<lambda>s. let gen2 = wl_generation s in
     seq (CHECK (toU64 gen2 \<noteq> toU64 gen)) (\<lambda>_.
     seq (admit i ep2 1 2) (\<lambda>_.
     seq (on_gpu (go_alloc G)) (\<lambda>_.
     seq (on_gpu (go_reconstruct G)) (\<lambda>_.
     seq (runFullToCompletion G i 2 kSegs) (\<lambda>_.
     seq (check_parity G) (\<lambda>_.
     seq (complete_episode i ep2 gen2) (\<lambda>_.
     seq (expect i (in_state WorkloadState.COMPLETED)) (\<lambda>_.
     seq (on_gpu (go_free G)) (\<lambda>_.
     check_memory G beforeMem))))))))))))))))))))))))))))"

definition scenarioC :: "'g gpu_ops \<Rightarrow> (unit, 'g) run" where
  "scenarioC G =
     (let i = fromU64 3 in
     seq new_run (\<lambda>_.
     seq (makeReady i) (\<lambda>_.
     seq (started i 1) (\<lambda>ep1.
     seq (snap i) (\<lambda>s. let gen = wl_generation s in
     seq (admit i ep1 1 1) (\<lambda>_.
     seq (fill G (7 / 2)) (\<lambda>_.
     seq (free_memory G) (\<lambda>beforeMem.
     seq (on_gpu (go_alloc G)) (\<lambda>_.
     seq (runFullToCompletion G i 0 3) (\<lambda>_.
     seq (expect i (units 3)) (\<lambda>_.
     seq (allowed (engine_requestMigration gen mem_save i)) (\<lambda>_.
     seq (expect i (in_state WorkloadState.MIGRATION_PENDING)) (\<lambda>_.
     seq (on_gpu (go_free G)) (\<lambda>_.
     seq (allowed (engine_commitMigration gen (fromU64 2) (fromU64 2) mem_save i)) (\<lambda>_.
     seq (expect i (in_state WorkloadState.RUNNING)) (\<lambda>_.
     seq (snap i) (\<lambda>s. let ep2 = currentEpisodeId s in
     seq (snap i) (\<lambda>s. let gen2 = wl_generation s in
     seq (on_gpu (go_alloc G)) (\<lambda>_.
     seq (on_gpu (go_reconstruct G)) (\<lambda>_.
     seq (runFullToCompletion G i 3 kSegs) (\<lambda>_.
     seq (check_parity G) (\<lambda>_.
     seq (complete_episode i ep2 gen2) (\<lambda>_.
     seq (expect i (in_state WorkloadState.COMPLETED)) (\<lambda>_.
     seq (expect i (\<lambda>s. length (filter ep_authoritative (wl_episodes s)) = 1)) (\<lambda>_.
     seq (on_gpu (go_free G)) (\<lambda>_.
     check_memory G beforeMem))))))))))))))))))))))))))"

text \<open>The suspended workload is saved and loaded again, and the loaded one is looked at.\<close>

definition check_durable :: "arg_order \<Rightarrow> arg_order \<Rightarrow> WorkloadId \<Rightarrow> (unit, 'g) run" where
  "check_durable oc od i =
     seq (snap i) (\<lambda>s.
     case mem_load oc od i (snd (mem_save s [])) of
       None \<Rightarrow> (\<lambda>w. Inl Terminate)
     | Some l \<Rightarrow>
         seq (CHECK (lr_outcome l = Outcome.ALLOW \<and> lr_workload l \<noteq> None)) (\<lambda>_.
         seq (value_of (lr_workload l)) (\<lambda>v.
         seq (CHECK (wl_state v = WorkloadState.SUSPENDED)) (\<lambda>_.
         CHECK (units 2 v)))))"

text \<open>The store of the fourth scenario is its parameter \<open>durable\<close>.\<close>

definition suspend_resume :: "(WorkloadId \<Rightarrow> (unit, 'g) run) \<Rightarrow> 'g gpu_ops \<Rightarrow> (unit, 'g) run" where
  "suspend_resume durable G =
     (let i = fromU64 4 in
     seq new_run (\<lambda>_.
     seq (makeReady i) (\<lambda>_.
     seq (started i 1) (\<lambda>ep1.
     seq (snap i) (\<lambda>s. let gen = wl_generation s in
     seq (admit i ep1 1 1) (\<lambda>_.
     seq (fill G 4) (\<lambda>_.
     seq (free_memory G) (\<lambda>beforeMem.
     seq (on_gpu (go_alloc G)) (\<lambda>_.
     seq (runFullToCompletion G i 0 2) (\<lambda>_.
     seq (allowed (engine_requestSuspend gen mem_save i)) (\<lambda>_.
     seq (allowed (engine_completeSuspend gen mem_save i)) (\<lambda>_.
     seq (expect i (in_state WorkloadState.SUSPENDED)) (\<lambda>_.
     seq (on_gpu (go_free G)) (\<lambda>_.
     seq (durable i) (\<lambda>_.
     seq (allowed (engine_requestResume gen mem_save i)) (\<lambda>_.
     seq (started i 2) (\<lambda>ep2.
     seq (snap i) (\<lambda>s. let gen2 = wl_generation s in
     seq (admit i ep2 1 2) (\<lambda>_.
     seq (on_gpu (go_alloc G)) (\<lambda>_.
     seq (on_gpu (go_reconstruct G)) (\<lambda>_.
     seq (runFullToCompletion G i 2 kSegs) (\<lambda>_.
     seq (check_parity G) (\<lambda>_.
     seq (complete_episode i ep2 gen2) (\<lambda>_.
     seq (on_gpu (go_free G)) (\<lambda>_.
     check_memory G beforeMem)))))))))))))))))))))))))"

definition scenarioD :: "arg_order \<Rightarrow> arg_order \<Rightarrow> 'g gpu_ops \<Rightarrow> (unit, 'g) run" where
  "scenarioD oc od G = suspend_resume (check_durable oc od) G"

definition scenarioE :: "'g gpu_ops \<Rightarrow> (unit, 'g) run" where
  "scenarioE G =
     (let i = fromU64 5 in
     seq new_run (\<lambda>_.
     seq (makeReady i) (\<lambda>_.
     seq (started i 1) (\<lambda>ep.
     seq (snap i) (\<lambda>s. let gen = wl_generation s in
     seq (admit i ep 1 1) (\<lambda>_.
     seq (fill G 5) (\<lambda>_.
     seq (free_memory G) (\<lambda>beforeMem.
     seq (on_gpu (go_alloc G)) (\<lambda>_.
     seq (on_gpu (go_runSeg G 0)) (\<lambda>_.
     seq (report i ep) (\<lambda>r. seq (CHECK (er_outcome r = Outcome.ALLOW)) (\<lambda>_.
     seq (allowed (engine_cancel gen mem_save i)) (\<lambda>_.
     seq (expect i (in_state WorkloadState.CANCELLATION_REQUESTED)) (\<lambda>_.
     seq (report i ep) (\<lambda>r. seq (CHECK (er_outcome r = Outcome.REJECT_CANCELLED)) (\<lambda>_.
     seq (start i 1) (\<lambda>se. seq (CHECK (er_episodeId se = None)) (\<lambda>_.
     seq (allowed (engine_completeCancellation gen mem_save i)) (\<lambda>_.
     seq (expect i (in_state WorkloadState.CANCELLED)) (\<lambda>_.
     seq (on_gpu (go_free G)) (\<lambda>_.
     check_memory G beforeMem)))))))))))))))))))))"

text \<open>
  The status \<open>main\<close> returns. Choosing the device, reading its properties and resetting it are
  calls whose failure ends the process with status 2.
\<close>

definition proof_program :: "('g gpu_ops \<Rightarrow> (unit, 'g) run) \<Rightarrow> 'g gpu_ops \<Rightarrow> (int, 'g) run" where
  "proof_program fourth G =
     seq (on_gpu (go_synchronize G)) (\<lambda>_.
     seq (on_gpu (go_synchronize G)) (\<lambda>_.
     seq (scenarioA G) (\<lambda>_. seq (scenarioB G) (\<lambda>_. seq (scenarioC G) (\<lambda>_.
     seq (fourth G) (\<lambda>_. seq (scenarioE G) (\<lambda>_.
     seq (on_gpu (go_synchronize G)) (\<lambda>_ w.
     Inr (if list_all id (pw_checks w) then 0 else 1, w)))))))))"

definition proof_main :: "arg_order \<Rightarrow> arg_order \<Rightarrow> 'g gpu_ops \<Rightarrow> (int, 'g) run" where
  "proof_main oc od G = proof_program (scenarioD oc od) G"

section \<open>A run without a device\<close>

text \<open>The dry run counts the calls of the runtime, and its memory queries have given answers.\<close>

definition dry_run :: "(nat \<Rightarrow> u64) \<Rightarrow> nat gpu_ops" where
  "dry_run answer = \<lparr>go_fill = (\<lambda>seed n. n), go_alloc = (\<lambda>n. Inr (n + 2)), go_free = (\<lambda>n. Inr (n + 1)),
     go_runSeg = (\<lambda>seg n. Inr (n + 2)), go_verifyParity = (\<lambda>n. Inr (True, n + 1)),
     go_reconstruct = (\<lambda>n. Inr (n + 1)), go_synchronize = (\<lambda>n. Inr (n + 1)),
     go_freeMem = (\<lambda>n. (answer n, n + 1))\<rparr>"

definition dry_world :: "nat world" where
  "dry_world = \<lparr>pw_engine = new_engine None, pw_gpu = 0, pw_checks = []\<rparr>"

text \<open>
  \<open>sim\<close>: from states with the same engine and checks, a program on a device does what its dry run
  does, or a call on the device fails; \<open>P\<close> and \<open>Q\<close> are what is known of the device before and
  after, given the count of the dry run. There is a rule for every construct of the programs.
\<close>

definition matches :: "'g world \<Rightarrow> 'd world \<Rightarrow> bool" where
  "matches w v \<longleftrightarrow> pw_engine w = pw_engine v \<and> pw_checks w = pw_checks v"

definition sim :: "bool \<Rightarrow> ('d \<Rightarrow> 'g \<Rightarrow> bool) \<Rightarrow> ('a, 'g) run \<Rightarrow> ('a, 'd) run \<Rightarrow> ('d \<Rightarrow> 'g \<Rightarrow> bool) \<Rightarrow> bool" where
  "sim may_fail P m m' Q \<longleftrightarrow> (\<forall>w v. P (pw_gpu v) (pw_gpu w) \<longrightarrow> matches w v \<longrightarrow>
     (case m w of
        Inl x \<Rightarrow> may_fail \<and> x = Exit 2 \<or> m' v = Inl x
      | Inr (a, w') \<Rightarrow> \<exists>v'. m' v = Inr (a, v') \<and> Q (pw_gpu v') (pw_gpu w') \<and> matches w' v'))"

lemma sim_seq:
  assumes "sim b P m m' R" and "\<And>x. sim b R (k x) (k' x) Q"
  shows "sim b P (seq m k) (seq m' k') Q"
  unfolding sim_def
proof (intro allI impI)
  fix w v
  assume "P (pw_gpu v) (pw_gpu w)" "matches w v"
  with assms(1) have m: "case m w of Inl x \<Rightarrow> b \<and> x = Exit 2 \<or> m' v = Inl x
      | Inr (a, w') \<Rightarrow> \<exists>v'. m' v = Inr (a, v') \<and> R (pw_gpu v') (pw_gpu w') \<and> matches w' v'"
    by (simp add: sim_def)
  show "case seq m k w of Inl x \<Rightarrow> b \<and> x = Exit 2 \<or> seq m' k' v = Inl x
      | Inr (a, w') \<Rightarrow> \<exists>v'. seq m' k' v = Inr (a, v') \<and> Q (pw_gpu v') (pw_gpu w') \<and> matches w' v'"
  proof (cases "m w")
    case (Inl x)
    with m show ?thesis by (auto simp: seq_def)
  next
    case (Inr p)
    obtain a w' where p: "p = (a, w')" by (cases p)
    with m Inr obtain v' where "m' v = Inr (a, v')" "R (pw_gpu v') (pw_gpu w')" "matches w' v'" by auto
    moreover have "seq m k w = k a w'" "seq m' k' v = k' a v'"
      using Inr p \<open>m' v = Inr (a, v')\<close> by (simp_all add: seq_def)
    ultimately show ?thesis using assms(2) [of a] by (simp only: sim_def)
  qed
qed

lemma sim_engine:
  "sim b P skip skip P" "sim b P (CHECK c) (CHECK c) P" "sim b P new_run new_run P" "sim b P (eng f) (eng f) P"
  "sim b P (snap i) (snap i) P" "sim b P (value_of x) (value_of x) P" "sim b P (\<lambda>w. Inr (r, w)) (\<lambda>w. Inr (r, w)) P"
  "sim b P (\<lambda>w. Inl Terminate) (\<lambda>w. Inl Terminate) P"
  by (simp_all add: sim_def matches_def skip_def CHECK_def new_run_def eng_def snap_def value_of_def
      split: option.split prod.split)

lemma sim_if: "(c \<Longrightarrow> sim b P m m' Q) \<Longrightarrow> (\<not> c \<Longrightarrow> sim b P n n' Q) \<Longrightarrow>
  sim b P (\<lambda>w. if c then m w else n w) (\<lambda>w. if c then m' w else n' w) Q"
  by (simp add: sim_def)

lemma sim_option: "(x = None \<Longrightarrow> sim b P m m' Q) \<Longrightarrow> (\<And>y. x = Some y \<Longrightarrow> sim b P (n y) (n' y) Q) \<Longrightarrow>
  sim b P (case x of None \<Rightarrow> m | Some y \<Rightarrow> n y) (case x of None \<Rightarrow> m' | Some y \<Rightarrow> n' y) Q"
  by (cases x) simp_all

lemma sim_engine_part:
  "sim b P (allowed f) (allowed f) P" "sim b P (expect i p) (expect i p) P" "sim b P (makeReady i) (makeReady i) P"
  "sim b P (admit i ep wk boot) (admit i ep wk boot) P" "sim b P (report i ep) (report i ep) P"
  "sim b P (start i ow) (start i ow) P" "sim b P (started i ow) (started i ow) P"
  "sim b P (complete_episode i ep gen) (complete_episode i ep gen) P" "sim b P (check_durable oc od i) (check_durable oc od i) P"
  unfolding allowed_def expect_def makeReady_def admit_def report_def start_def started_def complete_episode_def check_durable_def
  by (rule sim_seq sim_if sim_option sim_engine)+

lemma sim_device:
  assumes "\<And>n g. P n g \<Longrightarrow> lands b (Q (h n)) (f g)"
  shows "sim b P (on_gpu f) (on_gpu (\<lambda>n. Inr (h n))) Q"
  unfolding sim_def
proof (intro allI impI)
  fix w :: "'b world" and v :: "'a world"
  assume "P (pw_gpu v) (pw_gpu w)" "matches w v"
  with assms [of "pw_gpu v" "pw_gpu w"]
  show "case on_gpu f w of Inl x \<Rightarrow> b \<and> x = Exit 2 \<or> on_gpu (\<lambda>n. Inr (h n)) v = Inl x
      | Inr (a, w') \<Rightarrow> \<exists>v'. on_gpu (\<lambda>n. Inr (h n)) v = Inr (a, v') \<and> Q (pw_gpu v') (pw_gpu w') \<and> matches w' v'"
    by (auto simp: on_gpu_def lands_def matches_def split: sum.splits)
qed

lemma segments_in_range: "2 \<le> kSegs" "3 \<le> kSegs" "kSegs \<le> kSegs" "(0 :: int) \<le> 0" "0 < int kSegs"
  by (simp_all add: kSegs_def)

context gpu_device
begin

lemma fill_lands: "idle m n g \<Longrightarrow> lands may_fail (idle m n) (Inr (go_fill G seed g))"
  by (simp add: lands_def local.fill)

lemma sim_operations:
  "sim may_fail (idle m) (fill G seed) (fill (dry_run answer) seed) (idle m)"
  "sim may_fail (idle m) (on_gpu (go_alloc G)) (on_gpu (go_alloc (dry_run answer))) (resident m)"
  "sim may_fail (resident m) (on_gpu (go_free G)) (on_gpu (go_free (dry_run answer))) (idle m)"
  "sim may_fail (resident m) (on_gpu (go_reconstruct G)) (on_gpu (go_reconstruct (dry_run answer))) (resident m)"
  "sim may_fail (idle m) (on_gpu (go_synchronize G)) (on_gpu (go_synchronize (dry_run answer))) (idle m)"
  unfolding dry_run_def gpu_ops.simps fill_def
  by (rule sim_device, (rule fill_lands alloc free reconstruct synchronize, assumption))+

lemma sim_runSeg:
  "0 \<le> s \<Longrightarrow> s < int kSegs \<Longrightarrow>
   sim may_fail (resident m) (on_gpu (go_runSeg G s)) (on_gpu (go_runSeg (dry_run answer) s)) (resident m)"
  unfolding dry_run_def gpu_ops.simps by (rule sim_device) (rule runSeg)

lemma sim_parity: "sim may_fail (resident m) (check_parity G) (check_parity (dry_run answer)) (resident m)"
  unfolding sim_def
proof (intro allI impI)
  fix w and v :: "nat world"
  assume "resident m (pw_gpu v) (pw_gpu w)" "matches w v"
  with verifyParity [of m "pw_gpu v" "pw_gpu w"]
  show "case check_parity G w of Inl x \<Rightarrow> may_fail \<and> x = Exit 2 \<or> check_parity (dry_run answer) v = Inl x
      | Inr (a, w') \<Rightarrow> \<exists>v'. check_parity (dry_run answer) v = Inr (a, v') \<and> resident m (pw_gpu v') (pw_gpu w') \<and> matches w' v'"
    by (auto simp: check_parity_def seq_def on_gpu_bool_def CHECK_def dry_run_def lands_def matches_def split: sum.splits)
qed

lemma sim_memory: "sim may_fail (idle m) (free_memory G) (free_memory (dry_run answer)) (idle m)"
  unfolding sim_def
proof (intro allI impI)
  fix w and v :: "nat world"
  assume "idle m (pw_gpu v) (pw_gpu w)" "matches w v"
  with freeMem [of m "pw_gpu v" "pw_gpu w"]
  show "case free_memory G w of Inl x \<Rightarrow> may_fail \<and> x = Exit 2 \<or> free_memory (dry_run answer) v = Inl x
      | Inr (a, w') \<Rightarrow> \<exists>v'. free_memory (dry_run answer) v = Inr (a, v') \<and> idle m (pw_gpu v') (pw_gpu w') \<and> matches w' v'"
    by (auto simp: free_memory_def dry_run_def matches_def case_prod_unfold)
qed

lemma sim_check_memory: "sim may_fail (idle m) (check_memory G b) (check_memory (dry_run answer) b) (idle m)"
  unfolding check_memory_def by (rule sim_seq sim_memory sim_engine)+

lemma sim_segments:
  "list_all (\<lambda>s. s < kSegs) ss \<Longrightarrow>
   sim may_fail (resident m) (run_segments G i ep ss) (run_segments (dry_run answer) i ep ss) (resident m)"
proof (induction ss)
  case Nil
  then show ?case by (simp add: sim_engine)
next
  case (Cons s ss)
  then have s: "0 \<le> int s" "int s < int kSegs" and rest: "list_all (\<lambda>s. s < kSegs) ss" by simp_all
  show ?case
    unfolding run_segments.simps
    by (rule sim_seq Cons.IH [OF rest] sim_runSeg [OF s] sim_engine sim_engine_part)+
qed

lemma sim_run:
  assumes "b \<le> kSegs"
  shows "sim may_fail (resident m) (runFullToCompletion G i a b) (runFullToCompletion (dry_run answer) i a b) (resident m)"
proof -
  have "list_all (\<lambda>s. s < kSegs) [a..<b]" using assms by (simp add: list_all_iff)
  then show ?thesis unfolding runFullToCompletion_def by (rule sim_seq [OF sim_engine(5) sim_segments])
qed

lemmas sim_steps = sim_seq [OF sim_memory] sim_seq [OF sim_operations(1)] sim_seq [OF sim_operations(2)]
  sim_seq [OF sim_operations(3)] sim_seq [OF sim_operations(4)] sim_seq [OF sim_operations(5)]
  sim_seq [OF sim_runSeg [OF segments_in_range(4,5)]] sim_seq [OF sim_parity]
  sim_seq [OF sim_run [OF segments_in_range(1)]] sim_seq [OF sim_run [OF segments_in_range(2)]]
  sim_seq [OF sim_run [OF segments_in_range(3)]] sim_check_memory

lemma sim_scenarios:
  "sim may_fail (idle m) (scenarioA G) (scenarioA (dry_run answer)) (idle m)"
  "sim may_fail (idle m) (scenarioB G) (scenarioB (dry_run answer)) (idle m)"
  "sim may_fail (idle m) (scenarioC G) (scenarioC (dry_run answer)) (idle m)"
  "sim may_fail (idle m) (scenarioD oc od G) (scenarioD oc od (dry_run answer)) (idle m)"
  "sim may_fail (idle m) (scenarioE G) (scenarioE (dry_run answer)) (idle m)"
  unfolding scenarioA_def scenarioB_def scenarioC_def scenarioD_def suspend_resume_def scenarioE_def Let_def
  by (rule sim_steps sim_engine sim_engine_part sim_seq)+

lemma sim_status: "sim may_fail P (\<lambda>w. Inr (if list_all id (pw_checks w) then 0 else 1, w))
  (\<lambda>w. Inr (if list_all id (pw_checks w) then 0 else 1, w)) P"
  by (simp add: sim_def matches_def)

lemma sim_main: "sim may_fail (idle m) (proof_main oc od G) (proof_main oc od (dry_run answer)) (idle m)"
  unfolding proof_main_def proof_program_def by (rule sim_operations(5) sim_scenarios sim_status sim_seq)+

end

section \<open>The result\<close>

text \<open>
  The dry run of the fourth scenario without the codec: the store gives back a workload that can be
  stored with its state and progress. \<open>below\<close>: a program does what another does unless that one
  terminates.
\<close>

definition check_reloaded :: "WorkloadId \<Rightarrow> (unit, 'g) run" where
  "check_reloaded i =
     seq (snap i) (\<lambda>s w.
     if storable s \<and> wl_id s = i
     then seq (CHECK True) (\<lambda>_. seq (CHECK (wl_state s = WorkloadState.SUSPENDED)) (\<lambda>_. CHECK (units 2 s))) w
     else Inl Terminate)"

definition below :: "('a, 'g) run \<Rightarrow> ('a, 'g) run \<Rightarrow> bool" where
  "below m n \<longleftrightarrow> (\<forall>w. n w = Inl Terminate \<or> m w = n w)"

lemma below_refl: "below m m"
  by (simp add: below_def)

lemma below_seq: "below m n \<Longrightarrow> (\<And>x. below (k x) (l x)) \<Longrightarrow> below (seq m k) (seq n l)"
proof (unfold below_def, intro allI)
  fix w
  assume "\<forall>w. n w = Inl Terminate \<or> m w = n w" and "\<And>x. \<forall>w. l x w = Inl Terminate \<or> k x w = l x w"
  then have "n w = Inl Terminate \<or> m w = n w" "\<And>x v. l x v = Inl Terminate \<or> k x v = l x v" by simp_all
  then show "seq n l w = Inl Terminate \<or> seq m k w = seq n l w"
    by (cases "n w") (auto simp: seq_def)
qed

lemma below_reloaded: "below (check_durable oc od i) (check_reloaded i)"
  unfolding below_def
proof (intro allI)
  fix w :: "'a world"
  let ?s = "snapshot i (pw_engine w)"
  show "check_reloaded i w = Inl Terminate \<or> check_durable oc od i w = check_reloaded i w"
  proof (cases "storable ?s \<and> wl_id ?s = i")
    case True
    then have "mem_load oc od i (snd (mem_save ?s [])) = Some (loaded (restored oc od ?s))"
      using memory.load_saved [of "[]" ?s oc od] by simp
    with True show ?thesis
      by (simp add: check_durable_def check_reloaded_def seq_def snap_def CHECK_def value_of_def loaded_def
          restored_def units_def)
  qed (simp only: check_reloaded_def seq_def snap_def sum.case prod.case if_False, simp)
qed

lemma below_D: "below (scenarioD oc od G) (suspend_resume check_reloaded G)"
  unfolding scenarioD_def suspend_resume_def Let_def by (rule below_reloaded below_refl below_seq)+

lemma below_main: "below (proof_main oc od G) (proof_program (suspend_resume check_reloaded) G)"
  unfolding proof_main_def proof_program_def by (rule below_D below_refl below_seq)+

text \<open>The status a program returns, how many checks it makes, and whether they hold.\<close>

definition verdict :: "int \<times> 'g world \<Rightarrow> int \<times> nat \<times> bool" where
  "verdict p = (fst p, length (pw_checks (snd p)), list_all id (pw_checks (snd p)))"

text \<open>
  The five checks of the memory: which of the 98 checks they are, and the numbers of the two queries
  each compares. All the other checks hold.
\<close>

definition memory_checks :: "(nat \<times> nat \<times> nat) list" where
  "memory_checks = [(16, 2, 24), (41, 25, 50), (63, 51, 76), (87, 77, 102), (97, 103, 109)]"

definition expected_checks :: "(nat \<Rightarrow> u64) \<Rightarrow> bool list" where
  "expected_checks answer =
     map (\<lambda>k. case map_of memory_checks k of None \<Rightarrow> True | Some (before, after) \<Rightarrow> answer before \<le> answer after) [0..<98]"

lemma dry_reloaded:
  "map_sum id (\<lambda>p. rev (pw_checks (snd p))) (proof_program (suspend_resume check_reloaded) (dry_run answer) dry_world) =
     Inr (expected_checks answer)"
  by code_simp

lemma dry_main: "map_sum id (\<lambda>p. rev (pw_checks (snd p))) (proof_main oc od (dry_run answer) dry_world) = Inr (expected_checks answer)"
proof -
  have "proof_program (suspend_resume check_reloaded) (dry_run answer) dry_world \<noteq> Inl Terminate"
    using dry_reloaded [of answer]
    by (cases "proof_program (suspend_resume check_reloaded) (dry_run answer) dry_world") auto
  with below_main [of oc od "dry_run answer"]
  have "proof_main oc od (dry_run answer) dry_world = proof_program (suspend_resume check_reloaded) (dry_run answer) dry_world"
    unfolding below_def by blast
  with dry_reloaded show ?thesis by simp
qed

lemma seq_Inr: "seq m k w = Inr p \<Longrightarrow> \<exists>x w'. k x w' = Inr p"
  by (cases "m w") (auto simp: seq_def)

lemma main_status:
  assumes "proof_main oc od G w = Inr (status, v)"
  shows "status = (if list_all id (pw_checks v) then 0 else 1)"
proof -
  from assms obtain w' where "(\<lambda>w. Inr (if list_all id (pw_checks w) then 0 else 1, w)) w' = Inr (status, v)"
    unfolding proof_main_def proof_program_def by (blast dest: seq_Inr)
  then show ?thesis by auto
qed

lemma expected_checks_hold:
  "list_all id (expected_checks answer) \<longleftrightarrow>
     list_all (\<lambda>(k, before, after). answer before \<le> answer after) memory_checks"
proof -
  have keys: "distinct (map fst memory_checks)" "list_all (\<lambda>p. fst p < 98) memory_checks"
    by (simp_all add: memory_checks_def)
  have at: "(case map_of memory_checks k of None \<Rightarrow> True | Some (before, after) \<Rightarrow> answer before \<le> answer after) \<longleftrightarrow>
      (\<forall>before after. (k, before, after) \<in> set memory_checks \<longrightarrow> answer before \<le> answer after)" for k
  proof -
    have "(k, q) \<in> set memory_checks \<longleftrightarrow> map_of memory_checks k = Some q" for q
      using keys(1) by (rule map_of_eq_Some_iff [symmetric])
    then show ?thesis by (simp split: option.split prod.split)
  qed
  have "list_all id (expected_checks answer) \<longleftrightarrow>
      (\<forall>k<98. \<forall>before after. (k, before, after) \<in> set memory_checks \<longrightarrow> answer before \<le> answer after)"
    unfolding expected_checks_def at by (auto simp: list_all_iff)
  also have "\<dots> \<longleftrightarrow> list_all (\<lambda>(k, before, after). answer before \<le> answer after) memory_checks"
    using keys(2) unfolding list_all_iff by fastforce
  finally show ?thesis .
qed

text \<open>
  C28. The CUDA proof program, whatever checked calls of the runtime fail, whatever fresh device
  memory holds, whatever \<open>cudaMemGetInfo\<close> answers and in whatever order the threads of each
  launch run: if it ends early, it ends with status 2 and a checked call has failed. Otherwise it
  has made its 98 checks, all of which hold except possibly the five that compare the free memory
  reported before and after a scenario (a failed query reports 0); it returns 0 if these hold and
  1 if not; and the blocks allocated on the device are those that were at the start. It never
  behaves in an undefined way and never terminates abnormally.
\<close>

theorem cuda_proof_passes:
  "case proof_main oc od (cuda_ops env) \<lparr>pw_engine = new_engine None,
      pw_gpu = (fillRef seed, \<lparr>dv_calls = 0, dv_blocks = blocks\<rparr>), pw_checks = []\<rparr> of
     Inl x \<Rightarrow> (\<exists>k. \<not> ce_ok env k) \<and> x = Exit 2
   | Inr (status, w) \<Rightarrow>
       rev (pw_checks w) = expected_checks (reported (ce_free env)) \<and>
       status = (if list_all (\<lambda>(k, before, after).
                        reported (ce_free env) before \<le> reported (ce_free env) after) memory_checks
                 then 0 else 1) \<and>
       live (snd (pw_gpu w)) = live \<lparr>dv_calls = 0, dv_blocks = blocks\<rparr>"
proof -
  let ?dv = "\<lparr>dv_calls = 0, dv_blocks = blocks\<rparr>" and ?answer = "reported (ce_free env)"
  let ?w = "\<lparr>pw_engine = new_engine None, pw_gpu = (fillRef seed, ?dv), pw_checks = []\<rparr>"
  have "cuda_idle (live ?dv) (pw_gpu dry_world) (pw_gpu ?w)"
    by (simp add: cuda_idle_def mirrored_def fillRef_def kBuf_def dry_world_def)
  moreover have "matches ?w dry_world" by (simp add: matches_def dry_world_def)
  ultimately have run: "case proof_main oc od (cuda_ops env) ?w of
      Inl x \<Rightarrow> (\<exists>k. \<not> ce_ok env k) \<and> x = Exit 2 \<or> proof_main oc od (dry_run ?answer) dry_world = Inl x
    | Inr (a, w') \<Rightarrow> \<exists>v'. proof_main oc od (dry_run ?answer) dry_world = Inr (a, v') \<and>
        cuda_idle (live ?dv) (pw_gpu v') (pw_gpu w') \<and> matches w' v'"
    using cuda.sim_main [of env "live ?dv" oc od] unfolding sim_def by blast
  obtain s v where v: "proof_main oc od (dry_run ?answer) dry_world = Inr (s, v)"
      "rev (pw_checks v) = expected_checks ?answer"
    using dry_main [of oc od ?answer] by (cases "proof_main oc od (dry_run ?answer) dry_world") auto
  show ?thesis
  proof (cases "proof_main oc od (cuda_ops env) ?w")
    case (Inl x)
    with run v(1) show ?thesis by simp
  next
    case (Inr p)
    obtain status w where p: "p = (status, w)" by (cases p)
    with run Inr v have w: "pw_checks w = pw_checks v" "live (snd (pw_gpu w)) = live ?dv"
      by (auto simp: matches_def cuda_idle_def)
    have "list_all id (pw_checks w) = list_all id (expected_checks ?answer)"
      by (simp only: v(2) [symmetric] w(1) list_all_rev)
    then have "status = (if list_all (\<lambda>(k, before, after). ?answer before \<le> ?answer after) memory_checks then 0 else 1)"
      using main_status [OF Inr [unfolded p]] by (simp only: expected_checks_hold)
    with w v(2) show ?thesis by (simp only: Inr p sum.case prod.case simp_thms)
  qed
qed

end
