(* ===== verification/Conformance.thy ===== *)
theory Conformance
  imports Scenarios Hooks Adapters
begin

text \<open>
  The test programs of the repository (\<open>tests/test_core.cpp\<close>, \<open>tests/test_scenarios.cpp\<close>,
  \<open>tests/test_adversarial.cpp\<close>, \<open>tests/smoke.cpp\<close>), run on the definitions of this library: every
  check the authors wrote down about the code holds of its model. A test is a program in the sense
  of \<open>Scenarios\<close>, without a device.
\<close>

section \<open>Programs over one workload\<close>

text \<open>
  \<open>CHECK_EQ(x.f(...), o)\<close>: the call changes the object, its outcome is checked; and \<open>CHECK(p(x))\<close>.
\<close>

definition returns :: "('b \<Rightarrow> Outcome \<times> 'b) \<Rightarrow> Outcome \<Rightarrow> 'b \<Rightarrow> ('b, 'g) run" where
  "returns f o' x s = (let a = f x in Inr (snd a, s\<lparr>pw_checks := (fst a = o') # pw_checks s\<rparr>))"

definition holds :: "('b \<Rightarrow> bool) \<Rightarrow> 'b \<Rightarrow> (unit, 'g) run" where
  "holds p x s = CHECK (p x) s"

definition goodPolicy :: Policy where
  "goodPolicy = default_policy\<lparr>
     po_restart := (po_restart default_policy)\<lparr>rp_kind := RestartKind.ALWAYS_WITH_LIMIT, rp_maxRestarts := 2\<rparr>,
     po_completion := (po_completion default_policy)\<lparr>cp_kind := CompletionKind.SINGLE_RESULT\<rparr>,
     po_migration := (po_migration default_policy)\<lparr>mp_eligibility := MigrationEligibility.CHECKPOINT_AND_RESUME\<rparr>,
     po_suspension := (po_suspension default_policy)\<lparr>sp_allowed := True\<rparr>,
     po_generation := fromU64 1\<rparr>"

text \<open>The requirement of one accelerator and a grant of it, which all tests use.\<close>

definition one_accelerator :: ResourceRequirement where
  "one_accelerator = \<lparr>rr_kind = ResourceKind.ACCELERATOR_COUNT, rr_level = NeedLevel.REQUIRED,
     rr_minValue = f64_one, rr_maxValue = f64_zero, rr_spec = []\<rparr>"

definition granted_accelerator :: "string \<Rightarrow> ResourceContractGeneration \<Rightarrow> ResourceGrant" where
  "granted_accelerator device gen = \<lparr>rg_contractId = UniqueValue 10, rg_contractGeneration = gen,
     rg_status = GrantStatus.GRANTED,
     rg_bindings = [\<lparr>rb_kind = ResourceKind.ACCELERATOR_COUNT, rb_amount = f64_one, rb_qualifier = device\<rparr>],
     rg_released = False\<rparr>"

definition makeWl :: "WorkloadId \<Rightarrow> Workload" where
  "makeWl i =
     (let w = create i (''w'' @ to_string (toU64 i)) ''compute'';
          w = setPolicyForTest goodPolicy w;
          w = w\<lparr>wl_contract := contract_setIdForTest (UniqueValue 10) (wl_contract w)\<rparr>;
          w = snd (on_contract (add_requirement one_accelerator) w);
          w = snd (on_contract (applyGrant (granted_accelerator ''gpu0'' (fromU64 (toU64 (rc_generation (wl_contract w)))))) w);
          w = w\<lparr>wl_deps := deps_setIdForTest (UniqueValue 20) (wl_deps w)\<rparr>;
          w = w\<lparr>wl_deps := addDefForTest \<lparr>dd_dependsOn = UniqueValue 2, dd_requirement = DependencyRequirement.REQUIRED,
                 dd_readyWhen = DependencyReady.COMPLETED, dd_artifactKey = []\<rparr> (wl_deps w)\<rparr>
      in snd (on_deps (setStatus 0 DependencyStatus.SATISFIED (fromU64 1)) w))"

section \<open>The core tests\<close>

definition testIllegalTransitions :: "(unit, 'g) run" where
  "testIllegalTransitions =
     (let w = makeWl (UniqueValue 1); g1 = fromU64 1 in
     seq (returns (transition WorkloadState.COMPLETED g1 ''x'') Outcome.REJECT_COMPLETION_POLICY w) (\<lambda>w.
     seq (returns (transition WorkloadState.COMPLETED g1 ''x'') Outcome.REJECT_COMPLETION_POLICY w) (\<lambda>w.
     seq (CHECK (wl_state w = WorkloadState.CREATED)) (\<lambda>_.
     seq (returns (transition WorkloadState.VALIDATING (fromU64 99) ''x'') Outcome.REJECT_STALE_WORKLOAD_GENERATION w) (\<lambda>w.
     seq (returns (transition WorkloadState.VALIDATING g1 ''validate'') Outcome.ALLOW w) (\<lambda>w.
     CHECK (wl_state w = WorkloadState.VALIDATING)))))))"



definition testZeroWorkAllowed :: "(unit, 'g) run" where
  "testZeroWorkAllowed =
     (let w = makeWl (UniqueValue 2);
          w = setPolicyForTest (goodPolicy\<lparr>po_completion := (po_completion goodPolicy)\<lparr>cp_allowZeroWorkCompletion := True\<rparr>\<rparr>) w in
     seq (returns (transition WorkloadState.COMPLETED (fromU64 1) ''zero'') Outcome.ALLOW w) (\<lambda>w.
     seq (CHECK (wl_state w = WorkloadState.COMPLETED)) (\<lambda>_.
     seq (returns (transition WorkloadState.RUNNING (fromU64 1) ''x'') Outcome.REJECT_TERMINAL w) (\<lambda>w. skip))))"

definition testHappyPath :: "(unit, 'g) run" where
  "testHappyPath =
     (let w = makeWl (UniqueValue 3) in
     seq (holds (satisfied \<circ> wl_contract) w) (\<lambda>_.
     seq (holds (deps_ready \<circ> wl_deps) w) (\<lambda>_.
     seq (returns (transition WorkloadState.VALIDATING (fromU64 1) ''validate'') Outcome.ALLOW w) (\<lambda>w.
     seq (returns (settle (fromU64 1)) Outcome.ALLOW w) (\<lambda>w.
     seq (CHECK (wl_state w = WorkloadState.READY)) (\<lambda>_.
     seq (returns (startEpisode (UniqueValue 100) (UniqueValue 1) (fromU64 1) True) Outcome.ALLOW w) (\<lambda>w.
     seq (CHECK (wl_state w = WorkloadState.STARTING)) (\<lambda>_.
     seq (CHECK (toU64 (wl_generation w) = 2)) (\<lambda>_.
     let g2 = wl_generation w in
     seq (returns (admitDispatch (UniqueValue 100) (UniqueValue 1) (UniqueValue 50)) Outcome.ALLOW w) (\<lambda>w.
     seq (CHECK (wl_state w = WorkloadState.RUNNING)) (\<lambda>_.
     seq (returns (reportProgress (UniqueValue 100) (fromU64 1) 5 True) Outcome.ALLOW w) (\<lambda>w.
     seq (CHECK (pg_completed (wl_progress w) = 5)) (\<lambda>_.
     seq (returns (markEpisodeCompleted (UniqueValue 100)) Outcome.ALLOW w) (\<lambda>w.
     seq (returns (commitCompletion g2) Outcome.ALLOW w) (\<lambda>w.
     seq (CHECK (wl_state w = WorkloadState.COMPLETED)) (\<lambda>_.
     seq (returns (planRestart g2 ''x'') Outcome.REJECT_TERMINAL w) (\<lambda>w.
     CHECK (wl_restartCount w = 0))))))))))))))))))"

text \<open>The steps with which most tests bring a workload to a dispatched episode.\<close>

definition dispatched :: "ExecutionEpisodeId \<Rightarrow> Workload \<Rightarrow> (Workload \<times> WorkloadGeneration, 'g) run" where
  "dispatched ep w =
     seq (returns (transition WorkloadState.VALIDATING (fromU64 1) ''v'') Outcome.ALLOW w) (\<lambda>w.
     seq (returns (settle (fromU64 1)) Outcome.ALLOW w) (\<lambda>w.
     seq (returns (startEpisode ep (UniqueValue 1) (fromU64 1) True) Outcome.ALLOW w) (\<lambda>w.
     let g2 = wl_generation w in
     seq (returns (admitDispatch ep (UniqueValue 1) (UniqueValue 50)) Outcome.ALLOW w) (\<lambda>w s. Inr ((w, g2), s)))))"

definition testRestartLimitOffByOne :: "(unit, 'g) run" where
  "testRestartLimitOffByOne =
     seq (dispatched (UniqueValue 200) (makeWl (UniqueValue 4))) (\<lambda>(w, g2).
     seq (returns (onWorkerLost (UniqueValue 1) (UniqueValue 50) g2) Outcome.ALLOW w) (\<lambda>w.
     seq (CHECK (wl_state w = WorkloadState.RECOVERING)) (\<lambda>_.
     seq (returns (planRestart g2 ''WORKER_LOSS'') Outcome.ALLOW w) (\<lambda>w.
     seq (CHECK (wl_restartCount w = 1)) (\<lambda>_.
     seq (CHECK (wl_state w = WorkloadState.RESTART_PENDING)) (\<lambda>_.
     seq (returns (planRestart g2 ''WORKER_LOSS'') Outcome.ALLOW w) (\<lambda>w.
     seq (CHECK (wl_restartCount w = 2)) (\<lambda>_.
     seq (returns (planRestart g2 ''WORKER_LOSS'') Outcome.REJECT_RESTART_LIMIT w) (\<lambda>w.
     CHECK (wl_restartCount w = 2))))))))))"

definition testStaleAuthority :: "(unit, 'g) run" where
  "testStaleAuthority =
     seq (dispatched (UniqueValue 300) (makeWl (UniqueValue 5))) (\<lambda>(w, g2).
     seq (returns (reportProgress (UniqueValue 300) (fromU64 7) 3 True) Outcome.REJECT_STALE_EPISODE w) (\<lambda>w.
     seq (returns (reportProgress (UniqueValue 300) (fromU64 1) 3 True) Outcome.ALLOW w) (\<lambda>w.
     seq (returns (onWorkerLost (UniqueValue 1) (UniqueValue 999) g2) Outcome.REJECT_STALE_BOOT w) (\<lambda>w.
     seq (returns (onWorkerLost (UniqueValue 1) (UniqueValue 50) g2) Outcome.ALLOW w) (\<lambda>w.
     CHECK (wl_state w = WorkloadState.RECOVERING))))))"

text \<open>\<open>decodeWorkload\<close> as a call of a program: it may terminate the process.\<close>

definition decoded :: "arg_order \<Rightarrow> arg_order \<Rightarrow> bytes \<Rightarrow> (Outcome \<times> Workload, 'g) run" where
  "decoded oc od data = value_of (decodeWorkload oc od data)"

definition has_record :: "Workload \<Rightarrow> bool" where
  "has_record w \<longleftrightarrow> length (encodeWorkload w) > 0"

text \<open>The checks on the workload that comes back from its record.\<close>

definition same_as :: "Workload \<Rightarrow> Outcome \<times> Workload \<Rightarrow> (unit, 'g) run" where
  "same_as w x =
     (case x of (st, r) \<Rightarrow>
     seq (CHECK (isAllow st)) (\<lambda>_.
     seq (CHECK (wl_id r = wl_id w)) (\<lambda>_.
     seq (CHECK (wl_state r = wl_state w)) (\<lambda>_.
     seq (CHECK (pg_completed (wl_progress r) = 9)) (\<lambda>_.
     seq (CHECK (length (wl_episodes r) = 1)) (\<lambda>_.
     holds has_record r))))))"

definition round_trip_test :: "(Workload \<Rightarrow> (unit, 'g) run) \<Rightarrow> (unit, 'g) run" where
  "round_trip_test reload =
     seq (dispatched (UniqueValue 400) (makeWl (UniqueValue 6))) (\<lambda>(w, g2).
     seq (returns (reportProgress (UniqueValue 400) (fromU64 1) 9 True) Outcome.ALLOW w) (\<lambda>w.
     reload w))"

definition testPersistenceRoundTrip :: "arg_order \<Rightarrow> arg_order \<Rightarrow> (unit, 'g) run" where
  "testPersistenceRoundTrip oc od = round_trip_test (\<lambda>w.
     seq (holds has_record w) (\<lambda>_. seq (decoded oc od (encodeWorkload w)) (same_as w)))"

text \<open>The loop over the bytes of a record: how many changes are rejected.\<close>

primrec count_rejected :: "arg_order \<Rightarrow> arg_order \<Rightarrow> bytes \<Rightarrow> nat list \<Rightarrow> int \<Rightarrow> (int, 'g) run" where
  "count_rejected oc od data [] n = (\<lambda>s. Inr (n, s))"
| "count_rejected oc od data (i # is) n =
     seq (decoded oc od (data[i := data ! i XOR 0xFF])) (\<lambda>(st, r).
     count_rejected oc od data is (if st \<noteq> Outcome.ALLOW then n + 1 else n))"

definition testPersistenceCorruption :: "arg_order \<Rightarrow> arg_order \<Rightarrow> (unit, 'g) run" where
  "testPersistenceCorruption oc od =
     (let data = encodeWorkload (makeWl (UniqueValue 7)) in
     seq (CHECK (length data > 0)) (\<lambda>_.
     seq (count_rejected oc od data [0..<length data] 0) (\<lambda>rejected.
     CHECK (rejected = int (length data)))))"

definition testProgressMonotonic :: "(unit, 'g) run" where
  "testProgressMonotonic =
     seq (dispatched (UniqueValue 500) (makeWl (UniqueValue 8))) (\<lambda>(w, g2).
     seq (returns (reportProgress (UniqueValue 500) (fromU64 1) 4 True) Outcome.ALLOW w) (\<lambda>w.
     seq (holds (\<lambda>p. \<not> fst (reconcile 2 False ProgressProvenance.RECONSTRUCTED p)) (wl_progress w)) (\<lambda>_.
     let w = w\<lparr>wl_progress := snd (reconcile 2 False ProgressProvenance.RECONSTRUCTED (wl_progress w))\<rparr> in
     CHECK (pg_completed (wl_progress w) = 4))))"

text \<open>\<open>TEST_MAIN_END\<close>: the status of the program.\<close>

definition test_status :: "(int, 'g) run" where
  "test_status w = Inr (if list_all id (pw_checks w) then 0 else 1, w)"

definition core_program :: "(unit, 'g) run \<Rightarrow> (unit, 'g) run \<Rightarrow> (int, 'g) run" where
  "core_program round_trip corruption =
     seq testIllegalTransitions (\<lambda>_. seq testZeroWorkAllowed (\<lambda>_. seq testHappyPath (\<lambda>_.
     seq testRestartLimitOffByOne (\<lambda>_. seq testStaleAuthority (\<lambda>_. seq round_trip (\<lambda>_.
     seq corruption (\<lambda>_. seq testProgressMonotonic (\<lambda>_. test_status))))))))"

definition test_core_main :: "arg_order \<Rightarrow> arg_order \<Rightarrow> (int, 'g) run" where
  "test_core_main oc od = core_program (testPersistenceRoundTrip oc od) (testPersistenceCorruption oc od)"

section \<open>The engine's tests\<close>

definition pol :: Policy where
  "pol = goodPolicy\<lparr>po_cancelRace := CancelRaceSemantics.COMPLETION_FIRST\<rparr>"

text \<open>\<open>(void)eng.f(...)\<close> and \<open>CHECK(eng.f(...).outcome == o)\<close>.\<close>

definition ignored :: "(memory engine \<Rightarrow> EngineResult \<times> memory engine) \<Rightarrow> (unit, 'g) run" where
  "ignored f = seq (eng f) (\<lambda>_. skip)"

definition answers :: "(memory engine \<Rightarrow> EngineResult \<times> memory engine) \<Rightarrow> Outcome \<Rightarrow> (unit, 'g) run" where
  "answers f o' = seq (eng f) (\<lambda>r. CHECK (er_outcome r = o'))"

text \<open>Add the requirement and grant it for the generation of the contract; then validate and settle.\<close>

definition resourced :: "WorkloadId \<Rightarrow> string \<Rightarrow> (unit, 'g) run" where
  "resourced i device =
     seq (ignored (engine_addResourceRequirement one_accelerator mem_save i)) (\<lambda>_.
     seq (snap i) (\<lambda>s.
     seq (ignored (engine_applyGrant (granted_accelerator device (rc_generation (wl_contract s))) mem_save i)) (\<lambda>_.
     seq (ignored (engine_validate mem_save i)) (\<lambda>_.
     ignored (engine_settle mem_save i)))))"

definition make_ready :: "WorkloadId \<Rightarrow> string \<Rightarrow> (unit, 'g) run" where
  "make_ready i name =
     seq (ignored (engine_create i name ''scenario'' pol mem_save)) (\<lambda>_.
     seq (ignored (engine_setPolicy pol mem_save i)) (\<lambda>_.
     resourced i ''gpu0''))"

definition host_memory :: ResourceRequirement where
  "host_memory = \<lparr>rr_kind = ResourceKind.HOST_MEMORY, rr_level = NeedLevel.REQUIRED,
     rr_minValue = F64 0x4090000000000000, rr_maxValue = f64_zero, rr_spec = []\<rparr>"

definition granted_memory :: "ResourceContractGeneration \<Rightarrow> ResourceGrant" where
  "granted_memory gen = \<lparr>rg_contractId = fromU64 11, rg_contractGeneration = gen, rg_status = GrantStatus.GRANTED,
     rg_bindings = [\<lparr>rb_kind = ResourceKind.HOST_MEMORY, rb_amount = F64 0x4090000000000000, rb_qualifier = ''ram''\<rparr>],
     rg_released = False\<rparr>"

definition dependency :: "u64 \<Rightarrow> DependencyRequirement \<Rightarrow> DependencyReady \<Rightarrow> DependencyDef" where
  "dependency i r c = \<lparr>dd_dependsOn = fromU64 i, dd_requirement = r, dd_readyWhen = c, dd_artifactKey = []\<rparr>"

definition testDependencyGating :: "(unit, 'g) run" where
  "testDependencyGating =
     (let i = fromU64 20 in
     seq new_run (\<lambda>_.
     seq (ignored (engine_create i ''dep'' ''gate'' pol mem_save)) (\<lambda>_.
     seq (ignored (engine_setPolicy pol mem_save i)) (\<lambda>_.
     seq (ignored (engine_addResourceRequirement host_memory mem_save i)) (\<lambda>_.
     seq (snap i) (\<lambda>s.
     seq (ignored (engine_applyGrant (granted_memory (rc_generation (wl_contract s))) mem_save i)) (\<lambda>_.
     seq (allowed (engine_addDependency (dependency 21 DependencyRequirement.REQUIRED DependencyReady.COMPLETED) mem_save i)) (\<lambda>_.
     seq (allowed (engine_addDependency (dependency 22 DependencyRequirement.OPTIONAL DependencyReady.READY) mem_save i)) (\<lambda>_.
     seq (allowed (engine_validate mem_save i)) (\<lambda>_.
     seq (allowed (engine_settle mem_save i)) (\<lambda>_.
     seq (expect i (in_state WorkloadState.WAITING_FOR_DEPENDENCIES)) (\<lambda>_.
     seq (allowed (engine_setDependencyStatus 1 DependencyStatus.FAILED (fromU64 1) mem_save i)) (\<lambda>_.
     seq (expect i (in_state WorkloadState.WAITING_FOR_DEPENDENCIES)) (\<lambda>_.
     seq (allowed (engine_setDependencyStatus 0 DependencyStatus.SATISFIED (fromU64 1) mem_save i)) (\<lambda>_.
     seq (allowed (engine_settle mem_save i)) (\<lambda>_.
     seq (expect i (in_state WorkloadState.READY)) (\<lambda>_.
     answers (engine_setDependencyStatus 0 DependencyStatus.PENDING (fromU64 0) mem_save i) Outcome.REJECT_STALE_DEPENDENCY)))))))))))))))))"

definition testDependencyBlockingOrder :: "(unit, 'g) run" where
  "testDependencyBlockingOrder =
     (let i = fromU64 23 in
     seq new_run (\<lambda>_.
     seq (ignored (engine_create i ''depx'' ''gate'' pol mem_save)) (\<lambda>_.
     seq (ignored (engine_setPolicy pol mem_save i)) (\<lambda>_.
     seq (ignored (engine_addDependency (dependency 40 DependencyRequirement.REQUIRED DependencyReady.COMPLETED) mem_save i)) (\<lambda>_.
     seq (ignored (engine_validate mem_save i)) (\<lambda>_.
     seq (allowed (engine_settle mem_save i)) (\<lambda>_.
     expect i (in_state WorkloadState.WAITING_FOR_DEPENDENCIES))))))))"

definition testResourceGenerationFencing :: "(unit, 'g) run" where
  "testResourceGenerationFencing =
     (let w = setPolicyForTest pol (create (fromU64 30) ''r'' ''res'');
          c = contract_setIdForTest (UniqueValue 10) (wl_contract w) in
     seq (returns (add_requirement one_accelerator) Outcome.ALLOW c) (\<lambda>c.
     let cur = rc_generation c in
     seq (returns (applyGrant (granted_accelerator ''g'' (previous (fromU64 1)))) Outcome.ALLOW c) (\<lambda>c.
     seq (CHECK (rg_status (rc_grant c) = GrantStatus.STALE)) (\<lambda>_.
     seq (holds (Not \<circ> satisfied) c) (\<lambda>_.
     seq (returns (applyGrant (granted_accelerator ''g'' cur)) Outcome.ALLOW c) (\<lambda>c.
     seq (holds satisfied c) (\<lambda>_.
     seq (returns (releaseGrant (previous cur)) Outcome.REJECT_STALE_RESOURCE_CONTRACT c) (\<lambda>c.
     seq (returns (releaseGrant cur) Outcome.ALLOW c) (\<lambda>c.
     seq (returns (releaseGrant cur) Outcome.REJECT_RESOURCE_DOUBLE_RELEASE c) (\<lambda>c.
     seq (returns (add_requirement (one_accelerator\<lparr>rr_level := NeedLevel.PREFERRED, rr_minValue := F64 0x4000000000000000\<rparr>)) Outcome.REJECT_IMMUTABLE_CONTRACT c) (\<lambda>c. skip)))))))))))"

text \<open>Signed overflow, which is \<open>None\<close>, would be undefined behaviour: no check is passed then.\<close>

definition value_is :: "Priority option \<Rightarrow> i32 \<Rightarrow> (unit, 'g) run" where
  "value_is p v = CHECK (Option.bind p effectiveValue = Some v)"

definition testPriority :: "(unit, 'g) run" where
  "testPriority =
     (let p = setBase (UniqueValue 1) PriorityTier.NORMAL 50 default_priority in
     seq (value_is (Some p) 50) (\<lambda>_.
     let p = promote 30 p in
     seq (value_is p 80) (\<lambda>_.
     let p = Option.bind p (demote 10) in
     seq (value_is p 70) (\<lambda>_.
     let p = map_option markStarved p in
     seq (value_is p 1070) (\<lambda>_.
     seq (CHECK (map_option mayBePreempted p = Some True)) (\<lambda>_.
     let p = map_option (setProtected True) p in
     CHECK (map_option mayBePreempted p = Some False)))))))"

text \<open>The identity \<open>startEpisode\<close> answers with, taken from its optional without a check.\<close>

definition begun :: "WorkloadId \<Rightarrow> (ExecutionEpisodeId, 'g) run" where
  "begun i = seq (eng (engine_startEpisode (UniqueValue 1) (fromU64 1) mem_save i)) (\<lambda>se. value_of (er_episodeId se))"

definition admitted_to :: "WorkloadId \<Rightarrow> ExecutionEpisodeId \<Rightarrow> (unit, 'g) run" where
  "admitted_to i ep = allowed (engine_admitDispatch ep (UniqueValue 1) (UniqueValue 1) mem_save i)"

definition completionFirst :: "(unit, 'g) run" where
  "completionFirst =
     (let i = fromU64 50 in
     seq new_run (\<lambda>_.
     seq (make_ready i ''race1'') (\<lambda>_.
     seq (begun i) (\<lambda>ep.
     seq (snap i) (\<lambda>s. let gen = wl_generation s in
     seq (admitted_to i ep) (\<lambda>_.
     seq (allowed (engine_cancel gen mem_save i)) (\<lambda>_.
     seq (allowed (engine_episodeCompleted ep mem_save i)) (\<lambda>_.
     seq (allowed (engine_commitCompletion gen mem_save i)) (\<lambda>_.
     seq (expect i (in_state WorkloadState.COMPLETED)) (\<lambda>_.
     answers (engine_cancel gen mem_save i) Outcome.REJECT_TERMINAL))))))))))"

definition cancelFirst :: "(unit, 'g) run" where
  "cancelFirst =
     (let i = fromU64 51 in
     seq new_run (\<lambda>_.
     seq (ignored (engine_create i ''race2'' ''x'' pol mem_save)) (\<lambda>_.
     seq (ignored (engine_setPolicy (pol\<lparr>po_cancelRace := CancelRaceSemantics.CANCEL_FIRST\<rparr>) mem_save i)) (\<lambda>_.
     seq (resourced i ''g'') (\<lambda>_.
     seq (begun i) (\<lambda>ep.
     seq (snap i) (\<lambda>s. let gen2 = wl_generation s in
     seq (admitted_to i ep) (\<lambda>_.
     seq (allowed (engine_cancel gen2 mem_save i)) (\<lambda>_.
     seq (ignored (engine_episodeCompleted ep mem_save i)) (\<lambda>_.
     seq (answers (engine_commitCompletion gen2 mem_save i) Outcome.REJECT_CANCELLED) (\<lambda>_.
     seq (allowed (engine_completeCancellation gen2 mem_save i)) (\<lambda>_.
     expect i (in_state WorkloadState.CANCELLED)))))))))))))"

definition testCancellationCompletionRace :: "(unit, 'g) run" where
  "testCancellationCompletionRace = seq completionFirst (\<lambda>_. cancelFirst)"

definition testMigrationLifecycle :: "(unit, 'g) run" where
  "testMigrationLifecycle =
     (let i = fromU64 60 in
     seq new_run (\<lambda>_.
     seq (make_ready i ''mig'') (\<lambda>_.
     seq (begun i) (\<lambda>ep1.
     seq (snap i) (\<lambda>s. let gen = wl_generation s in
     seq (admitted_to i ep1) (\<lambda>_.
     seq (allowed (engine_progress ep1 (fromU64 1) 7 True mem_save i)) (\<lambda>_.
     seq (allowed (engine_requestMigration gen mem_save i)) (\<lambda>_.
     seq (expect i (in_state WorkloadState.MIGRATION_PENDING)) (\<lambda>_.
     seq (allowed (engine_commitMigration gen (UniqueValue 2) (UniqueValue 2) mem_save i)) (\<lambda>_.
     seq (expect i (in_state WorkloadState.RUNNING)) (\<lambda>_.
     seq (snap i) (\<lambda>s. let ep2 = currentEpisodeId s in
     seq (CHECK (ep2 \<noteq> ep1)) (\<lambda>_.
     seq (answers (engine_progress ep1 (fromU64 1) 5 True mem_save i) Outcome.REJECT_EPISODE_INELIGIBLE) (\<lambda>_.
     allowed (engine_progress ep2 (fromU64 1) 5 True mem_save i)))))))))))))))"

definition testSuspensionLifecycle :: "(unit, 'g) run" where
  "testSuspensionLifecycle =
     (let i = fromU64 70 in
     seq new_run (\<lambda>_.
     seq (make_ready i ''susp'') (\<lambda>_.
     seq (begun i) (\<lambda>ep1.
     seq (snap i) (\<lambda>s. let gen = wl_generation s in
     seq (admitted_to i ep1) (\<lambda>_.
     seq (allowed (engine_progress ep1 (fromU64 1) 3 True mem_save i)) (\<lambda>_.
     seq (allowed (engine_requestSuspend gen mem_save i)) (\<lambda>_.
     seq (allowed (engine_completeSuspend gen mem_save i)) (\<lambda>_.
     seq (expect i (in_state WorkloadState.SUSPENDED)) (\<lambda>_.
     seq (expect i (\<lambda>s. pg_completed (wl_progress s) = 3)) (\<lambda>_.
     seq (allowed (engine_requestResume gen mem_save i)) (\<lambda>_.
     seq (expect i (in_state WorkloadState.READY)) (\<lambda>_.
     seq (eng (engine_startEpisode (UniqueValue 2) (fromU64 1) mem_save i)) (\<lambda>se2.
     seq (CHECK (er_outcome se2 = Outcome.ALLOW)) (\<lambda>_.
     seq (value_of (er_episodeId se2)) (\<lambda>ep2.
     seq (CHECK (ep2 \<noteq> ep1)) (\<lambda>_.
     expect i (in_state WorkloadState.STARTING))))))))))))))))))"

definition testRestartNeverPolicy :: "(unit, 'g) run" where
  "testRestartNeverPolicy =
     (let i = fromU64 80 in
     seq new_run (\<lambda>_.
     seq (ignored (engine_create i ''never'' ''x'' pol mem_save)) (\<lambda>_.
     seq (ignored (engine_setPolicy (pol\<lparr>po_restart := (po_restart pol)\<lparr>rp_kind := RestartKind.NEVER, rp_maxRestarts := 0\<rparr>\<rparr>) mem_save i)) (\<lambda>_.
     seq (resourced i ''g'') (\<lambda>_.
     seq (begun i) (\<lambda>ep.
     seq (snap i) (\<lambda>s. let gen2 = wl_generation s in
     seq (ignored (engine_admitDispatch ep (UniqueValue 1) (UniqueValue 1) mem_save i)) (\<lambda>_.
     seq (allowed (engine_onWorkerLost (UniqueValue 1) (UniqueValue 1) gen2 mem_save i)) (\<lambda>_.
     answers (engine_planRestart ''WORKER_LOSS'' gen2 mem_save i) Outcome.REJECT_RESTART_LIMIT)))))))))"

text \<open>
  The adapter is a local object. The state \<open>st\<close> the test declares is never initialised; any value
  will do.
\<close>

definition testReferenceExecutionFabric :: "ExecutionState \<Rightarrow> (unit, 'g) run" where
  "testReferenceExecutionFabric st =
     (let ep = UniqueValue 1; r = requestExecution ep ''job'' [] in
     seq (CHECK (fst r = Outcome.ALLOW)) (\<lambda>_.
     let ef = snd r; h = currentHandle ep ef in
     seq (CHECK (h \<noteq> None)) (\<lambda>_.
     seq (value_of h) (\<lambda>h.
     seq (CHECK (fst (observeExecution h st ef) = Outcome.ALLOW)) (\<lambda>_.
     let c = observeCompletion h True ef in
     seq (CHECK (fst c = Outcome.ALLOW)) (\<lambda>_.
     seq (CHECK (snd c = False)) (\<lambda>_.
     let ef = reportCompletionForTest ep 1 ef; c = observeCompletion h (snd c) ef in
     seq (CHECK (fst c = Outcome.ALLOW)) (\<lambda>_.
     CHECK (snd c = True)))))))))"

definition test_scenarios_main :: "ExecutionState \<Rightarrow> (int, 'g) run" where
  "test_scenarios_main st =
     seq testDependencyGating (\<lambda>_. seq testDependencyBlockingOrder (\<lambda>_. seq testResourceGenerationFencing (\<lambda>_.
     seq testPriority (\<lambda>_. seq testCancellationCompletionRace (\<lambda>_. seq testMigrationLifecycle (\<lambda>_.
     seq testSuspensionLifecycle (\<lambda>_. seq testRestartNeverPolicy (\<lambda>_.
     seq (testReferenceExecutionFabric st) (\<lambda>_. test_status)))))))))"

section \<open>The adversarial tests\<close>

text \<open>\<open>makeReady\<close> of this file does not set the policy again.\<close>

definition adversary_ready :: "(unit, 'g) run" where
  "adversary_ready =
     seq new_run (\<lambda>_.
     seq (ignored (engine_create (UniqueValue 1) ''adv'' ''x'' goodPolicy mem_save)) (\<lambda>_.
     resourced (UniqueValue 1) ''g''))"

text \<open>The calls whose outcomes the first test ignores.\<close>

definition countable_work :: Workload where
  "countable_work =
     (let w = setPolicyForTest goodPolicy (create (UniqueValue 1) ''n'' ''i'');
          w = w\<lparr>wl_contract := contract_setIdForTest (UniqueValue 10) (wl_contract w)\<rparr>;
          w = snd (on_contract (add_requirement one_accelerator) w);
          w = snd (on_contract (applyGrant (granted_accelerator ''g'' (rc_generation (wl_contract w)))) w);
          w = snd (transition WorkloadState.VALIDATING (wl_generation w) ''v'' w)
      in snd (settle (wl_generation w) w))"

definition testProgressDoubleCount :: "(unit, 'g) run" where
  "testProgressDoubleCount =
     (let w = countable_work; ep = UniqueValue 1 in
     seq (CHECK (wl_state w = WorkloadState.READY)) (\<lambda>_.
     let w = snd (startEpisode ep (UniqueValue 1) (fromU64 1) True w);
         w = snd (admitDispatch ep (UniqueValue 1) (UniqueValue 1) w);
         w = w\<lparr>wl_progress := (wl_progress w)\<lparr>pg_totalKind := TotalKind.KNOWN, pg_total := 10\<rparr>\<rparr> in
     seq (returns (reportProgress ep (fromU64 1) 8 True) Outcome.ALLOW w) (\<lambda>w.
     seq (CHECK (pg_completed (wl_progress w) = 8)) (\<lambda>_.
     seq (returns (reportProgress ep (fromU64 1) 8 True) Outcome.REJECT_PROGRESS_DOUBLE_COUNT w) (\<lambda>w.
     seq (CHECK (pg_completed (wl_progress w) = 8)) (\<lambda>_.
     seq (returns (reportProgress ep (fromU64 1) 2 True) Outcome.ALLOW w) (\<lambda>w.
     CHECK (pg_completed (wl_progress w) = 10))))))))"

definition testDuplicateWorkloadPublication :: "(unit, 'g) run" where
  "testDuplicateWorkloadPublication =
     (let i = UniqueValue 1 in
     seq new_run (\<lambda>_.
     seq (ignored (engine_create i ''a'' ''x'' goodPolicy mem_save)) (\<lambda>_.
     seq (answers (engine_create i ''b'' ''x'' goodPolicy mem_save) Outcome.REJECT_DUPLICATE_WORKLOAD) (\<lambda>_ w.
     CHECK (length (engine_list (pw_engine w)) = 1) w))))"

definition testMigrationSplitBrain :: "(unit, 'g) run" where
  "testMigrationSplitBrain =
     (let i = UniqueValue 1 in
     seq adversary_ready (\<lambda>_.
     seq (eng (engine_startEpisode (UniqueValue 1) (fromU64 1) mem_save i)) (\<lambda>se.
     seq (snap i) (\<lambda>s. let gen = wl_generation s in
     seq (value_of (er_episodeId se)) (\<lambda>ep.
     seq (ignored (engine_admitDispatch ep (UniqueValue 1) (UniqueValue 1) mem_save i)) (\<lambda>_.
     seq (allowed (engine_requestMigration gen mem_save i)) (\<lambda>_.
     seq (allowed (engine_commitMigration gen (UniqueValue 2) (UniqueValue 2) mem_save i)) (\<lambda>_.
     seq (snap i) (\<lambda>s. let gen2 = wl_generation s in
     seq (allowed (engine_requestMigration gen2 mem_save i)) (\<lambda>_.
     seq (allowed (engine_commitMigration gen2 (UniqueValue 3) (UniqueValue 3) mem_save i)) (\<lambda>_.
     seq (snap i) (\<lambda>fin.
     seq (CHECK (length (filter ep_authoritative (wl_episodes fin)) = 1)) (\<lambda>_.
     let ep1 = ep_id (hd (wl_episodes fin)) in
     answers (engine_progress ep1 (fromU64 1) 1 True mem_save i) Outcome.REJECT_EPISODE_INELIGIBLE)))))))))))))"

text \<open>What is asked of the workload that comes back from its record.\<close>

definition not_resurrected :: "WorkloadGeneration \<Rightarrow> Outcome \<times> Workload \<Rightarrow> (unit, 'g) run" where
  "not_resurrected gen x =
     (case x of (st, r) \<Rightarrow>
     seq (CHECK (isAllow st)) (\<lambda>_.
     seq (CHECK (wl_state r = WorkloadState.RUNNING)) (\<lambda>_.
     seq (CHECK (valid (currentEpisodeId r))) (\<lambda>_.
     seq (returns (onWorkerLost (UniqueValue 7) (UniqueValue 999) gen) Outcome.REJECT_STALE_BOOT r) (\<lambda>r.
     seq (returns (reportProgress (currentEpisodeId r) (fromU64 99) 1 True) Outcome.REJECT_STALE_EPISODE r) (\<lambda>r. skip))))))"

text \<open>The test up to the record; \<open>reload\<close> is what follows.\<close>

definition resurrection_test :: "(WorkloadGeneration \<Rightarrow> Workload \<Rightarrow> (unit, 'g) run) \<Rightarrow> (unit, 'g) run" where
  "resurrection_test reload =
     (let i = UniqueValue 1 in
     seq adversary_ready (\<lambda>_.
     seq (eng (engine_startEpisode (UniqueValue 1) (fromU64 1) mem_save i)) (\<lambda>se.
     seq (snap i) (\<lambda>s. let gen = wl_generation s in
     seq (value_of (er_episodeId se)) (\<lambda>ep.
     seq (ignored (engine_admitDispatch ep (UniqueValue 7) (UniqueValue 77) mem_save i)) (\<lambda>_.
     seq (ignored (engine_progress ep (fromU64 1) 4 True mem_save i)) (\<lambda>_.
     seq (snap i) (\<lambda>s. reload gen s))))))))"

definition testRecoveryNoResurrection :: "arg_order \<Rightarrow> arg_order \<Rightarrow> (unit, 'g) run" where
  "testRecoveryNoResurrection oc od =
     resurrection_test (\<lambda>gen s. seq (decoded oc od (encodeWorkload s)) (not_resurrected gen))"

definition testTerminalNeverReopens :: "(unit, 'g) run" where
  "testTerminalNeverReopens =
     (let i = UniqueValue 1 in
     seq adversary_ready (\<lambda>_.
     seq (eng (engine_startEpisode (UniqueValue 1) (fromU64 1) mem_save i)) (\<lambda>se.
     seq (snap i) (\<lambda>s. let gen = wl_generation s in
     seq (value_of (er_episodeId se)) (\<lambda>ep.
     seq (ignored (engine_admitDispatch ep (UniqueValue 1) (UniqueValue 1) mem_save i)) (\<lambda>_.
     seq (ignored (engine_episodeCompleted ep mem_save i)) (\<lambda>_.
     seq (allowed (engine_commitCompletion gen mem_save i)) (\<lambda>_.
     seq (expect i (in_state WorkloadState.COMPLETED)) (\<lambda>_.
     seq (answers (engine_cancel gen mem_save i) Outcome.REJECT_TERMINAL) (\<lambda>_.
     seq (answers (engine_planRestart ''x'' gen mem_save i) Outcome.REJECT_TERMINAL) (\<lambda>_.
     seq (answers (engine_startEpisode (UniqueValue 1) (fromU64 1) mem_save i) Outcome.REJECT_TERMINAL) (\<lambda>_.
     answers (engine_progress ep (fromU64 1) 1 True mem_save i) Outcome.REJECT_TERMINAL))))))))))))"

definition testCrossWorkloadIdentity :: "(unit, 'g) run" where
  "testCrossWorkloadIdentity =
     (let i = UniqueValue 1 in
     seq adversary_ready (\<lambda>_.
     seq (eng (engine_startEpisode (UniqueValue 1) (fromU64 1) mem_save i)) (\<lambda>se.
     seq (snap i) (\<lambda>s. let gen = wl_generation s in
     seq (value_of (er_episodeId se)) (\<lambda>ep.
     seq (ignored (engine_admitDispatch ep (UniqueValue 1) (UniqueValue 1) mem_save i)) (\<lambda>_.
     seq (answers (engine_cancel (previous gen) mem_save i) Outcome.REJECT_STALE_WORKLOAD_GENERATION) (\<lambda>_.
     expect i (\<lambda>s. valid (wl_generation s)))))))))"

definition adversarial_program :: "(unit, 'g) run \<Rightarrow> (int, 'g) run" where
  "adversarial_program recovery =
     seq testProgressDoubleCount (\<lambda>_. seq testDuplicateWorkloadPublication (\<lambda>_. seq testMigrationSplitBrain (\<lambda>_.
     seq recovery (\<lambda>_. seq testTerminalNeverReopens (\<lambda>_.
     seq testCrossWorkloadIdentity (\<lambda>_. test_status))))))"

definition test_adversarial_main :: "arg_order \<Rightarrow> arg_order \<Rightarrow> (int, 'g) run" where
  "test_adversarial_main oc od = adversarial_program (testRecoveryNoResurrection oc od)"

section \<open>Every check holds\<close>

text \<open>Without the codec: what the tests see of a workload that can be stored.\<close>

definition reread :: "Workload \<Rightarrow> (unit, 'g) run" where
  "reread w s =
     (if storable w
      then seq (CHECK True) (\<lambda>_. seq (CHECK True) (\<lambda>_. seq (CHECK True) (\<lambda>_. seq (CHECK True) (\<lambda>_.
        seq (CHECK (pg_completed (wl_progress w) = 9)) (\<lambda>_. seq (CHECK (length (wl_episodes w) = 1)) (\<lambda>_. CHECK True)))))) s
      else Inl Terminate)"

lemma decoded_storable: "storable w \<Longrightarrow> decoded oc od (encodeWorkload w) s = Inr ((Outcome.ALLOW, restored oc od w), s)"
  by (simp add: decoded_def decode_storable value_of_def)

lemma restored_same [simp]:
  "wl_id (restored oc od w) = wl_id w" "wl_state (restored oc od w) = wl_state w"
  "wl_progress (restored oc od w) = wl_progress w" "wl_episodes (restored oc od w) = wl_episodes w"
  "currentEpisodeId (restored oc od w) = currentEpisodeId w" "wl_generation (restored oc od w) = wl_generation w"
  "wl_restartCount (restored oc od w) = wl_restartCount w" "wl_policy (restored oc od w) = wl_policy w"
  "wl_cancelledFinal (restored oc od w) = wl_cancelledFinal w"
  "currentEpisode (restored oc od w) = currentEpisode w" "episode_index ep (restored oc od w) = episode_index ep w"
  by (simp_all add: restored_def currentEpisodeId_def currentEpisode_def episode_index_def split: option.split)

lemma has_record [simp]: "has_record w"
  by (simp add: has_record_def encodeWorkload_def Let_def)

lemma round_trip_below: "below (testPersistenceRoundTrip oc od) (round_trip_test reread)"
proof -
  have "below (seq (holds has_record w) (\<lambda>_. seq (decoded oc od (encodeWorkload w)) (same_as w))) (reread w)" for w
    by (simp add: below_def reread_def seq_def decoded_storable same_as_def holds_def CHECK_def isAllow_def)
  then show ?thesis
    unfolding testPersistenceRoundTrip_def round_trip_test_def
    by (intro below_seq below_refl) (auto intro!: below_seq below_refl split: prod.split)
qed

definition reread_fenced :: "WorkloadGeneration \<Rightarrow> Workload \<Rightarrow> (unit, 'g) run" where
  "reread_fenced gen w s =
     (if storable w \<and> wl_generation w = gen \<and> (case currentEpisode w of None \<Rightarrow> False
        | Some k \<Rightarrow> ep_boot (wl_episodes w ! k) \<noteq> UniqueValue 999)
      then not_resurrected gen (Outcome.ALLOW, w) s else Inl Terminate)"

lemma resurrection_below: "below (testRecoveryNoResurrection oc od :: (unit, 'a) run) (resurrection_test reread_fenced)"
proof -
  have same: "not_resurrected gen (Outcome.ALLOW, restored oc od w) s = not_resurrected gen (Outcome.ALLOW, w) s"
    if "wl_generation w = gen" "currentEpisode w = Some k" "ep_boot (wl_episodes w ! k) \<noteq> UniqueValue 999" for gen w k and s :: "'a world"
  proof -
    have lost: "onWorkerLost (UniqueValue 7) (UniqueValue 999) gen w = (Outcome.REJECT_STALE_BOOT, w)"
      "onWorkerLost (UniqueValue 7) (UniqueValue 999) gen (restored oc od w) = (Outcome.REJECT_STALE_BOOT, restored oc od w)"
      using that by (simp_all add: onWorkerLost_def)
    have "fst (reportProgress ep g d b (restored oc od w)) = fst (reportProgress ep g d b w)" for ep g d b
      by (cases "episode_index ep w") (simp_all add: reportProgress_def Let_def)
    then show ?thesis
      by (simp add: not_resurrected_def seq_def returns_def CHECK_def lost skip_def Let_def)
  qed
  have "below (seq (decoded oc od (encodeWorkload w)) (not_resurrected gen)) (reread_fenced gen w :: (unit, 'a) run)" for w gen
    by (auto simp: below_def reread_fenced_def seq_def decoded_storable same split: option.splits)
  then show ?thesis
    unfolding testRecoveryNoResurrection_def resurrection_test_def Let_def
    by (intro below_seq below_refl)
qed

text \<open>
  The record whose bytes are corrupted. Only the change of the low byte of its length makes it
  shorter, by 21 bytes; then the bytes where the checksum is expected are not the checksum.
\<close>

lemma corrupted_fits: "size_fits (encode (makeWl (UniqueValue 7)))"
  by code_simp

lemma corrupted_length: "int (length (encode (makeWl (UniqueValue 7)))) = 394"
  by code_simp

lemma corrupted_header:
  "take 16 (encodeWorkload (makeWl (UniqueValue 7))) = [87, 70, 66, 82, 0, 0, 0, 1, 0, 0, 0, 0, 0, 0, 1, 138]"
  by code_simp

lemma corrupted_checksum:
  "let d = encode (makeWl (UniqueValue 7)) in put_u64 (fnv1a64 (rev (drop 21 (rev d)))) \<noteq> rev (take 8 (drop 13 (rev d)))"
  by code_simp

lemma test_record_shortened: "\<not> good_frame ((encodeWorkload (makeWl (UniqueValue 7)))[15 := 117])"
proof
  let ?p = "encode (makeWl (UniqueValue 7))" and ?d = "encodeWorkload (makeWl (UniqueValue 7))"
  assume "good_frame (?d[15 := 117])"
  note parts = good_frame_parts [OF this]
  have len: "length ?p = 394" using corrupted_length by simp
  have "take 8 (drop 8 (?d[15 := 117])) = (drop 8 (take 16 ?d))[7 := 117]"
    by (simp add: drop_update_swap take_update_swap drop_take)
  also have "\<dots> = [0, 0, 0, 0, 0, 0, 1, 117]" unfolding corrupted_header by simp
  finally have n: "unat (join_bytes (take 8 (drop 8 (?d[15 := 117])))) = 373"
    by (simp add: join_bytes_def)
  have "drop 16 (?d[15 := 117]) = drop 16 ?d" by simp
  also have "\<dots> = ?p @ put_u64 (fnv1a64 ?p)" by (simp add: encodeWorkload_def Let_def)
  finally have body: "drop 16 (?d[15 := 117]) = ?p @ put_u64 (fnv1a64 ?p)" .
  then have "drop (16 + 373) (?d[15 := 117]) = drop 373 (?p @ put_u64 (fnv1a64 ?p))"
    by (simp only: drop_drop body [symmetric]) simp
  then have "take 8 (drop 373 ?p) = put_u64 (fnv1a64 (take 373 ?p))"
    using parts(5) len unfolding n body by simp
  moreover have "take 373 ?p = rev (drop 21 (rev ?p))" "take 8 (drop 373 ?p) = rev (take 8 (drop 13 (rev ?p)))"
    using len by (simp add: rev_drop, simp add: drop_rev take_rev drop_take)
  ultimately show False using corrupted_checksum by (simp add: Let_def)
qed

lemma corrupted:
  assumes "i < length (encodeWorkload (makeWl (UniqueValue 7)))"
  shows "decodeWorkload oc od ((encodeWorkload (makeWl (UniqueValue 7)))[i := encodeWorkload (makeWl (UniqueValue 7)) ! i XOR 255]) =
    Some (Outcome.REJECT_UNKNOWN, default_workload)"
proof (rule bad_frame_rejected)
  let ?d = "encodeWorkload (makeWl (UniqueValue 7))"
  have other: "?d ! i XOR 255 \<noteq> ?d ! i"
  proof
    assume "?d ! i XOR 255 = ?d ! i"
    then have "?d ! i XOR (?d ! i XOR 255) = 0" by simp
    then show False by (simp only: xor.assoc [symmetric]) simp
  qed
  have byte: "?d ! j = [87, 70, 66, 82, 0, 0, 0, 1, 0, 0, 0, 0, 0, 0, 1, 138] ! j" if "j < 16" for j
    using that unfolding corrupted_header [symmetric] by simp
  show "\<not> good_frame (?d[i := ?d ! i XOR 255])"
  proof (cases "i = 15")
    case True
    then show ?thesis using test_record_shortened byte [of 15] by simp
  next
    case False
    have "?d ! i < ?d ! i XOR 255" if "8 \<le> i" "i < 16"
    proof -
      have "i = 8 \<or> i = 9 \<or> i = 10 \<or> i = 11 \<or> i = 12 \<or> i = 13 \<or> i = 14" using that False by linarith
      then have "[87, 70, 66, 82, 0, 0, 0, 1, 0, 0, 0, 0, 0, 0, 1, 138 :: u8] ! i \<in> {0, 1}"
        by (elim disjE) simp_all
      with byte [OF that(2)] show ?thesis by auto
    qed
    then have "i < 8 \<or> 16 \<le> i \<or> ?d ! i < ?d ! i XOR 255" by linarith
    with corrupt_bad_frame [OF corrupted_fits assms other] show ?thesis by simp
  qed
qed

lemma all_rejected:
  "set is \<subseteq> {..<length (encodeWorkload (makeWl (UniqueValue 7)))} \<Longrightarrow>
   count_rejected oc od (encodeWorkload (makeWl (UniqueValue 7))) is n s = Inr (n + int (length is), s)"
  by (induction "is" arbitrary: n) (simp_all add: seq_def decoded_def corrupted value_of_def)

lemma corruption_counted:
  fixes s :: "'g world"
  shows "testPersistenceCorruption oc od s = Inr ((), s\<lparr>pw_checks := [True, True] @ pw_checks s\<rparr>)"
proof -
  let ?d = "encodeWorkload (makeWl (UniqueValue 7))"
  have "length ?d > 0" using has_record by (simp only: has_record_def)
  moreover have "count_rejected oc od ?d [0..<length ?d] 0 w = Inr (int (length ?d), w)" for w :: "'g world"
    by (subst all_rejected) auto
  ultimately show ?thesis
    unfolding testPersistenceCorruption_def Let_def seq_def CHECK_def by simp
qed

text \<open>\<open>passes n t\<close>: from every state the program makes \<open>n\<close> checks, which hold.\<close>

definition passes :: "nat \<Rightarrow> (unit, 'g) run \<Rightarrow> bool" where
  "passes n t \<longleftrightarrow> (\<forall>w. case t w of Inl x \<Rightarrow> False | Inr (v, w') \<Rightarrow> pw_checks w' = replicate n True @ pw_checks w)"

lemma passesI:
  assumes "\<And>e g cs. case t \<lparr>pw_engine = e, pw_gpu = g, pw_checks = cs\<rparr> of Inl x \<Rightarrow> False
    | Inr (v, w') \<Rightarrow> pw_checks w' = replicate n True @ cs"
  shows "passes n t"
  unfolding passes_def
proof
  fix w :: "'a world"
  show "case t w of Inl x \<Rightarrow> False | Inr (v, w') \<Rightarrow> pw_checks w' = replicate n True @ pw_checks w"
    using assms by (cases w) (simp only: world.simps)
qed

lemma passes_seq:
  assumes "passes n t" and "passes m u"
  shows "passes (m + n) (seq t (\<lambda>_. u))"
  unfolding passes_def
proof
  fix w
  from assms(1) have "case t w of Inl x \<Rightarrow> False | Inr (v, w') \<Rightarrow> pw_checks w' = replicate n True @ pw_checks w"
    by (simp add: passes_def)
  then obtain w1 where t: "t w = Inr ((), w1)" "pw_checks w1 = replicate n True @ pw_checks w"
    by (cases "t w") auto
  from assms(2) have "case u w1 of Inl x \<Rightarrow> False | Inr (v, w') \<Rightarrow> pw_checks w' = replicate m True @ pw_checks w1"
    by (simp add: passes_def)
  then show "case seq t (\<lambda>_. u) w of Inl x \<Rightarrow> False
      | Inr (v, w') \<Rightarrow> pw_checks w' = replicate (m + n) True @ pw_checks w"
    using t by (cases "u w1") (auto simp: seq_def replicate_add)
qed

lemma passes_below: "below t u \<Longrightarrow> passes n u \<Longrightarrow> passes n t"
  unfolding below_def passes_def
proof (intro allI)
  fix w
  assume "\<forall>w. u w = Inl Terminate \<or> t w = u w"
    and "\<forall>w. case u w of Inl x \<Rightarrow> False | Inr (v, w') \<Rightarrow> pw_checks w' = replicate n True @ pw_checks w"
  then show "case t w of Inl x \<Rightarrow> False | Inr (v, w') \<Rightarrow> pw_checks w' = replicate n True @ pw_checks w"
    by (metis sum.case(1))
qed

lemma testIllegalTransitions_passes: "passes 6 testIllegalTransitions"
  by (rule passesI) code_simp

lemma testZeroWorkAllowed_passes: "passes 3 testZeroWorkAllowed"
  by (rule passesI) code_simp

lemma testHappyPath_passes: "passes 17 testHappyPath"
  by (rule passesI) code_simp

lemma testRestartLimitOffByOne_passes: "passes 13 testRestartLimitOffByOne"
  by (rule passesI) code_simp

lemma testStaleAuthority_passes: "passes 9 testStaleAuthority"
  by (rule passesI) code_simp

lemma round_trip_test_passes: "passes 12 (round_trip_test reread)"
  by (rule passesI) code_simp

lemma testProgressMonotonic_passes: "passes 7 testProgressMonotonic"
  by (rule passesI) code_simp

lemma testDependencyGating_passes: "passes 11 testDependencyGating"
  by (rule passesI) code_simp

lemma testDependencyBlockingOrder_passes: "passes 2 testDependencyBlockingOrder"
  by (rule passesI) code_simp

lemma testResourceGenerationFencing_passes: "passes 10 testResourceGenerationFencing"
  by (rule passesI) code_simp

lemma testPriority_passes: "passes 6 testPriority"
  by (rule passesI) code_simp

lemma completionFirst_passes: "passes 6 completionFirst"
  by (rule passesI) code_simp

lemma cancelFirst_passes: "passes 5 cancelFirst"
  by (rule passesI) code_simp

lemma testMigrationLifecycle_passes: "passes 9 testMigrationLifecycle"
  by (rule passesI) code_simp

lemma testSuspensionLifecycle_passes: "passes 11 testSuspensionLifecycle"
  by (rule passesI) code_simp

lemma testRestartNeverPolicy_passes: "passes 2 testRestartNeverPolicy"
  by (rule passesI) code_simp

lemma testReferenceExecutionFabric_passes: "passes 7 (testReferenceExecutionFabric st)"
  by (rule passesI) code_simp

lemma testProgressDoubleCount_passes: "passes 7 testProgressDoubleCount"
  by (rule passesI) code_simp

lemma testDuplicateWorkloadPublication_passes: "passes 2 testDuplicateWorkloadPublication"
  by (rule passesI) code_simp

lemma testMigrationSplitBrain_passes: "passes 6 testMigrationSplitBrain"
  by (rule passesI) code_simp

lemma resurrection_test_passes: "passes 5 (resurrection_test reread_fenced)"
  by (rule passesI) code_simp

lemma testTerminalNeverReopens_passes: "passes 6 testTerminalNeverReopens"
  by (rule passesI) code_simp

lemma testCrossWorkloadIdentity_passes: "passes 2 testCrossWorkloadIdentity"
  by (rule passesI) code_simp

text \<open>A program that ends with \<open>TEST_MAIN_END\<close> after \<open>n\<close> checks that hold.\<close>

definition succeeds :: "nat \<Rightarrow> (int, 'g) run \<Rightarrow> bool" where
  "succeeds n t \<longleftrightarrow> (\<forall>w. list_all id (pw_checks w) \<longrightarrow> (case t w of Inl x \<Rightarrow> False
     | Inr (st, w') \<Rightarrow> st = 0 \<and> pw_checks w' = replicate n True @ pw_checks w))"

lemma succeeds_status: "succeeds 0 test_status"
  by (simp add: succeeds_def test_status_def)

lemma succeeds_seq:
  assumes "passes n t" and "succeeds m u"
  shows "succeeds (n + m) (seq t (\<lambda>_. u))"
  unfolding succeeds_def
proof (intro allI impI)
  fix w :: "'a world"
  assume w: "list_all id (pw_checks w)"
  from assms(1) have "case t w of Inl x \<Rightarrow> False | Inr (v, w') \<Rightarrow> pw_checks w' = replicate n True @ pw_checks w"
    by (simp add: passes_def)
  then obtain w1 where t: "t w = Inr ((), w1)" "pw_checks w1 = replicate n True @ pw_checks w"
    by (cases "t w") auto
  moreover from this w have "list_all id (pw_checks w1)" by (auto simp: list_all_iff)
  ultimately have "case u w1 of Inl x \<Rightarrow> False | Inr (st, w') \<Rightarrow> st = 0 \<and> pw_checks w' = replicate m True @ pw_checks w1"
    using assms(2) by (simp add: succeeds_def)
  then show "case seq t (\<lambda>_. u) w of Inl x \<Rightarrow> False
      | Inr (st, w') \<Rightarrow> st = 0 \<and> pw_checks w' = replicate (n + m) True @ pw_checks w"
    using t by (cases "u w1") (auto simp: seq_def replicate_add append_replicate_commute)
qed

lemma succeeds_verdict:
  "succeeds n t \<Longrightarrow> map_sum id verdict (t \<lparr>pw_engine = e, pw_gpu = g, pw_checks = []\<rparr>) = Inr (0, n, True)"
  by (cases "t \<lparr>pw_engine = e, pw_gpu = g, pw_checks = []\<rparr>")
    (auto simp: succeeds_def verdict_def list_all_iff dest!: spec [of _ "\<lparr>pw_engine = e, pw_gpu = g, pw_checks = []\<rparr>"])

lemma core_succeeds: "succeeds 69 (test_core_main oc od)"
proof -
  have "passes 2 (testPersistenceCorruption oc od)"
    by (rule passesI) (simp add: corruption_counted numeral_2_eq_2)
  moreover have "passes 12 (testPersistenceRoundTrip oc od)"
    using round_trip_below round_trip_test_passes by (rule passes_below)
  ultimately have "succeeds (6 + (3 + (17 + (13 + (9 + (12 + (2 + (7 + 0)))))))) (test_core_main oc od)"
    unfolding test_core_main_def core_program_def
    by (intro succeeds_seq succeeds_status testIllegalTransitions_passes testZeroWorkAllowed_passes testHappyPath_passes
        testRestartLimitOffByOne_passes testStaleAuthority_passes testProgressMonotonic_passes)
  then show ?thesis by simp
qed

lemma scenarios_succeed: "succeeds 69 (test_scenarios_main st)"
proof -
  have "passes (5 + 6) testCancellationCompletionRace"
    unfolding testCancellationCompletionRace_def using completionFirst_passes cancelFirst_passes by (rule passes_seq)
  then have "succeeds (11 + (2 + (10 + (6 + (5 + 6 + (9 + (11 + (2 + (7 + 0))))))))) (test_scenarios_main st)"
    unfolding test_scenarios_main_def
    by (intro succeeds_seq succeeds_status testDependencyGating_passes testDependencyBlockingOrder_passes
        testResourceGenerationFencing_passes testPriority_passes testMigrationLifecycle_passes
        testSuspensionLifecycle_passes testRestartNeverPolicy_passes testReferenceExecutionFabric_passes)
  then show ?thesis by simp
qed

lemma adversarial_succeeds: "succeeds 28 (test_adversarial_main oc od)"
proof -
  have "passes 5 (testRecoveryNoResurrection oc od)"
    using resurrection_below resurrection_test_passes by (rule passes_below)
  then have "succeeds (7 + (2 + (6 + (5 + (6 + (2 + 0)))))) (test_adversarial_main oc od)"
    unfolding test_adversarial_main_def adversarial_program_def
    by (intro succeeds_seq succeeds_status testProgressDoubleCount_passes testDuplicateWorkloadPublication_passes
        testMigrationSplitBrain_passes testTerminalNeverReopens_passes testCrossWorkloadIdentity_passes)
  then show ?thesis by simp
qed

text \<open>The assertions of \<open>tests/smoke.cpp\<close>, of which the first four are made by the compiler.\<close>

definition smoke_assertions :: "bool list" where
  "smoke_assertions =
     [canTransition WorkloadState.RUNNING WorkloadState.COMPLETING,
      \<not> canTransition WorkloadState.CANCELLED WorkloadState.RUNNING,
      canTransition WorkloadState.READY WorkloadState.CANCELLED,
      isTerminal WorkloadState.COMPLETED,
      valid (UniqueValue 7 :: WorkloadId),
      outcomeName Outcome.REJECT_STALE_BOOT = ''REJECT_STALE_BOOT'']"

lemma smoke_passes: "list_all id smoke_assertions"
  by code_simp

end
