(* ===== verification/Streams.thy ===== *)
theory Streams
  imports Conformance Stores
begin

text \<open>
  The randomised test of the repository (\<open>tests/property.cpp\<close>): for each seed a stream of events on
  one workload of an engine with a memory store, with checks of invariants after each event. The
  model is the program itself; the theorem says what its streams really do.
\<close>

section \<open>The generator and the invariants\<close>

definition rng_seed :: "u64 \<Rightarrow> u64" where
  "rng_seed seed = (if seed \<noteq> 0 then seed else 0x9E3779B97F4A7C15)"

definition rng_next :: "u64 \<Rightarrow> u64" where
  "rng_next s = (let s = s XOR push_bit 13 s; s = s XOR drop_bit 7 s in s XOR push_bit 17 s)"

text \<open>The variables of \<open>runStream\<close>: the generator, \<open>Invariants\<close>, and the two flags.\<close>

record stream =
  ev_rng :: u64
  ev_lastGen :: u64
  ev_lastProgress :: u64
  ev_sawTerminal :: bool
  ev_cancelled :: bool
  ev_finished :: bool

definition rng_below :: "u64 \<Rightarrow> stream \<Rightarrow> u64 \<times> stream" where
  "rng_below n s = (let r = rng_next (ev_rng s) in (r mod n, s\<lparr>ev_rng := r\<rparr>))"

definition stream_policy :: Policy where
  "stream_policy = pol\<lparr>po_restart := (po_restart pol)\<lparr>rp_maxRestarts := 3\<rparr>\<rparr>"

text \<open>\<open>Invariants::check\<close>: the number of conditions that fail.\<close>

definition check_invariants :: "Workload \<Rightarrow> stream \<Rightarrow> nat \<times> stream" where
  "check_invariants w s =
     (length (filter Not
        [valid (wl_generation w),
         toU64 (wl_generation w) \<ge> ev_lastGen s,
         pg_completed (wl_progress w) \<ge> ev_lastProgress s,
         wl_restartCount w \<le> rp_maxRestarts (po_restart (wl_policy w)),
         length (filter ep_authoritative (wl_episodes w)) \<le> 1,
         wl_state w = WorkloadState.COMPLETED \<longrightarrow> wl_restartCount w \<le> rp_maxRestarts (po_restart (wl_policy w))]),
      s\<lparr>ev_lastGen := toU64 (wl_generation w), ev_lastProgress := pg_completed (wl_progress w),
        ev_sawTerminal := ev_sawTerminal s \<or> isTerminal (wl_state w)\<rparr>)"

text \<open>A check that fails counts as a check and a failure; \<open>n\<close> failures of the invariants as \<open>n\<close> of both.\<close>

definition failing :: "nat \<Rightarrow> (unit, 'g) run" where
  "failing n w = Inr ((), w\<lparr>pw_checks := replicate n False @ pw_checks w\<rparr>)"

text \<open>\<open>checkPersistence\<close>, with the store that also is the engine's.\<close>

definition checkPersistence :: "arg_order \<Rightarrow> arg_order \<Rightarrow> WorkloadId \<Rightarrow> (unit, 'g) run" where
  "checkPersistence oc od i =
     seq (snap i) (\<lambda>wl.
     seq (eng (\<lambda>e. (default_result, persist mem_save wl e))) (\<lambda>_ w.
     seq (value_of (Option.bind (en_store (pw_engine w)) (mem_load oc od i))) (\<lambda>r.
     CHECK (lr_outcome r = Outcome.ALLOW \<and> (case lr_workload r of None \<Rightarrow> False
       | Some v \<Rightarrow> wl_state v = wl_state wl \<and>
           pg_completed (wl_progress v) = pg_completed (wl_progress wl) \<and>
           toU64 (wl_generation v) = toU64 (wl_generation wl)))) w))"

section \<open>The stream\<close>

definition finish :: "'a \<Rightarrow> ('a, 'g) run" where
  "finish x w = Inr (x, w)"

text \<open>\<open>startEpisode\<close> and, when it is allowed, \<open>admitDispatch\<close>.\<close>

definition start_and_admit :: "WorkloadId \<Rightarrow> OwnerId \<Rightarrow> (unit, 'g) run" where
  "start_and_admit i ow =
     seq (eng (engine_startEpisode ow (fromU64 1) mem_save i)) (\<lambda>se.
     if er_outcome se = Outcome.ALLOW
     then seq (value_of (er_episodeId se)) (\<lambda>ep. ignored (engine_admitDispatch ep (UniqueValue 1) (UniqueValue 1) mem_save i))
     else skip)"

text \<open>The branch an event takes; \<open>again\<close> is the state of the second snapshot of the third branch.\<close>

definition event :: "WorkloadId \<Rightarrow> u64 \<Rightarrow> Workload \<Rightarrow> WorkloadState \<Rightarrow> stream \<Rightarrow> (stream, 'g) run" where
  "event i choice w again s =
     (let gen = wl_generation w; ep = currentEpisodeId w; st = wl_state w in
      if choice < 8 then seq (ignored (engine_settle mem_save i)) (\<lambda>_. finish s)
      else if choice < 20 \<and> valid ep then
        (case rng_below 5 s of (d, s) \<Rightarrow>
           seq (ignored (engine_progress ep (fromU64 1) (1 + d) True mem_save i)) (\<lambda>_. finish s))
      else if choice < 30 \<and> again = WorkloadState.RUNNING then
        seq (ignored (engine_onWorkerLost (UniqueValue 1) (UniqueValue 1) gen mem_save i)) (\<lambda>_. finish s)
      else if choice < 40 \<and> st = WorkloadState.RECOVERING then
        seq (ignored (engine_planRestart ''WORKER_LOSS'' gen mem_save i)) (\<lambda>_. finish s)
      else if choice < 46 \<and> st = WorkloadState.RESTART_PENDING then
        seq (start_and_admit i (UniqueValue 1)) (\<lambda>_. finish s)
      else if choice < 52 \<and> st = WorkloadState.READY \<and> ep \<noteq> no_value \<and> \<not> ev_cancelled s then
        seq (ignored (engine_onWorkerLost (UniqueValue 1) (UniqueValue 1) gen mem_save i)) (\<lambda>_. finish s)
      else if choice < 58 \<and> isActivelyRunning st then
        seq (eng (engine_requestSuspend gen mem_save i)) (\<lambda>r.
        if er_outcome r = Outcome.ALLOW
        then seq (ignored (engine_completeSuspend gen mem_save i)) (\<lambda>_. finish s) else finish s)
      else if choice < 64 \<and> st = WorkloadState.SUSPENDED then
        seq (ignored (engine_requestResume gen mem_save i)) (\<lambda>_.
        seq (start_and_admit i (UniqueValue 2)) (\<lambda>_. finish s))
      else if choice < 70 \<and> isActivelyRunning st \<and> \<not> ev_cancelled s then
        seq (eng (engine_requestMigration gen mem_save i)) (\<lambda>r.
        if er_outcome r = Outcome.ALLOW
        then seq (ignored (engine_commitMigration gen (UniqueValue 2) (UniqueValue 2) mem_save i)) (\<lambda>_. finish s)
        else finish s)
      else if choice < 76 \<and> st = WorkloadState.MIGRATION_PENDING then
        seq (ignored (engine_commitMigration gen (UniqueValue 2) (UniqueValue 2) mem_save i)) (\<lambda>_. finish s)
      else if choice < 82 \<and> \<not> ev_cancelled s \<and> \<not> isTerminal st then
        seq (eng (engine_cancel gen mem_save i)) (\<lambda>r.
        if er_outcome r = Outcome.ALLOW
        then seq (ignored (engine_completeCancellation gen mem_save i)) (\<lambda>_. finish (s\<lparr>ev_cancelled := True\<rparr>))
        else finish s)
      else if choice < 90 \<and> st = WorkloadState.CANCELLATION_REQUESTED then
        seq (eng (engine_progress ep (fromU64 1) 1 True mem_save i)) (\<lambda>r.
        seq (CHECK (er_outcome r = Outcome.REJECT_CANCELLED \<or> er_outcome r = Outcome.REJECT_TERMINAL \<or>
          er_outcome r = Outcome.ALLOW)) (\<lambda>_. finish s))
      else if choice < 94 \<and> st = WorkloadState.STARTING then
        seq (ignored (engine_admitDispatch ep (UniqueValue 1) (UniqueValue 1) mem_save i)) (\<lambda>_. finish s)
      else
        seq (ignored (engine_episodeCompleted ep mem_save i)) (\<lambda>_.
        seq (eng (engine_commitCompletion gen mem_save i)) (\<lambda>r.
        finish (if er_outcome r = Outcome.ALLOW then s\<lparr>ev_finished := True\<rparr> else s))))"

definition stream_step :: "arg_order \<Rightarrow> arg_order \<Rightarrow> WorkloadId \<Rightarrow> nat \<Rightarrow> stream \<Rightarrow> (stream, 'g) run" where
  "stream_step oc od i k s =
     seq (snap i) (\<lambda>w. case rng_below 100 s of (choice, s) \<Rightarrow>
     seq (snap i) (\<lambda>v.
     seq (event i choice w (wl_state v) s) (\<lambda>s.
     seq (snap i) (\<lambda>now. case check_invariants now s of (fails, s) \<Rightarrow>
     seq (failing fails) (\<lambda>_.
     seq (if k mod 37 = 0 then checkPersistence oc od i else skip) (\<lambda>_.
     finish s))))))"

primrec stream_loop :: "arg_order \<Rightarrow> arg_order \<Rightarrow> WorkloadId \<Rightarrow> nat list \<Rightarrow> stream \<Rightarrow> (unit, 'g) run" where
  "stream_loop oc od i [] s = skip"
| "stream_loop oc od i (k # ks) s =
     (if ev_finished s then skip else seq (stream_step oc od i k s) (stream_loop oc od i ks))"

definition stream_start :: "WorkloadId \<Rightarrow> (unit, 'g) run" where
  "stream_start i =
     seq (\<lambda>w. Inr ((), w\<lparr>pw_engine := new_engine (Some [])\<rparr>)) (\<lambda>_.
     seq (ignored (engine_create i ''prop'' ''random'' stream_policy mem_save)) (\<lambda>_.
     resourced i ''g''))"

definition runStream :: "arg_order \<Rightarrow> arg_order \<Rightarrow> u64 \<Rightarrow> (unit, 'g) run" where
  "runStream oc od seed =
     (let i = UniqueValue (seed + 1);
          s = \<lparr>ev_rng = rng_seed seed, ev_lastGen = 0, ev_lastProgress = 0, ev_sawTerminal = False,
               ev_cancelled = False, ev_finished = False\<rparr>
      in seq (stream_start i) (\<lambda>_.
         seq (stream_loop oc od i [0..<400] s) (\<lambda>_.
         checkPersistence oc od i)))"

primrec run_streams :: "arg_order \<Rightarrow> arg_order \<Rightarrow> u64 list \<Rightarrow> (unit, 'g) run" where
  "run_streams oc od [] = skip"
| "run_streams oc od (seed # seeds) = seq (runStream oc od seed) (\<lambda>_. run_streams oc od seeds)"

definition test_property_main :: "arg_order \<Rightarrow> arg_order \<Rightarrow> (int, 'g) run" where
  "test_property_main oc od =
     seq (run_streams oc od (map word_of_nat [1000..<1100])) (\<lambda>_. test_status)"

section \<open>A workload that waits\<close>

text \<open>What the first six calls make of the workload.\<close>

definition stream_ready :: "WorkloadId \<Rightarrow> Workload" where
  "stream_ready i =
     (let w = (create i ''prop'' ''random'')\<lparr>wl_policy := stream_policy\<rparr>;
          w = snd (call (AddRequirement one_accelerator) w);
          w = snd (call (ApplyGrant (granted_accelerator ''g'' (rc_generation (wl_contract w)))) w);
          w = snd (workload_step (Validate i) 0 w)
      in snd (workload_step (SettleNow i) 0 w))"

definition rejected_cancel :: "Workload \<Rightarrow> TransitionRecord" where
  "rejected_cancel w = \<lparr>tr_from = WorkloadState.READY, tr_to = WorkloadState.CANCELLATION_REQUESTED,
     tr_generation = wl_generation w, tr_timestampMs = 0, tr_reason = ''cancellation requested'',
     tr_outcome = Outcome.REJECT_INVALID_TRANSITION\<rparr>"

text \<open>After \<open>m\<close> cancellations that were rejected.\<close>

definition idle :: "WorkloadId \<Rightarrow> bool \<Rightarrow> nat \<Rightarrow> Workload" where
  "idle i b m = (stream_ready i)\<lparr>wl_cancellationRequested := b,
     wl_history := wl_history (stream_ready i) @ replicate m (rejected_cancel (stream_ready i)),
     wl_revision := UniqueValue (toU64 (wl_revision (stream_ready i)) + word_of_nat m)\<rparr>"

lemma ready_facts:
  "wl_state (stream_ready i) = WorkloadState.READY" "wl_generation (stream_ready i) = UniqueValue 1"
  "wl_episodes (stream_ready i) = []" "pg_completed (wl_progress (stream_ready i)) = 0"
  "wl_restartCount (stream_ready i) = 0" "wl_policy (stream_ready i) = stream_policy"
  "wl_cancellationRequested (stream_ready i) = False"
  "toU64 (wl_revision (stream_ready i)) = 3"
  "deps_ready (wl_deps (stream_ready i))" "satisfied (wl_contract (stream_ready i))"
  "dset_wf (wl_deps (stream_ready i))"
  by code_simp+

lemma ready_fits:
  "size_fits (wl_name (stream_ready i))" "size_fits (wl_intent (stream_ready i))"
  "size_fits (wl_lastRestartReason (stream_ready i))" "contract_fits (wl_contract (stream_ready i))"
  "deps_fits (wl_deps (stream_ready i))" "list_all (\<lambda>h. size_fits (tr_reason h)) (wl_history (stream_ready i))"
  "int (length (wl_history (stream_ready i))) < 10"
  "int (length (encode (stream_ready i))) < 10000"
  by code_simp+

lemma idle_simps [simp]:
  "wl_state (idle i b m) = WorkloadState.READY" "wl_generation (idle i b m) = UniqueValue 1"
  "wl_episodes (idle i b m) = []" "pg_completed (wl_progress (idle i b m)) = 0"
  "wl_restartCount (idle i b m) = 0" "wl_policy (idle i b m) = stream_policy"
  "currentEpisode (idle i b m) = None" "currentEpisodeId (idle i b m) = no_value"
  by (simp_all add: idle_def ready_facts currentEpisode_def currentEpisodeId_def)

lemma idle_first: "stream_ready i = idle i False 0"
  using ready_facts(7,8) [of i] by (cases "stream_ready i") (simp add: idle_def, cases "wl_revision (stream_ready i)", simp)

text \<open>Every call the stream makes on it leaves it waiting.\<close>

lemma idle_settle: "settle (wl_generation (idle i b m)) (idle i b m) = (Outcome.ALLOW, idle i b m)"
  by (simp add: settle_def) (simp add: idle_def ready_facts)

lemma idle_mark: "markEpisodeCompleted no_value (idle i b m) = (Outcome.REJECT_EPISODE_INELIGIBLE, idle i b m)"
  by (simp add: markEpisodeCompleted_def episode_index_def)

lemma idle_commit: "commitCompletion (UniqueValue 1) (idle i b m) = (Outcome.REJECT_COMPLETION_POLICY, idle i b m)"
proof -
  have "\<not> completion_criterion (idle i b m)" "po_cancelRace stream_policy \<noteq> CancelRaceSemantics.CANCEL_FIRST"
    by (simp_all add: completion_criterion_def stream_policy_def pol_def goodPolicy_def default_policy_def)
  then show ?thesis by (simp add: commitCompletion_def)
qed

lemma idle_cancel:
  "requestCancellationWorkloadScope (UniqueValue 1) (idle i b m) = (Outcome.REJECT_INVALID_TRANSITION, idle i True (Suc m))"
proof -
  have "wl_generation (stream_ready i) = UniqueValue 1" "wl_state (stream_ready i) = WorkloadState.READY"
    by (simp_all add: ready_facts)
  then show ?thesis
    by (simp add: requestCancellationWorkloadScope_def guardedTransition_def canTransition_to_CANCELLATION_REQUESTED
        Let_def)
      (simp add: idle_def record_transition_def rejected_cancel_def next_gen_def fromU64_def replicate_append_same [symmetric] add_ac)
qed

text \<open>It can be stored.\<close>

lemma idle_encode: "length (encode (idle i b m)) = length (encode (stream_ready i)) + 49 * m"
  by (simp add: idle_def encode_def put_vec_def put_id_def put_bool_def length_concat comp_def sum_list_replicate
      put_record_def rejected_cancel_def put_enum_def put_str_def)

lemma idle_storable:
  assumes "valid i" and "m \<le> 400"
  shows "storable (idle i b m)"
proof -
  have "int (length (encode (idle i b m))) < 10000 + 49 * 400"
    using ready_fits(8) [of i] assms(2) by (simp add: idle_encode)
  then have "size_fits (encode (idle i b m))" by (simp add: size_fits_def)
  moreover have "wl_id (stream_ready i) = i"
    by (simp add: stream_ready_def Let_def step_id call.same_id del: call.simps workload_step.simps) (simp add: create_def)
  moreover have "(3 :: u64) + word_of_nat m \<noteq> 0"
  proof -
    have "unat (3 + word_of_nat m :: u64) = 3 + m"
      using assms(2) by (simp add: unat_word_ariths unat_of_nat)
    then show ?thesis by (metis add_is_0 unat_0 zero_neq_numeral)
  qed
  moreover have "vec_fits (\<lambda>h. size_fits (tr_reason h)) (wl_history (idle i b m))"
  proof -
    have "size_fits (tr_reason (rejected_cancel (stream_ready i)))" by (simp add: rejected_cancel_def size_fits_def)
    with ready_fits(6,7) [of i] assms(2) show ?thesis
      by (auto simp: idle_def vec_fits_def list_all_iff)
  qed
  moreover have "vec_fits episode_fits []" by (simp add: vec_fits_def)
  ultimately show ?thesis
    using ready_fits(1-5) [of i] ready_facts(8,11) [of i] assms(1)
    by (simp add: storable_def workload_fits_def) (simp add: idle_def)
qed

section \<open>What the streams do\<close>

definition waiting :: "WorkloadId \<Rightarrow> bool \<Rightarrow> nat \<Rightarrow> 'g world \<Rightarrow> bool" where
  "waiting i b m w \<longleftrightarrow> engine_get i (pw_engine w) = Some (idle i b m) \<and> en_store (pw_engine w) \<noteq> None"

lemma seq_step: "t w = Inr (x, w') \<Longrightarrow> seq t k w = k x w'"
  by (simp add: seq_def)

lemma waiting_call:
  assumes "waiting i b m w" and "f = on_workload g mem_save i" and "g (idle i b m) = (out, idle i b' m')"
  shows "\<exists>r w'. eng f w = Inr (r, w') \<and> er_outcome r = out \<and> waiting i b' m' w' \<and> pw_checks w' = pw_checks w"
    and "\<exists>w'. ignored f w = Inr ((), w') \<and> waiting i b' m' w' \<and> pw_checks w' = pw_checks w"
proof -
  let ?a = "f (pw_engine w)"
  have a: "er_outcome (fst ?a) = out" "engine_get i (snd ?a) = Some (idle i b' m')" "en_store (snd ?a) \<noteq> None"
    using assms by (simp_all add: waiting_def on_workload_found)
  then have "waiting i b' m' (w\<lparr>pw_engine := snd ?a\<rparr>)" by (simp add: waiting_def)
  moreover have "eng f w = Inr (fst ?a, w\<lparr>pw_engine := snd ?a\<rparr>)" by (simp add: eng_def case_prod_unfold)
  ultimately show "\<exists>r w'. eng f w = Inr (r, w') \<and> er_outcome r = out \<and> waiting i b' m' w' \<and> pw_checks w' = pw_checks w"
    and "\<exists>w'. ignored f w = Inr ((), w') \<and> waiting i b' m' w' \<and> pw_checks w' = pw_checks w"
    using a(1) by (simp_all add: ignored_def seq_def skip_def)
qed

text \<open>Whatever the generator says, an event settles, asks for a cancellation that is rejected, or completes nothing.\<close>

lemma waiting_event:
  assumes "waiting i b m w" and "\<not> ev_cancelled s" and "\<not> ev_finished s"
  shows "\<exists>b' m' w'. event i choice (idle i b m) WorkloadState.READY s w = Inr (s, w') \<and> waiting i b' m' w' \<and>
    m' \<le> Suc m \<and> pw_checks w' = pw_checks w"
proof -
  have no_episode: "\<not> valid (no_value :: ExecutionEpisodeId)" by (simp add: valid_def no_value_def)
  consider "choice < 8" | "\<not> choice < 8" "choice < 82" | "\<not> choice < 82" by blast
  then show ?thesis
  proof cases
    case 1
    have "engine_settle mem_save i = on_workload (\<lambda>w. settle (wl_generation w) w) mem_save i"
      by (simp add: engine_settle_def)
    from waiting_call(2) [OF assms(1) this idle_settle] obtain w1 where
      "ignored (engine_settle mem_save i) w = Inr ((), w1)" "waiting i b m w1" "pw_checks w1 = pw_checks w"
      by blast
    with 1 show ?thesis
      by (intro exI [of _ b] exI [of _ m] exI [of _ w1]) (simp add: event_def seq_step finish_def)
  next
    case 2
    have "engine_cancel (UniqueValue 1) mem_save i = on_workload (requestCancellationWorkloadScope (UniqueValue 1)) mem_save i"
      by (simp add: engine_cancel_def)
    from waiting_call(1) [OF assms(1) this idle_cancel] obtain r w1 where
      "eng (engine_cancel (UniqueValue 1) mem_save i) w = Inr (r, w1)" "er_outcome r = Outcome.REJECT_INVALID_TRANSITION"
      "waiting i True (Suc m) w1" "pw_checks w1 = pw_checks w"
      by blast
    with 2 assms(2) no_episode show ?thesis
      by (intro exI [of _ True] exI [of _ "Suc m"] exI [of _ w1])
        (simp add: event_def Let_def seq_step finish_def isActivelyRunning_def)
  next
    case 3
    have "engine_episodeCompleted no_value mem_save i = on_workload (markEpisodeCompleted no_value) mem_save i"
      by (simp add: engine_episodeCompleted_def)
    from waiting_call(2) [OF assms(1) this idle_mark] obtain w1 where
      w1: "ignored (engine_episodeCompleted no_value mem_save i) w = Inr ((), w1)" "waiting i b m w1" "pw_checks w1 = pw_checks w"
      by blast
    have "engine_commitCompletion (UniqueValue 1) mem_save i = on_workload (commitCompletion (UniqueValue 1)) mem_save i"
      by (simp add: engine_commitCompletion_def)
    from waiting_call(1) [OF w1(2) this idle_commit] obtain r w2 where
      "eng (engine_commitCompletion (UniqueValue 1) mem_save i) w1 = Inr (r, w2)"
      "er_outcome r = Outcome.REJECT_COMPLETION_POLICY" "waiting i b m w2" "pw_checks w2 = pw_checks w1"
      by blast
    moreover have "\<not> choice < 8" "\<not> choice < 20" "\<not> choice < 30" "\<not> choice < 40" "\<not> choice < 46" "\<not> choice < 52"
      "\<not> choice < 58" "\<not> choice < 64" "\<not> choice < 70" "\<not> choice < 76"
      using 3 by (simp_all add: not_less word_le_nat_alt)
    ultimately show ?thesis
      using w1 3 by (intro exI [of _ b] exI [of _ m] exI [of _ w2]) (simp add: event_def Let_def seq_step finish_def)
  qed
qed

lemma waiting_persists:
  assumes "waiting i b m w" and "valid i" and "m \<le> 400"
  shows "\<exists>w'. checkPersistence oc od i w = Inr ((), w') \<and> waiting i b m w' \<and> pw_checks w' = True # pw_checks w"
proof -
  obtain ps where ps: "en_store (pw_engine w) = Some ps" using assms(1) by (auto simp: waiting_def)
  let ?v = "idle i b m" and ?e = "persist mem_save (idle i b m) (pw_engine w)"
  have v: "snapshot i (pw_engine w) = ?v" using assms(1) by (simp add: waiting_def snapshot_def)
  have "wl_id ?v = i"
    by (simp add: idle_def stream_ready_def Let_def step_id call.same_id del: call.simps workload_step.simps) (simp add: create_def)
  then have "mem_load oc od i (snd (mem_save ?v ps)) = Some (loaded (restored oc od ?v))"
    using idle_storable [OF assms(2,3), of b] by (simp add: mem_save_def mem_load_put load_result_def decode_storable isAllow_def)
  then have "checkPersistence oc od i w = Inr ((), w\<lparr>pw_engine := ?e, pw_checks := True # pw_checks w\<rparr>)"
    using ps by (simp add: checkPersistence_def seq_def snap_def eng_def v value_of_def CHECK_def loaded_def restored_def)
  moreover have "waiting i b m (w\<lparr>pw_engine := ?e, pw_checks := True # pw_checks w\<rparr>)"
    using assms(1) by (simp add: waiting_def)
  ultimately show ?thesis by auto
qed

definition quiet :: "stream \<Rightarrow> bool" where
  "quiet s \<longleftrightarrow> \<not> ev_cancelled s \<and> \<not> ev_finished s \<and> ev_lastGen s \<le> 1 \<and> ev_lastProgress s = 0"

lemma waiting_step:
  assumes "waiting i b m w" and "quiet s" and "valid i" and "m < 400"
  shows "\<exists>b' m' s' w'. stream_step oc od i k s w = Inr (s', w') \<and> waiting i b' m' w' \<and> quiet s' \<and> m' \<le> Suc m \<and>
    pw_checks w' = (if k mod 37 = 0 then [True] else []) @ pw_checks w"
proof -
  have snap: "snap i v = Inr (idle i c n, v)" if "waiting i c n v" for c n and v :: "'a world"
    using that by (simp add: snap_def waiting_def snapshot_def)
  obtain choice s1 where s1: "rng_below 100 s = (choice, s1)" by fastforce
  then have q1: "\<not> ev_cancelled s1" "\<not> ev_finished s1" "ev_lastGen s1 \<le> 1" "ev_lastProgress s1 = 0"
    using assms(2) by (auto simp: quiet_def rng_below_def Let_def)
  obtain b1 m1 w1 where w1: "event i choice (idle i b m) WorkloadState.READY s1 w = Inr (s1, w1)" "waiting i b1 m1 w1"
    "m1 \<le> Suc m" "pw_checks w1 = pw_checks w"
    using waiting_event [OF assms(1) q1(1,2)] by blast
  define s2 where "s2 = snd (check_invariants (idle i b1 m1) s1)"
  have inv: "check_invariants (idle i b1 m1) s1 = (0, s2)"
    using q1(3,4) by (simp add: s2_def check_invariants_def valid_def)
  have q2: "quiet s2" using q1 by (simp add: s2_def check_invariants_def quiet_def)
  have "failing 0 w1 = Inr ((), w1)" by (simp add: failing_def)
  then have step: "stream_step oc od i k s w =
      seq (if k mod 37 = 0 then checkPersistence oc od i else skip) (\<lambda>_. finish s2) w1"
    using s1 w1(1) inv by (simp add: stream_step_def seq_step snap [OF assms(1)] snap [OF w1(2)])
  obtain w2 where w2: "checkPersistence oc od i w1 = Inr ((), w2)" "waiting i b1 m1 w2" "pw_checks w2 = True # pw_checks w1"
    using waiting_persists [OF w1(2) assms(3)] w1(3) assms(4) by (meson Suc_leI order_trans)
  show ?thesis
  proof (cases "k mod 37 = 0")
    case True
    with step w2 w1 q2 show ?thesis
      by (intro exI [of _ b1] exI [of _ m1] exI [of _ s2] exI [of _ w2]) (simp add: seq_step finish_def)
  next
    case False
    with step w1 q2 show ?thesis
      by (intro exI [of _ b1] exI [of _ m1] exI [of _ s2] exI [of _ w1]) (simp add: seq_step skip_def finish_def)
  qed
qed

lemma waiting_loop:
  assumes "waiting i b m w" and "quiet s" and "valid i" and "m + length ks \<le> 400"
  shows "\<exists>b' m' w'. stream_loop oc od i ks s w = Inr ((), w') \<and> waiting i b' m' w' \<and> m' \<le> m + length ks \<and>
    pw_checks w' = replicate (length (filter (\<lambda>k. k mod 37 = 0) ks)) True @ pw_checks w"
  using assms
proof (induction ks arbitrary: b m s w)
  case Nil
  then show ?case by (auto simp: skip_def)
next
  case (Cons k ks)
  then have "m < 400" by simp
  from waiting_step [OF Cons.prems(1-3) this] obtain b1 m1 s1 w1 where
    w1: "stream_step oc od i k s w = Inr (s1, w1)" "waiting i b1 m1 w1" "quiet s1" "m1 \<le> Suc m"
    "pw_checks w1 = (if k mod 37 = 0 then [True] else []) @ pw_checks w"
    by blast
  have "m1 + length ks \<le> 400" using w1(4) Cons.prems(4) by simp
  from Cons.IH [OF w1(2,3) Cons.prems(3) this] obtain b2 m2 w2 where
    w2: "stream_loop oc od i ks s1 w1 = Inr ((), w2)" "waiting i b2 m2 w2" "m2 \<le> m1 + length ks"
    "pw_checks w2 = replicate (length (filter (\<lambda>k. k mod 37 = 0) ks)) True @ pw_checks w1"
    by blast
  moreover have "\<not> ev_finished s" using Cons.prems(2) by (simp add: quiet_def)
  ultimately show ?case
    using w1 by (intro exI [of _ b2] exI [of _ m2] exI [of _ w2]) (simp add: seq_step replicate_app_Cons_same)
qed

lemma persistence_checks: "length (filter (\<lambda>k. k mod 37 = 0) [0..<n]) = (n + 36) div 37"
proof (induction n)
  case (Suc n)
  have "(Suc n + 36) div 37 = (if n mod 37 = 0 then Suc ((n + 36) div 37) else (n + 36) div 37)"
    using div_Suc [of "n + 36" 37] mod_add_self2 [of n 37] by simp
  with Suc show ?case by simp
qed simp

text \<open>The first calls.\<close>

lemma start_call:
  assumes "engine_get i (pw_engine w) = Some v" and "en_store (pw_engine w) \<noteq> None"
    and "f = serve mem_save r" and "target r = i" and "v' = snd (workload_step r (en_episodeCounter (pw_engine w)) v)"
  shows "\<exists>w'. ignored f w = Inr ((), w') \<and> engine_get i (pw_engine w') = Some v' \<and>
    en_store (pw_engine w') \<noteq> None \<and> pw_checks w' = pw_checks w"
proof -
  let ?e = "snd (f (pw_engine w))"
  have "engine_get (target r) (pw_engine w) = Some v" using assms(1,4) by simp
  note served = serve_found(2,3) [OF this, where save = mem_save]
  have "engine_get i ?e = Some v'" "en_store ?e \<noteq> None"
    using served(1) [of i] served(2) assms(2-5) by auto
  moreover have "ignored f w = Inr ((), w\<lparr>pw_engine := ?e\<rparr>)"
    by (simp add: ignored_def seq_def skip_def eng_def case_prod_unfold)
  ultimately show ?thesis by simp
qed

lemma stream_starts:
  "\<exists>w'. stream_start i w = Inr ((), w') \<and> waiting i False 0 w' \<and> pw_checks w' = pw_checks w"
proof -
  let ?v1 = "(create i ''prop'' ''random'')\<lparr>wl_policy := stream_policy\<rparr>"
  let ?v2 = "snd (call (AddRequirement one_accelerator) ?v1)"
  let ?v3 = "snd (call (ApplyGrant (granted_accelerator ''g'' (rc_generation (wl_contract ?v2)))) ?v2)"
  let ?v4 = "snd (workload_step (Validate i) 0 ?v3)"
  let ?w1 = "w\<lparr>pw_engine := snd (engine_create i ''prop'' ''random'' stream_policy mem_save (new_engine (Some [])))\<rparr>"
  have new: "engine_get i (new_engine (Some []) :: memory engine) = None" "en_store (new_engine (Some []) :: memory engine) = Some []"
    by (simp_all add: engine_get_def new_engine_def Mapping.lookup_empty)
  have "engine_get i (pw_engine ?w1) = Some ?v1" "en_store (pw_engine ?w1) \<noteq> None"
    using serve_create(1,2) [OF new(1), where save = mem_save and name = "''prop''" and intent = "''random''" and p = stream_policy] new(2)
    by simp_all
  from start_call [OF this, of "engine_addResourceRequirement one_accelerator mem_save i"
      "engine_request.Request i (AddRequirement one_accelerator)" ?v2]
  obtain w2 where w2: "ignored (engine_addResourceRequirement one_accelerator mem_save i) ?w1 = Inr ((), w2)"
    "engine_get i (pw_engine w2) = Some ?v2" "en_store (pw_engine w2) \<noteq> None" "pw_checks w2 = pw_checks ?w1"
    by (auto simp: offered_def simp del: call.simps)
  let ?g = "granted_accelerator ''g'' (rc_generation (wl_contract ?v2))"
  from start_call [OF w2(2,3), of "engine_applyGrant ?g mem_save i" "engine_request.Request i (ApplyGrant ?g)" ?v3]
  obtain w3 where w3: "ignored (engine_applyGrant ?g mem_save i) w2 = Inr ((), w3)"
    "engine_get i (pw_engine w3) = Some ?v3" "en_store (pw_engine w3) \<noteq> None" "pw_checks w3 = pw_checks w2"
    by (auto simp: offered_def simp del: call.simps)
  from start_call [OF w3(2,3), of "engine_validate mem_save i" "Validate i" ?v4]
  obtain w4 where w4: "ignored (engine_validate mem_save i) w3 = Inr ((), w4)"
    "engine_get i (pw_engine w4) = Some ?v4" "en_store (pw_engine w4) \<noteq> None" "pw_checks w4 = pw_checks w3"
    by (auto simp del: call.simps)
  from start_call [OF w4(2,3), of "engine_settle mem_save i" "SettleNow i" "stream_ready i"]
  obtain w5 where w5: "ignored (engine_settle mem_save i) w4 = Inr ((), w5)"
    "engine_get i (pw_engine w5) = Some (stream_ready i)" "en_store (pw_engine w5) \<noteq> None" "pw_checks w5 = pw_checks w4"
    by (auto simp: stream_ready_def Let_def simp del: call.simps)
  have "snap i w2 = Inr (?v2, w2)" using w2(2) by (simp add: snap_def snapshot_def)
  moreover have "stream_start i w = resourced i ''g'' ?w1"
    by (simp add: stream_start_def seq_def ignored_def eng_def skip_def case_prod_unfold)
  ultimately have "stream_start i w = Inr ((), w5)"
    using w2(1) w3(1) w4(1) w5(1) by (simp add: resourced_def seq_step del: call.simps)
  moreover have "pw_checks w5 = pw_checks w" using w2(4) w3(4) w4(4) w5(4) by simp
  ultimately show ?thesis
    using w5(2,3) by (simp add: waiting_def idle_first)
qed

text \<open>
  For every seed, the stream of events of the randomised test leaves its workload READY, without an
  episode or progress, whatever its 400 events are: no branch of it starts the first episode, a
  cancellation is rejected in READY, and so the branches for running, suspended, migrating,
  recovering and restarting workloads are never taken. All of its twelve checks hold, for any order in which the
  compiler evaluates the arguments in \<open>decode\<close>.
\<close>

theorem streams_stay_ready:
  assumes "seed \<noteq> - 1"
  shows "\<exists>w'. runStream oc od seed w = Inr ((), w') \<and> pw_checks w' = replicate 12 True @ pw_checks w \<and>
    wl_state (snapshot (UniqueValue (seed + 1)) (pw_engine w')) = WorkloadState.READY \<and>
    wl_episodes (snapshot (UniqueValue (seed + 1)) (pw_engine w')) = [] \<and>
    pg_completed (wl_progress (snapshot (UniqueValue (seed + 1)) (pw_engine w'))) = 0"
proof -
  let ?i = "UniqueValue (seed + 1) :: WorkloadId"
  let ?s = "\<lparr>ev_rng = rng_seed seed, ev_lastGen = 0, ev_lastProgress = 0, ev_sawTerminal = False,
    ev_cancelled = False, ev_finished = False\<rparr>"
  have i: "valid ?i" using assms by (simp add: valid_def) (metis add_eq_0_iff2)
  obtain w1 where w1: "stream_start ?i w = Inr ((), w1)" "waiting ?i False 0 w1" "pw_checks w1 = pw_checks w"
    using stream_starts by blast
  have "quiet ?s" by (simp add: quiet_def)
  from waiting_loop [OF w1(2) this i, of "[0..<400]" oc od] obtain b m w2 where
    w2: "stream_loop oc od ?i [0..<400] ?s w1 = Inr ((), w2)" "waiting ?i b m w2" "m \<le> 400"
    "pw_checks w2 = replicate (length (filter (\<lambda>k. k mod 37 = 0) [0..<400])) True @ pw_checks w1"
    by auto
  obtain w3 where w3: "checkPersistence oc od ?i w2 = Inr ((), w3)" "waiting ?i b m w3" "pw_checks w3 = True # pw_checks w2"
    using waiting_persists [OF w2(2) i w2(3)] by blast
  have "pw_checks w3 = replicate 12 True @ pw_checks w"
    using w2(4) w3(3) w1(3) replicate_Suc [of 11 True] by (simp only: persistence_checks) simp
  moreover have "runStream oc od seed w = Inr ((), w3)"
    using w1(1) w2(1) w3(1) by (simp add: runStream_def Let_def seq_step)
  moreover have "snapshot ?i (pw_engine w3) = idle ?i b m"
    using w3(2) by (simp add: waiting_def snapshot_def)
  ultimately show ?thesis by (intro exI [of _ w3]) simp
qed

theorem streams_stay_ready_witness:
  "\<exists>w'. runStream Left_to_right Right_to_left 1000 \<lparr>pw_engine = new_engine None, pw_gpu = (), pw_checks = []\<rparr> = Inr ((), w') \<and>
    list_all id (pw_checks w') \<and> wl_state (snapshot (UniqueValue 1001) (pw_engine w')) = WorkloadState.READY"
proof -
  have "(1000 :: u64) \<noteq> - 1" by simp
  from streams_stay_ready [OF this, of Left_to_right Right_to_left "\<lparr>pw_engine = new_engine None, pw_gpu = (), pw_checks = []\<rparr>"]
  show ?thesis by (auto simp: list_all_iff)
qed

section \<open>The test programs\<close>

lemma run_streams_pass:
  "list_all (\<lambda>seed. seed \<noteq> - 1) seeds \<Longrightarrow> passes (12 * length seeds) (run_streams oc od seeds)"
proof (induction seeds)
  case Nil
  show ?case by (rule passesI) (simp add: skip_def)
next
  case (Cons seed seeds)
  have "passes 12 (runStream oc od seed :: (unit, 'a) run)"
    unfolding passes_def
  proof
    fix w :: "'a world"
    show "case runStream oc od seed w of Inl x \<Rightarrow> False | Inr (v, w') \<Rightarrow> pw_checks w' = replicate 12 True @ pw_checks w"
      using streams_stay_ready [of seed oc od w] Cons.prems by auto
  qed
  from passes_seq [OF this Cons.IH] Cons.prems show ?case by (simp add: add.commute)
qed

lemma property_succeeds: "succeeds 1200 (test_property_main oc od)"
proof -
  let ?seeds = "map word_of_nat [1000..<1100] :: u64 list"
  have "(word_of_nat k :: u64) \<noteq> - 1" if "k < 1100" for k
  proof
    assume "(word_of_nat k :: u64) = - 1"
    then have "(word_of_nat (Suc k) :: u64) = 0" by simp
    then have "unat (word_of_nat (Suc k) :: u64) = 0" by (simp only: unat_0)
    with that show False by (simp only: unat_of_nat) simp
  qed
  then have "list_all (\<lambda>seed. seed \<noteq> - 1) ?seeds" by (simp add: list_all_iff)
  from succeeds_seq [OF run_streams_pass [OF this] succeeds_status] show ?thesis
    by (simp add: test_property_main_def)
qed

text \<open>
  The authors' own test programs for the aggregate, the engine, the adversarial cases and the
  randomised streams return 0 on this model: their 69, 69, 28 and 1200 checks hold, whatever world
  they start in, however the compiler orders the arguments of the constructors in \<open>decode\<close>, and
  whatever the uninitialised state of the adapter's test is.
\<close>

theorem test_programs_pass:
  "map_sum id verdict (test_core_main oc od \<lparr>pw_engine = e, pw_gpu = g, pw_checks = []\<rparr>) = Inr (0, 69, True) \<and>
   map_sum id verdict (test_scenarios_main st \<lparr>pw_engine = e, pw_gpu = g, pw_checks = []\<rparr>) = Inr (0, 69, True) \<and>
   map_sum id verdict (test_adversarial_main oc od \<lparr>pw_engine = e, pw_gpu = g, pw_checks = []\<rparr>) = Inr (0, 28, True) \<and>
   map_sum id verdict (test_property_main oc od \<lparr>pw_engine = e, pw_gpu = g, pw_checks = []\<rparr>) = Inr (0, 1200, True)"
  by (intro conjI succeeds_verdict core_succeeds scenarios_succeed adversarial_succeeds property_succeeds)

end
