(* ===== verification/Races.thy ===== *)
theory Races
  imports Recovery Concurrency Conformance
begin

text \<open>
  Clients whose calls depend on what they are answered (\<open>raceCrossWorkload\<close> and
  \<open>raceProgressRestart\<close> of \<open>tests/concurrency.cpp\<close>), under every schedule of the steps of the
  method bodies.
\<close>

section \<open>Many clients, each with its own workload\<close>

definition race_policy :: Policy where
  "race_policy = pol\<lparr>po_restart := (po_restart pol)\<lparr>rp_maxRestarts := 5\<rparr>\<rparr>"

text \<open>The workload a snapshot answered with, and the episode a start answered with, if they did.\<close>

definition copied :: "observation list \<Rightarrow> nat \<Rightarrow> Workload option" where
  "copied rs k = (if k < length rs then (case rs ! k of Copied w \<Rightarrow> Some w | _ \<Rightarrow> None) else None)"

definition given_episode :: "observation list \<Rightarrow> nat \<Rightarrow> ExecutionEpisodeId option" where
  "given_episode rs k = (if k < length rs then (case rs ! k of Answered r \<Rightarrow> er_episodeId r | _ \<Rightarrow> None) else None)"

definition accepted :: "observation \<Rightarrow> bool" where
  "accepted x \<longleftrightarrow> (case x of Answered r \<Rightarrow> er_outcome r = Outcome.ALLOW | _ \<Rightarrow> False)"

text \<open>
  One workload's calls in the order of the program: \<open>makeReady\<close> by the main thread, then the body
  of the thread that is started for it, which follow each other also when the main thread is
  preparing the next workload meanwhile. \<open>None\<close> is an \<open>episodeId.value()\<close> without a value.
\<close>

definition ready_calls :: "WorkloadId \<Rightarrow> observation list \<Rightarrow> action option list" where
  "ready_calls i rs =
     [Some (Mutate (Create i ''conc'' ''race'' race_policy)),
      Some (Mutate (engine_request.Request i (AddRequirement one_accelerator))),
      Some (AskSnapshot i),
      map_option (\<lambda>s. Mutate (engine_request.Request i (ApplyGrant (granted_accelerator ''g'' (rc_generation (wl_contract s)))))) (copied rs 2),
      Some (Mutate (Validate i)),
      Some (Mutate (SettleNow i))]"

definition body_calls :: "WorkloadId \<Rightarrow> observation list \<Rightarrow> action option list" where
  "body_calls i rs =
     (let ep = given_episode rs 6 in
     [Some (Mutate (Start i (UniqueValue 1) (fromU64 1))),
      Some (AskSnapshot i),
      map_option (\<lambda>ep. Mutate (engine_request.Request i (AdmitDispatch ep (UniqueValue 1) (UniqueValue 1)))) ep,
      map_option (\<lambda>ep. Mutate (engine_request.Request i (ReportProgress ep (fromU64 1) 3 True))) ep,
      map_option (\<lambda>ep. Mutate (engine_request.Request i (MarkEpisodeCompleted ep))) ep,
      map_option (\<lambda>s. Mutate (engine_request.Request i (CommitCompletion (wl_generation s)))) (copied rs 7)])"

text \<open>The calls of the body whose outcome is tested: a failure is counted and ends the thread.\<close>

definition tested :: "nat set" where
  "tested = {6, 8, 9, 10, 11}"

definition cross_workload :: "WorkloadId \<Rightarrow> observation list \<Rightarrow> action option" where
  "cross_workload i rs =
     (if length rs < 12 \<and> (length rs \<in> Suc ` tested \<longrightarrow> accepted (last rs))
      then (ready_calls i rs @ body_calls i rs) ! length rs else None)"

definition failures :: "observation list \<Rightarrow> nat" where
  "failures rs = length (filter (\<lambda>k. k \<in> tested \<and> \<not> accepted (rs ! k)) [0..<length rs])"

definition cross_clients :: "nat \<Rightarrow> (nat \<Rightarrow> WorkloadId) \<Rightarrow> clients" where
  "cross_clients n ids t = (if t < n then cross_workload (ids t) else (\<lambda>rs. None))"

section \<open>The way of one workload\<close>

definition made :: "WorkloadId \<Rightarrow> Workload" where
  "made i = (create i ''conc'' ''race'')\<lparr>wl_policy := race_policy\<rparr>"

definition required :: "WorkloadId \<Rightarrow> Workload" where
  "required i = snd (call (AddRequirement one_accelerator) (made i))"

definition granted_wl :: "WorkloadId \<Rightarrow> Workload" where
  "granted_wl i = snd (call (ApplyGrant (granted_accelerator ''g'' (rc_generation (wl_contract (required i))))) (required i))"

definition validated :: "WorkloadId \<Rightarrow> Workload" where
  "validated i = snd (workload_step (Validate i) 0 (granted_wl i))"

definition settled :: "WorkloadId \<Rightarrow> Workload" where
  "settled i = snd (workload_step (SettleNow i) 0 (validated i))"

lemma settled_facts:
  "wl_state (settled i) = WorkloadState.READY" "\<not> wl_cancelledFinal (settled i)" "\<not> wl_cancellationRequested (settled i)"
  "wl_episodes (settled i) = []" "pg_completed (wl_progress (settled i)) = 0"
  "pg_totalKind (wl_progress (settled i)) \<noteq> TotalKind.KNOWN"
  "cp_kind (po_completion (wl_policy (settled i))) = CompletionKind.SINGLE_RESULT"
  by code_simp+

text \<open>From the start of the episode on: its identity, the generation the snapshot showed, and the units left.\<close>

definition started_with :: "WorkloadId \<Rightarrow> ExecutionEpisodeId \<Rightarrow> Workload" where
  "started_with i ep = snd (startEpisode ep (UniqueValue 1) (fromU64 1) True (settled i))"

definition running_with :: "ExecutionEpisodeId \<Rightarrow> WorkloadGeneration \<Rightarrow> nat \<Rightarrow> Workload \<Rightarrow> bool" where
  "running_with ep gen n w \<longleftrightarrow> takes_reports ep 0 n w \<and> wl_generation w = gen \<and>
     cp_kind (po_completion (wl_policy w)) = CompletionKind.SINGLE_RESULT \<and> \<not> wl_cancellationRequested w \<and>
     unat (pg_completed (wl_progress w)) + n = 3"

definition finished_with :: "WorkloadGeneration \<Rightarrow> Workload \<Rightarrow> bool" where
  "finished_with gen w \<longleftrightarrow> completable w \<and> completion_criterion w \<and> \<not> wl_cancellationRequested w \<and>
     wl_generation w = gen \<and> pg_completed (wl_progress w) = 3"

lemma start_settled:
  "startEpisode ep (UniqueValue 1) (fromU64 1) True (settled i) = (Outcome.ALLOW, started_with i ep)"
  by (simp add: started_with_def startEpisode_allowed resumeEligible_def settled_facts)

lemma admit_started:
  "\<exists>u. admitDispatch ep wk b (started_with i ep) = (Outcome.ALLOW, u) \<and>
    running_with ep (wl_generation (started_with i ep)) 3 u"
proof -
  let ?v = "started_with i ep" and ?x = "started_episode ep (UniqueValue 1) (fromU64 1) (settled i)"
  have v: "wl_state ?v = WorkloadState.STARTING" "wl_episodes ?v = map (\<lambda>e. e\<lparr>ep_authoritative := False\<rparr>) [] @ [?x]"
    "recovery_part ?v = (wl_policy (settled i), False, False, wl_progress (settled i), [ep])"
    by (simp_all add: started_with_def startEpisode_allowed resumeEligible_def settled_facts recovery_part_def
        started_episode_def)
  have x: "ep_id ?x = ep" "ep_state ?x = EpisodeState.ADMITTED" "ep_authoritative ?x" "ep_generation ?x = fromU64 1"
    by (simp_all add: started_episode_def default_episode_def fromU64_def)
  obtain u where u: "admitDispatch ep wk b ?v = (Outcome.ALLOW, u)" "wl_state u = WorkloadState.RUNNING"
      "wl_episodes u = [?x\<lparr>ep_worker := wk, ep_boot := b, ep_state := EpisodeState.RUNNING\<rparr>]"
      "episode_index ep u = Some 0" "currentEpisode u = Some 0"
      "wl_generation u = wl_generation ?v" "recovery_part u = recovery_part ?v"
    using admitted [OF v(1,2) x(1-3), of wk b] by auto
  have "running_with ep (wl_generation ?v) 3 u"
    using u(2-6) u(7) [unfolded v(3)] x(3,4) settled_facts(5-7)
    by (simp add: running_with_def takes_reports_nat recovery_part_def)
  with u(1) show ?thesis by blast
qed

lemma report_running:
  assumes "running_with ep gen 3 w"
  shows "\<exists>u. reportProgress ep (fromU64 1) 3 True w = (Outcome.ALLOW, u) \<and> running_with ep gen 0 u"
  using report_taken [of ep 0 3 w 3 True] assms
  by (auto simp: running_with_def completion_part_def prod_eq_iff)

lemma mark_running:
  assumes "running_with ep gen 0 w"
  shows "\<exists>u. markEpisodeCompleted ep w = (Outcome.ALLOW, u) \<and> finished_with gen u"
proof -
  have "pg_completed (wl_progress w) = 3"
    using assms by (simp add: running_with_def word_unat_eq_iff)
  with mark_completed [of ep 0 0 w] assms show ?thesis
    by (auto simp: running_with_def finished_with_def completion_part_def completion_criterion_def)
qed

lemma commit_finished:
  assumes "finished_with gen w"
  shows "\<exists>u. commitCompletion gen w = (Outcome.ALLOW, u) \<and> wl_state u = WorkloadState.COMPLETED \<and>
    pg_completed (wl_progress u) = 3"
proof -
  have "fst (commitCompletion gen w) = Outcome.ALLOW"
    using assms by (simp add: finished_with_def commitCompletion_fst)
  with commitCompletion_effect [OF this] assms show ?thesis
    by (intro exI [of _ "snd (commitCompletion gen w)"]) (simp add: finished_with_def prod_eq_iff)
qed

section \<open>One call at a time\<close>

text \<open>
  What a client has been answered, and its workload in the engine: \<open>k\<close> calls have returned, none of
  the tested ones failed.
\<close>

inductive strand :: "WorkloadId \<Rightarrow> observation list \<Rightarrow> Workload option \<Rightarrow> bool" for i where
  unborn: "strand i [] None"
| readying: "length rs \<in> {1..6} \<Longrightarrow> 2 < length rs \<longrightarrow> copied rs 2 = Some (required i) \<Longrightarrow>
    strand i rs (Some ([made i, required i, required i, granted_wl i, validated i, settled i] ! (length rs - 1)))"
| begun_episode: "length rs \<in> {7, 8} \<Longrightarrow> failures rs = 0 \<Longrightarrow> given_episode rs 6 = Some ep \<Longrightarrow>
    length rs = 7 \<longrightarrow> accepted (last rs) \<Longrightarrow> 7 < length rs \<longrightarrow> copied rs 7 = Some (started_with i ep) \<Longrightarrow>
    strand i rs (Some (started_with i ep))"
| working: "length rs \<in> {9, 10} \<Longrightarrow> failures rs = 0 \<Longrightarrow> given_episode rs 6 = Some ep \<Longrightarrow> accepted (last rs) \<Longrightarrow>
    copied rs 7 = Some s \<Longrightarrow> running_with ep (wl_generation s) (if length rs = 9 then 3 else 0) w \<Longrightarrow>
    strand i rs (Some w)"
| finished: "length rs = 11 \<Longrightarrow> failures rs = 0 \<Longrightarrow> accepted (last rs) \<Longrightarrow> copied rs 7 = Some s \<Longrightarrow>
    finished_with (wl_generation s) w \<Longrightarrow> strand i rs (Some w)"
| committed: "length rs = 12 \<Longrightarrow> failures rs = 0 \<Longrightarrow> wl_state w = WorkloadState.COMPLETED \<Longrightarrow>
    pg_completed (wl_progress w) = 3 \<Longrightarrow> strand i rs (Some w)"

lemma answered_more [simp]:
  "failures [] = 0"
  "failures (rs @ [r]) = failures rs + (if length rs \<in> tested \<and> \<not> accepted r then 1 else 0)"
  "k < length rs \<Longrightarrow> copied (rs @ [r]) k = copied rs k"
  "k < length rs \<Longrightarrow> given_episode (rs @ [r]) k = given_episode rs k"
  "copied (rs @ [Copied w]) (length rs) = Some w"
  "given_episode (rs @ [Answered x]) (length rs) = er_episodeId x"
proof -
  have "filter (\<lambda>k. k \<in> tested \<and> \<not> accepted ((rs @ [r]) ! k)) [0..<length rs] =
      filter (\<lambda>k. k \<in> tested \<and> \<not> accepted (rs ! k)) [0..<length rs]"
    by (intro filter_cong refl) (auto simp: nth_append)
  then show "failures (rs @ [r]) = failures rs + (if length rs \<in> tested \<and> \<not> accepted r then 1 else 0)"
    by (simp add: failures_def)
qed (simp_all add: failures_def copied_def given_episode_def nth_append)

lemma failures_early: "length rs \<le> 6 \<Longrightarrow> failures rs = 0"
  by (auto simp: failures_def tested_def filter_empty_conv)

lemma performed:
  assumes "engine_get (target r) e = Some w"
  shows "engine_get (target r) (snd (perform save (Mutate r) e)) = Some (snd (workload_step r (en_episodeCounter e) w))"
    and "accepted (fst (perform save (Mutate r) e)) \<longleftrightarrow> fst (workload_step r (en_episodeCounter e) w) = Outcome.ALLOW"
  using serve_found [OF assms, where save = save] by (simp_all add: accepted_def)

lemma readying_more:
  assumes "length rs < 6" and "w = [made i, required i, required i, granted_wl i, validated i, settled i] ! length rs"
    and "length rs = 2 \<longrightarrow> r = Copied (required i)" and "2 < length rs \<longrightarrow> copied rs 2 = Some (required i)"
  shows "strand i (rs @ [r]) (Some w)"
proof -
  have "2 < length (rs @ [r]) \<longrightarrow> copied (rs @ [r]) 2 = Some (required i)"
    using assms(3,4) answered_more(5) [of rs "required i"] by (cases "length rs = 2") auto
  with strand.readying [of "rs @ [r]" i] assms(1,2) show ?thesis by simp
qed

lemma next_call:
  assumes "cross_workload i rs = Some a"
  shows "length rs < 12" "length rs \<in> Suc ` tested \<longrightarrow> accepted (last rs)"
    "(ready_calls i rs @ body_calls i rs) ! length rs = Some a"
  using assms by (auto simp: cross_workload_def split: if_splits)

lemma ready_step:
  assumes "length rs \<in> {1..5}" and "2 < length rs \<longrightarrow> copied rs 2 = Some (required i)"
    and "engine_get i e = Some ([made i, required i, required i, granted_wl i, validated i, settled i] ! (length rs - 1))"
    and "cross_workload i rs = Some a"
  shows "strand i (rs @ [fst (perform save a e)]) (engine_get i (snd (perform save a e)))"
proof -
  let ?w = "[made i, required i, required i, granted_wl i, validated i, settled i]"
  note a = next_call(3) [OF assms(4)]
  have go: ?thesis if "a = Mutate r" "target r = i" "length rs \<noteq> 2"
    "snd (workload_step r (en_episodeCounter e) (?w ! (length rs - 1))) = ?w ! length rs" for r
  proof -
    have "engine_get i (snd (perform save a e)) = Some (?w ! length rs)"
      using performed(1) [where r = r and e = e and w = "?w ! (length rs - 1)" and save = save] that assms(3) by simp
    moreover have "length rs < 6" using assms(1) by simp
    ultimately show ?thesis using readying_more [OF _ refl, where rs = rs and i = i] that(3) assms(2) by simp
  qed
  consider "length rs = 1" | "length rs = 2" | "length rs = 3" | "length rs = 4" | "length rs = 5"
    using assms(1) by fastforce
  then show ?thesis
  proof cases
    case 1
    with a show ?thesis
      by (intro go [of "engine_request.Request i (AddRequirement one_accelerator)"])
        (simp_all add: ready_calls_def required_def offered_def)
  next
    case 2
    then have "a = AskSnapshot i" "engine_get i e = Some (required i)" "snapshot i e = required i"
      using a assms(3) by (simp_all add: ready_calls_def snapshot_def)
    then show ?thesis
      using 2 readying_more [where rs = rs and i = i and w = "required i" and r = "Copied (required i)"] by simp
  next
    case 3
    with a assms(2) show ?thesis
      by (intro go [of "engine_request.Request i (ApplyGrant (granted_accelerator ''g'' (rc_generation (wl_contract (required i)))))"])
        (simp_all add: ready_calls_def granted_wl_def offered_def)
  next
    case 4
    with a show ?thesis
      by (intro go [of "Validate i"]) (simp_all add: ready_calls_def validated_def)
  next
    case 5
    with a show ?thesis
      by (intro go [of "SettleNow i"]) (simp_all add: ready_calls_def settled_def)
  qed
qed

text \<open>The calls of the body.\<close>

lemma body_call:
  assumes "length rs \<in> {6..11}" and "cross_workload i rs = Some a"
  shows "body_calls i rs ! (length rs - 6) = Some a"
proof -
  have "length (ready_calls i rs) = 6" by (simp add: ready_calls_def)
  with next_call(3) [OF assms(2)] assms(1) show ?thesis by (simp add: nth_append)
qed

lemma start_step:
  assumes "length rs = 6" and "engine_get i e = Some (settled i)" and "cross_workload i rs = Some a"
  shows "strand i (rs @ [fst (perform save a e)]) (engine_get i (snd (perform save a e)))"
proof -
  let ?x = "fst (engine_startEpisode (UniqueValue 1) (fromU64 1) save i e)" and ?ep = "UniqueValue (en_episodeCounter e)"
  have a: "a = Mutate (Start i (UniqueValue 1) (fromU64 1))"
    using body_call [OF _ assms(3)] assms(1) by (simp add: body_calls_def Let_def)
  have x: "er_outcome ?x = Outcome.ALLOW" "er_episodeId ?x = Some ?ep"
    using assms(2) by (simp_all add: engine_startEpisode_def Let_def isAllow_def start_settled)
  have "engine_get i (snd (perform save a e)) = Some (started_with i ?ep)"
    using performed(1) [where r = "Start i (UniqueValue 1) (fromU64 1)" and e = e and w = "settled i" and save = save] assms(2)
    by (simp add: a start_settled)
  moreover have "strand i (rs @ [Answered ?x]) (Some (started_with i ?ep))"
    using answered_more(6) [of rs ?x] assms(1) x
    by (intro strand.begun_episode [of _ ?ep]) (simp_all add: accepted_def failures_early)
  ultimately show ?thesis by (simp add: a)
qed

lemma strand_step:
  assumes "strand i rs (engine_get i e)" and "cross_workload i rs = Some a"
  shows "strand i (rs @ [fst (perform save a e)]) (engine_get i (snd (perform save a e)))"
  using assms(1)
proof cases
  case unborn
  then have a: "a = Mutate (Create i ''conc'' ''race'' race_policy)"
    using next_call(3) [OF assms(2)] by (simp add: ready_calls_def)
  have "engine_get i (snd (perform save a e)) = Some (made i)"
    using unborn serve_create(1) [where i = i and j = i and e = e and save = save] by (simp add: a made_def)
  with unborn show ?thesis using readying_more [where rs = "[]" and i = i and w = "made i" and r = "fst (perform save a e)"] by simp
next
  case readying
  show ?thesis
  proof (cases "length rs = 6")
    case True
    with readying assms(2) show ?thesis by (intro start_step) simp_all
  next
    case False
    with readying assms(2) show ?thesis by (intro ready_step) simp_all
  qed
next
  case (begun_episode ep)
  show ?thesis
  proof (cases "length rs = 7")
    case True
    then have "a = AskSnapshot i" "snapshot i e = started_with i ep"
      using body_call [OF _ assms(2)] begun_episode(1) by (simp_all add: body_calls_def Let_def snapshot_def)
    then show ?thesis
      using True begun_episode answered_more(5) [of rs "started_with i ep"]
      by (auto intro!: strand.begun_episode [of _ ep] simp: tested_def)
  next
    case False
    with begun_episode have l: "length rs = 8" and s: "copied rs 7 = Some (started_with i ep)" by simp_all
    let ?r = "engine_request.Request i (AdmitDispatch ep (UniqueValue 1) (UniqueValue 1))"
    have a: "a = Mutate ?r"
      using body_call [OF _ assms(2)] l begun_episode(4) by (simp add: body_calls_def Let_def)
    obtain u where u: "admitDispatch ep (UniqueValue 1) (UniqueValue 1) (started_with i ep) = (Outcome.ALLOW, u)"
      "running_with ep (wl_generation (started_with i ep)) 3 u"
      using admit_started by blast
    with performed [where r = ?r and e = e and w = "started_with i ep" and save = save] begun_episode(1)
    have "engine_get i (snd (perform save a e)) = Some u" "accepted (fst (perform save a e))"
      by (simp_all add: a offered_def)
    with l s u(2) begun_episode(3,4) show ?thesis
      by (auto intro!: strand.working [of _ ep "started_with i ep"])
  qed
next
  case (working ep s w)
  show ?thesis
  proof (cases "length rs = 9")
    case True
    let ?r = "engine_request.Request i (ReportProgress ep (fromU64 1) 3 True)"
    have a: "a = Mutate ?r"
      using body_call [OF _ assms(2)] True working(4) by (simp add: body_calls_def Let_def)
    obtain u where u: "reportProgress ep (fromU64 1) 3 True w = (Outcome.ALLOW, u)" "running_with ep (wl_generation s) 0 u"
      using report_running [of ep "wl_generation s" w] working(7) True by auto
    with performed [where r = ?r and e = e and w = w and save = save] working(1)
    have "engine_get i (snd (perform save a e)) = Some u" "accepted (fst (perform save a e))"
      by (simp_all add: a offered_def)
    with True u(2) working(3,4,6) show ?thesis
      by (auto intro!: strand.working [of _ ep s])
  next
    case False
    with working have l: "length rs = 10" by simp
    let ?r = "engine_request.Request i (MarkEpisodeCompleted ep)"
    have a: "a = Mutate ?r"
      using body_call [OF _ assms(2)] l working(4) by (simp add: body_calls_def Let_def)
    obtain u where u: "markEpisodeCompleted ep w = (Outcome.ALLOW, u)" "finished_with (wl_generation s) u"
      using mark_running [of ep "wl_generation s" w] working(7) l by auto
    with performed [where r = ?r and e = e and w = w and save = save] working(1)
    have "engine_get i (snd (perform save a e)) = Some u" "accepted (fst (perform save a e))"
      by (simp_all add: a offered_def)
    with l u(2) working(3,6) show ?thesis
      by (auto intro!: strand.finished [of _ s])
  qed
next
  case (finished s w)
  let ?r = "engine_request.Request i (CommitCompletion (wl_generation s))"
  have a: "a = Mutate ?r"
    using body_call [OF _ assms(2)] finished(2,5) by (simp add: body_calls_def Let_def)
  obtain u where u: "commitCompletion (wl_generation s) w = (Outcome.ALLOW, u)" "wl_state u = WorkloadState.COMPLETED"
    "pg_completed (wl_progress u) = 3"
    using commit_finished finished(6) by blast
  with performed [where r = ?r and e = e and w = w and save = save] finished(1)
  have "engine_get i (snd (perform save a e)) = Some u" "accepted (fst (perform save a e))"
    by (simp_all add: a offered_def)
  with u finished(2,3) show ?thesis
    by (auto intro!: strand.committed)
next
  case (committed w)
  with next_call(1) [OF assms(2)] show ?thesis by simp
qed

lemma strand_facts:
  assumes "strand i rs wo"
  shows "failures rs = 0" and "length rs \<le> 12"
  using assms by (cases; auto simp: failures_early)+

lemma strand_continues:
  assumes "strand i rs wo" and "length rs \<noteq> 12"
  shows "cross_workload i rs \<noteq> None"
  using assms(1)
proof cases
  case unborn
  then show ?thesis by (simp add: cross_workload_def ready_calls_def tested_def)
next
  case readying
  then consider "length rs = 1" | "length rs = 2" | "length rs = 3" | "length rs = 4" | "length rs = 5" | "length rs = 6"
    by fastforce
  then show ?thesis
    using readying(3) by cases (simp_all add: cross_workload_def ready_calls_def body_calls_def tested_def Let_def)
next
  case (begun_episode ep)
  then show ?thesis
    by (auto simp: cross_workload_def ready_calls_def body_calls_def tested_def Let_def)
next
  case (working ep s w)
  then show ?thesis
    by (auto simp: cross_workload_def ready_calls_def body_calls_def tested_def Let_def)
next
  case (finished s w)
  then show ?thesis
    by (auto simp: cross_workload_def ready_calls_def body_calls_def tested_def Let_def)
next
  case (committed w)
  with assms(2) show ?thesis by simp
qed

section \<open>All of them together\<close>

text \<open>A client calls methods of the engine, about its own workload.\<close>

lemma own_calls:
  assumes "cross_workload i rs = Some a"
  shows "callable a \<and> (\<forall>r. a = Mutate r \<longrightarrow> target r = i)"
proof -
  have "\<forall>x\<in>set (ready_calls i rs @ body_calls i rs). \<forall>b. x = Some b \<longrightarrow> callable b \<and> (\<forall>r. b = Mutate r \<longrightarrow> target r = i)"
    by (auto simp: ready_calls_def body_calls_def Let_def callable_def offered_def)
  moreover have "Some a \<in> set (ready_calls i rs @ body_calls i rs)"
    using next_call [OF assms] nth_mem [of "length rs" "ready_calls i rs @ body_calls i rs"]
    by (simp add: ready_calls_def body_calls_def Let_def)
  ultimately show ?thesis by blast
qed

lemma other_workloads:
  assumes "cross_workload i rs = Some a" and "j \<noteq> i"
  shows "engine_get j (snd (perform save a e)) = engine_get j e"
  using own_calls [OF assms(1)] assms(2) by (cases a) (simp_all add: serve_other)

lemma strands:
  assumes "follows (cross_clients n ids) cs" and "serial_answers save cs e" and "inj_on ids {..<n}"
    and "\<forall>t<n. engine_get (ids t) e = None" and "t < n"
  shows "strand (ids t) (answers_of t cs) (engine_get (ids t) (serial save cs e))"
  using assms(1,2)
proof (induction cs rule: rev_induct)
  case Nil
  then show ?case using assms(4,5) by (simp add: strand.unborn)
next
  case (snoc c cs)
  obtain u a r where c: "c = (u, a, r)" by (cases c)
  with snoc.prems have u: "u < n" "cross_workload (ids u) (answers_of u cs) = Some a"
    and r: "r = fst (perform save a (serial save cs e))"
    by (auto simp: cross_clients_def split: if_splits)
  have "strand (ids t) (answers_of t cs) (engine_get (ids t) (serial save cs e))"
    using snoc c by simp
  moreover have "ids t \<noteq> ids u" if "t \<noteq> u"
    using assms(3,5) u(1) that by (auto simp: inj_on_def)
  ultimately show ?case
    using u(2) by (auto simp: c r strand_step other_workloads)
qed

lemma no_client:
  assumes "reachable save client (new_system e) s" and "\<And>rs. client t rs = None"
  shows "th_control (sy_threads s t) = Outside"
proof -
  note c = reachable_consistent [OF assms(1), unfolded consistent_def]
  show ?thesis
  proof (cases "th_control (sy_threads s t)")
    case (Waiting a)
    with c have "client t (answers_of t (sy_log s)) = Some a" by blast
    with assms(2) show ?thesis by simp
  next
    case (Inside a p)
    with c have "client t (answers_of t (sy_log s)) = Some a" by blast
    with assms(2) show ?thesis by simp
  qed
qed

text \<open>How far the run is from its end: seven for each call not yet made, less what is done of the current one.\<close>

primrec control_rank :: "control \<Rightarrow> nat" where
  "control_rank Outside = 0"
| "control_rank (Waiting a) = 1"
| "control_rank (Inside a p) = 5 - steps_left p"

definition thread_left :: "thread \<Rightarrow> nat" where
  "thread_left x = 7 * (12 - length (th_answers x)) - control_rank (th_control x)"

definition remaining :: "nat \<Rightarrow> 's system \<Rightarrow> nat" where
  "remaining n s = (\<Sum>t<n. thread_left (sy_threads s t))"

lemma thread_left_decreases:
  assumes "thread_step save client t s = Some s'"
    and "\<And>a. client t (th_answers (sy_threads s t)) = Some a \<Longrightarrow> length (th_answers (sy_threads s t)) < 12"
    and "th_control (sy_threads s t) \<noteq> Outside \<Longrightarrow> length (th_answers (sy_threads s t)) < 12"
  shows "thread_left (sy_threads s' t) < thread_left (sy_threads s t) \<and> (\<forall>u. u \<noteq> t \<longrightarrow> sy_threads s' u = sy_threads s u)"
  using assms(1)
proof (cases rule: thread_step_cases)
  case (call a)
  with assms(2) show ?thesis by (simp add: thread_left_def set_thread_def)
next
  case (acquire a)
  with assms(3) show ?thesis by (simp add: thread_left_def set_thread_def)
next
  case (body a p)
  have "steps_left p \<le> 3" by (cases p) simp_all
  with body assms(3) run_phase_decreases [OF body(2), of save "sy_engine s"] show ?thesis
    by (simp add: thread_left_def set_thread_def)
next
  case (return a r)
  with assms(3) show ?thesis by (simp add: thread_left_def set_thread_def)
qed

lemma cross_decreases:
  assumes "reachable save (cross_clients n ids) (new_system e) s"
    and "thread_step save (cross_clients n ids) t s = Some s'"
  shows "remaining n s' < remaining n s"
proof -
  note c = reachable_consistent [OF assms(1)]
  have "t < n"
  proof (rule ccontr)
    assume "\<not> t < n"
    then have "\<And>rs. cross_clients n ids t rs = None" by (simp add: cross_clients_def)
    with no_client [OF assms(1) this] assms(2) show False by (simp add: thread_step_def Let_def)
  qed
  have short: "length (th_answers (sy_threads s t)) < 12" if "cross_clients n ids t (th_answers (sy_threads s t)) = Some a" for a
    using that \<open>t < n\<close> next_call(1) by (auto simp: cross_clients_def)
  have "length (th_answers (sy_threads s t)) < 12" if "th_control (sy_threads s t) \<noteq> Outside"
  proof -
    have "\<exists>a. cross_clients n ids t (th_answers (sy_threads s t)) = Some a"
      using that c unfolding consistent_def by (metis control.exhaust)
    with short show ?thesis by blast
  qed
  from thread_left_decreases [OF assms(2)] short this
  have "thread_left (sy_threads s' t) < thread_left (sy_threads s t)" "\<forall>u. u \<noteq> t \<longrightarrow> sy_threads s' u = sy_threads s u"
    by blast+
  with \<open>t < n\<close> show ?thesis
    unfolding remaining_def by (intro sum_strict_mono_ex1) (auto intro: less_imp_le)
qed

lemma cross_ends:
  "\<exists>s. reachable save (cross_clients n ids) (new_system e) s \<and> (\<forall>t. thread_step save (cross_clients n ids) t s = None)"
proof -
  obtain s where s: "reachable save (cross_clients n ids) (new_system e) s"
    "\<And>s'. reachable save (cross_clients n ids) (new_system e) s' \<Longrightarrow> remaining n s \<le> remaining n s'"
    using ex_has_least_nat [of "reachable save (cross_clients n ids) (new_system e)" "new_system e" "remaining n"]
      reachable.here by blast
  have "thread_step save (cross_clients n ids) t s = None" for t
  proof (rule ccontr)
    assume "thread_step save (cross_clients n ids) t s \<noteq> None"
    then obtain s' where s': "thread_step save (cross_clients n ids) t s = Some s'" by blast
    with s cross_decreases [OF s(1) s'] reachable.later [OF s(1) s'] show False by (meson leD)
  qed
  with s(1) show ?thesis by blast
qed

text \<open>
  C15. \<open>raceCrossWorkload\<close>, for any number of workloads with different identities on a new engine,
  with any store, and under every schedule. No tested call ever fails; every step of a thread
  brings the run closer to its end, which is at most 84 steps for each workload away; and when no thread
  can go on, all have made their twelve calls, and every workload is COMPLETED with exactly the
  three units of its own client.
\<close>

theorem cross_workload_completes:
  assumes "reachable save (cross_clients n ids) (new_system (new_engine store)) s" and "inj_on ids {..<n}"
  shows "(\<forall>t<n. failures (th_answers (sy_threads s t)) = 0) \<and> remaining n s \<le> 84 * n \<and>
    (\<forall>t s'. thread_step save (cross_clients n ids) t s = Some s' \<longrightarrow> remaining n s' < remaining n s) \<and>
    ((\<forall>t. thread_step save (cross_clients n ids) t s = None) \<longrightarrow>
       (\<forall>t<n. length (th_answers (sy_threads s t)) = 12 \<and>
          wl_state (snapshot (ids t) (sy_engine s)) = WorkloadState.COMPLETED \<and>
          pg_completed (wl_progress (snapshot (ids t) (sy_engine s))) = 3))"
proof -
  have c: "consistent save (cross_clients n ids) (new_engine store) s"
    using assms(1) by (rule reachable_consistent)
  then have f: "follows (cross_clients n ids) (sy_log s)" and a: "serial_answers save (sy_log s) (new_engine store)"
    and th: "th_answers (sy_threads s t) = answers_of t (sy_log s)" for t
    by (simp_all add: consistent_def)
  have new: "engine_get i (new_engine store) = None" for i
    by (simp add: engine_get_def new_engine_def Mapping.lookup_empty)
  have strand: "strand (ids t) (answers_of t (sy_log s)) (engine_get (ids t) (serial save (sy_log s) (new_engine store)))" if "t < n" for t
    using strands [OF f a assms(2)] that new by blast
  have "remaining n s \<le> of_nat (card {..<n}) * 84"
    unfolding remaining_def by (rule sum_bounded_above) (simp add: thread_left_def)
  then have "remaining n s \<le> 84 * n" by simp
  moreover have "length (th_answers (sy_threads s t)) = 12 \<and>
      wl_state (snapshot (ids t) (sy_engine s)) = WorkloadState.COMPLETED \<and>
      pg_completed (wl_progress (snapshot (ids t) (sy_engine s))) = 3"
    if stuck: "\<forall>t. thread_step save (cross_clients n ids) t s = None" and t: "t < n" for t
  proof -
    have callable: "\<forall>t x a. cross_clients n ids t x = Some a \<longrightarrow> callable a"
      using own_calls by (auto simp: cross_clients_def)
    have free: "sy_owner s = None" using stuck_free [OF c stuck] .
    with free_finished [OF callable this] stuck t have "cross_workload (ids t) (answers_of t (sy_log s)) = None"
      by (metis cross_clients_def th)
    then have len: "length (answers_of t (sy_log s)) = 12" using strand [OF t] strand_continues by blast
    have "sy_engine s = serial save (sy_log s) (new_engine store)"
      using c free by (simp add: consistent_def)
    with strand [OF t] len show ?thesis by cases (simp_all add: th snapshot_def)
  qed
  moreover have "failures (th_answers (sy_threads s t)) = 0" if "t < n" for t
    using strand_facts(1) [OF strand [OF that]] by (simp only: th)
  ultimately show ?thesis using cross_decreases [OF assms(1)] by blast
qed

text \<open>The eight workloads of the test.\<close>

theorem cross_workload_completes_witness:
  "\<exists>s. reachable mem_save (cross_clients 8 (\<lambda>t. UniqueValue (200 + of_nat t))) (new_system (new_engine None)) s \<and>
     wl_state (snapshot (UniqueValue 200) (sy_engine s)) = WorkloadState.COMPLETED \<and>
     wl_state (snapshot (UniqueValue 207) (sy_engine s)) = WorkloadState.COMPLETED \<and>
     pg_completed (wl_progress (snapshot (UniqueValue 207) (sy_engine s))) = 3"
proof -
  let ?ids = "\<lambda>t. UniqueValue (200 + of_nat t) :: WorkloadId"
  have "inj_on (of_nat :: nat \<Rightarrow> u64) {..<8}"
    by (rule inj_onI) (simp add: word_of_nat_eq_iff take_bit_nat_eq_self)
  then have inj: "inj_on ?ids {..<8}" by (simp add: inj_on_def)
  obtain s where s: "reachable mem_save (cross_clients 8 ?ids) (new_system (new_engine None)) s"
    "\<forall>t. thread_step mem_save (cross_clients 8 ?ids) t s = None"
    using cross_ends [of mem_save 8 ?ids "new_engine None"] by blast
  have "(0 :: nat) < 8" "(7 :: nat) < 8" by simp_all
  with cross_workload_completes [OF s(1) inj] s(2)
  have "wl_state (snapshot (?ids 0) (sy_engine s)) = WorkloadState.COMPLETED"
    "wl_state (snapshot (?ids 7) (sy_engine s)) = WorkloadState.COMPLETED"
    "pg_completed (wl_progress (snapshot (?ids 7) (sy_engine s))) = 3"
    by blast+
  with s(1) show ?thesis by (intro exI [of _ s]) simp
qed

section \<open>Progress reports that race with restarts\<close>

text \<open>
  \<open>raceProgressRestart\<close>: one thread reports progress for whatever episode a snapshot shows, the other
  one loses the worker and restarts. A thread makes \<open>n\<close> rounds; for the reporting one this is the
  number of rounds before it sees the flag \<open>stop\<close>.
\<close>

fun progress_thread :: "WorkloadId \<Rightarrow> nat \<Rightarrow> observation list \<Rightarrow> action option" where
  "progress_thread i 0 rs = None"
| "progress_thread i (Suc n) [] = Some (AskSnapshot i)"
| "progress_thread i (Suc n) (x # rs) =
     (case x of
        Copied w \<Rightarrow>
          if wl_state w \<noteq> WorkloadState.RUNNING then progress_thread i n rs
          else (case rs of
            [] \<Rightarrow> Some (Mutate (engine_request.Request i (ReportProgress (currentEpisodeId w) (fromU64 1) 1 True)))
          | r # rs' \<Rightarrow> progress_thread i n rs')
      | _ \<Rightarrow> None)"

fun restart_thread :: "WorkloadId \<Rightarrow> nat \<Rightarrow> observation list \<Rightarrow> action option" where
  "restart_thread i 0 rs = None"
| "restart_thread i (Suc n) [] = Some (AskSnapshot i)"
| "restart_thread i (Suc n) (x # rs) =
     (case x of
        Copied w \<Rightarrow>
          if wl_state w \<noteq> WorkloadState.RUNNING then restart_thread i n rs
          else (case rs of
            [] \<Rightarrow> Some (Mutate (engine_request.Request i (OnWorkerLost (UniqueValue 1) (UniqueValue 1) (wl_generation w))))
          | lost # rs \<Rightarrow>
              if \<not> accepted lost then restart_thread i n rs
              else (case rs of
                [] \<Rightarrow> Some (Mutate (engine_request.Request i (PlanRestart (wl_generation w) ''WORKER_LOSS'')))
              | [plan] \<Rightarrow> Some (Mutate (Start i (UniqueValue 1) (fromU64 1)))
              | plan # st # rs \<Rightarrow>
                  if \<not> accepted st then restart_thread i n rs
                  else (case rs of
                    [] \<Rightarrow> map_option (\<lambda>ep. Mutate (engine_request.Request i (AdmitDispatch ep (UniqueValue 1) (UniqueValue 1))))
                           (given_episode [st] 0)
                  | r # rs' \<Rightarrow> restart_thread i n rs')))
      | _ \<Rightarrow> None)"

definition progress_restart :: "WorkloadId \<Rightarrow> nat \<Rightarrow> nat \<Rightarrow> clients" where
  "progress_restart i n m t =
     (if t = 0 then progress_thread i n else if t = 1 then restart_thread i m else (\<lambda>rs. None))"

text \<open>The units of the reports on a workload that were accepted, and what the engine has for it.\<close>

definition counted :: "WorkloadId \<Rightarrow> (nat \<times> action \<times> observation) list \<Rightarrow> nat" where
  "counted i cs = sum_list (map (\<lambda>(t, a, r). case a of
     Mutate (engine_request.Request j (ReportProgress ep eg d dur)) \<Rightarrow> if j = i \<and> accepted r then unat d else 0
   | _ \<Rightarrow> 0) cs)"

definition units :: "WorkloadId \<Rightarrow> 's engine \<Rightarrow> nat" where
  "units i e = (case engine_get i e of None \<Rightarrow> 0 | Some w \<Rightarrow> unat (pg_completed (wl_progress w)))"

definition restarts_within :: "WorkloadId \<Rightarrow> 's engine \<Rightarrow> bool" where
  "restarts_within i e \<longleftrightarrow>
     (case engine_get i e of None \<Rightarrow> True | Some w \<Rightarrow> wl_restartCount w \<le> rp_maxRestarts (po_restart (wl_policy w)))"

lemma counted_append [simp]:
  "counted i [] = 0"
  "counted i (cs @ [(t, a, r)]) = counted i cs + (case a of
     Mutate (engine_request.Request j (ReportProgress ep eg d dur)) \<Rightarrow> if j = i \<and> accepted r then unat d else 0
   | _ \<Rightarrow> 0)"
  by (simp_all add: counted_def)

text \<open>One call on the workload.\<close>

lemma step_units:
  "unat (pg_completed (wl_progress (snd (workload_step r n w)))) = unat (pg_completed (wl_progress w)) +
     (case r of engine_request.Request j (ReportProgress ep eg d dur) \<Rightarrow>
        if fst (workload_step r n w) = Outcome.ALLOW then unat d else 0
      | _ \<Rightarrow> 0)"
proof (cases r)
  case (Request j c)
  then show ?thesis
    using call_units [of c w] by (cases c) (auto simp: offered_def simp del: call.simps)
qed (use call_units in \<open>auto simp del: call.simps\<close>)

lemma step_restarts:
  assumes "wl_restartCount w \<le> rp_maxRestarts (po_restart (wl_policy w))" and "\<forall>p. r \<noteq> SetPolicy (target r) p"
  shows "wl_restartCount (snd (workload_step r n w)) \<le> rp_maxRestarts (po_restart (wl_policy (snd (workload_step r n w))))"
  using assms by (cases r) (auto intro: call.restart_limit simp del: call.simps)

lemma perform_counts:
  "units i (snd (perform save a e)) = units i e + counted i [(t, a, fst (perform save a e))]"
proof (cases a)
  case (Mutate r)
  show ?thesis
  proof (cases "target r = i")
    case False
    then show ?thesis
      by (cases r) (auto simp: Mutate units_def counted_def serve_other split: workload_call.split
          simp del: serve.simps)
  next
    case i: True
    show ?thesis
    proof (cases "engine_get i e")
      case None
      have unknown: "engine_get i (snd (serve save r e)) = None" "\<not> accepted (Answered (fst (serve save r e)))" if "\<not> is_create r"
        using serve_unknown [of r e save] that i None by (simp_all add: accepted_def)
      show ?thesis
      proof (cases "is_create r")
        case True
        then obtain name intent p where r: "r = Create i name intent p"
          using i by (auto elim: is_createE)
        have "pg_completed (wl_progress ((create i name intent)\<lparr>wl_policy := p\<rparr>)) = 0"
          by (simp add: create_def default_workload_def default_progress_def)
        with None serve_create(1) [where i = i and j = i and e = e and save = save] show ?thesis
          by (simp add: Mutate r units_def counted_def del: serve.simps)
      next
        case False
        with None unknown show ?thesis
          by (cases r) (auto simp: Mutate units_def counted_def split: workload_call.split simp del: serve.simps)
      qed
    next
      case (Some w)
      with i have w: "engine_get (target r) e = Some w" by simp
      have "units i (snd (serve save r e)) = unat (pg_completed (wl_progress (snd (workload_step r (en_episodeCounter e) w))))"
        using serve_found(2) [OF w, of i save] i by (simp add: units_def)
      moreover have "accepted (Answered (fst (serve save r e))) \<longleftrightarrow>
          fst (workload_step r (en_episodeCounter e) w) = Outcome.ALLOW"
        using performed(2) [OF w, of save] by simp
      ultimately show ?thesis
        using Some i by (cases r)
          (auto simp: Mutate units_def counted_def step_units split: workload_call.split simp del: serve.simps workload_step.simps)
    qed
  qed
qed (simp_all add: counted_def)

lemma perform_restarts:
  assumes "restarts_within i e" and "\<forall>p. a \<noteq> Mutate (SetPolicy i p)"
  shows "restarts_within i (snd (perform save a e))"
proof (cases a)
  case (Mutate r)
  show ?thesis
  proof (cases "target r = i")
    case False
    with assms(1) show ?thesis by (simp add: Mutate restarts_within_def serve_other del: serve.simps)
  next
    case i: True
    show ?thesis
    proof (cases "engine_get i e")
      case None
      show ?thesis
      proof (cases "is_create r")
        case True
        then obtain name intent p where r: "r = Create i name intent p"
          using i by (auto elim: is_createE)
        with None serve_create(1) [where i = i and j = i and e = e and save = save] show ?thesis
          by (simp add: Mutate restarts_within_def create_def default_workload_def del: serve.simps)
      next
        case False
        with assms(1) i None serve_unknown(1) [of r e save] show ?thesis by (simp add: Mutate)
      qed
    next
      case (Some w)
      with i have w: "engine_get (target r) e = Some w" by simp
      show ?thesis
        using serve_found(2) [OF w, of i save] step_restarts [of w r "en_episodeCounter e"] assms i Some
        by (auto simp: Mutate restarts_within_def)
    qed
  qed
qed (use assms in simp_all)

text \<open>
  For all clients and schedules, a workload's units are those it had and those of the accepted
  reports, each counted once; while nobody changes the policy, restarts stay within its limit.
\<close>

lemma serial_counts:
  assumes "serial_answers save cs e"
  shows "units i (serial save cs e) = units i e + counted i cs"
    and "restarts_within i e \<Longrightarrow> \<forall>p. Mutate (SetPolicy i p) \<notin> (\<lambda>(t, a, r). a) ` set cs \<Longrightarrow>
      restarts_within i (serial save cs e)"
proof -
  show "units i (serial save cs e) = units i e + counted i cs"
    using assms
  proof (induction cs rule: rev_induct)
    case (snoc c cs)
    obtain t a r where "c = (t, a, r)" by (cases c)
    with snoc perform_counts [of i save a "serial save cs e" t] show ?case
      by (simp add: counted_def)
  qed simp
  show "restarts_within i (serial save cs e)" if "restarts_within i e"
    "\<forall>p. Mutate (SetPolicy i p) \<notin> (\<lambda>(t, a, r). a) ` set cs"
    using that
  proof (induction cs rule: rev_induct)
    case (snoc c cs)
    obtain t a r where "c = (t, a, r)" by (cases c)
    with snoc show ?case by (auto intro!: perform_restarts)
  qed simp
qed

theorem concurrent_progress_exact:
  assumes "reachable save client (new_system e) s" and "sy_owner s = None"
  shows "units i (sy_engine s) = units i e + counted i (sy_log s)"
    and "restarts_within i e \<Longrightarrow> \<forall>p. Mutate (SetPolicy i p) \<notin> (\<lambda>(t, a, r). a) ` set (sy_log s) \<Longrightarrow>
      restarts_within i (sy_engine s)"
  using reachable_consistent [OF assms(1)] assms(2) serial_counts [of save "sy_log s" e i]
  by (simp_all add: consistent_def)

text \<open>The calls of the two threads.\<close>

lemma progress_thread_calls:
  "progress_thread i n rs = Some a \<Longrightarrow>
   a = AskSnapshot i \<or> (\<exists>ep. a = Mutate (engine_request.Request i (ReportProgress ep (fromU64 1) 1 True)))"
  by (induction i n rs rule: progress_thread.induct) (auto split: observation.splits if_splits list.splits)

lemma restart_thread_calls:
  "restart_thread i n rs = Some a \<Longrightarrow>
   (\<forall>ep eg d dur. a \<noteq> Mutate (engine_request.Request i (ReportProgress ep eg d dur))) \<and> (\<forall>p. a \<noteq> Mutate (SetPolicy i p))"
  by (induction i n rs rule: restart_thread.induct) (auto split: observation.splits if_splits list.splits)

lemma race_counted:
  assumes "follows (progress_restart i n m) cs" and "serial_answers save cs e"
  shows "counted i cs = length (filter accepted (answers_of 0 cs))"
    and "Mutate (SetPolicy i p) \<notin> (\<lambda>(t, a, r). a) ` set cs"
proof -
  have "counted i cs = length (filter accepted (answers_of 0 cs)) \<and> Mutate (SetPolicy i p) \<notin> (\<lambda>(t, a, r). a) ` set cs"
    using assms
  proof (induction cs rule: rev_induct)
    case (snoc c cs)
    obtain t a r where c: "c = (t, a, r)" by (cases c)
    with snoc.prems have call: "progress_restart i n m t (answers_of t cs) = Some a"
      and r: "r = fst (perform save a (serial save cs e))" by simp_all
    show ?case
    proof (cases "t = 0")
      case True
      with call progress_thread_calls [of i n "answers_of 0 cs" a] snoc c r show ?thesis
        by (auto simp: progress_restart_def accepted_def)
    next
      case False
      with call have "restart_thread i m (answers_of t cs) = Some a"
        by (auto simp: progress_restart_def split: if_splits)
      from restart_thread_calls [OF this] False snoc c show ?thesis
        by (auto split: action.split engine_request.split workload_call.split)
    qed
  qed simp
  then show "counted i cs = length (filter accepted (answers_of 0 cs))"
    and "Mutate (SetPolicy i p) \<notin> (\<lambda>(t, a, r). a) ` set cs" by simp_all
qed

text \<open>
  C37. \<open>raceProgressRestart\<close>, for any numbers of rounds and under every schedule: whenever the mutex is
  free, the completed units of the workload are those it had and one for each report that was
  accepted, so accounted and reported progress agree exactly; and restarts stay within the limit of the policy.
\<close>

theorem race_progress_restart:
  assumes "reachable save (progress_restart i n m) (new_system e) s" and "sy_owner s = None"
    and "restarts_within i e"
  shows "units i (sy_engine s) = units i e + length (filter accepted (th_answers (sy_threads s 0))) \<and>
    restarts_within i (sy_engine s)"
proof -
  have "follows (progress_restart i n m) (sy_log s)" "serial_answers save (sy_log s) e"
    "th_answers (sy_threads s 0) = answers_of 0 (sy_log s)"
    using reachable_consistent [OF assms(1)] by (simp_all add: consistent_def)
  with concurrent_progress_exact [OF assms(1,2)] race_counted [of i n m "sy_log s" save e] assms(3)
  show ?thesis by auto
qed

text \<open>A running workload, two rounds of reports, one of restarts.\<close>

definition restart_race_run :: "nat list \<Rightarrow> memory system" where
  "restart_race_run ts = run_schedule mem_save (progress_restart (UniqueValue 7) 2 1) ts
     (new_system (put_workload (UniqueValue 7) sample_running (new_engine None)))"

theorem race_progress_restart_witness:
  "let s = restart_race_run (replicate 10 0 @ replicate 28 1 @ replicate 10 0)
   in units (UniqueValue 7) (sy_engine s) = 8 + length (filter accepted (th_answers (sy_threads s 0))) \<and>
      restarts_within (UniqueValue 7) (sy_engine s)"
proof -
  let ?s = "restart_race_run (replicate 10 0 @ replicate 28 1 @ replicate 10 0)"
  let ?e = "put_workload (UniqueValue 7) sample_running (new_engine None) :: memory engine"
  have r: "reachable mem_save (progress_restart (UniqueValue 7) 2 1) (new_system ?e) ?s"
    unfolding restart_race_run_def by (rule run_schedule_reachable)
  moreover have "sy_owner ?s = None" by code_simp
  moreover have "restarts_within (UniqueValue 7) ?e" by code_simp
  moreover have "pg_completed (wl_progress sample_running) = 8" by code_simp
  then have "units (UniqueValue 7) ?e = 8" by (simp add: units_def)
  ultimately show ?thesis
    using race_progress_restart [OF r] by (simp add: Let_def)
qed

end
