(* ===== verification/Spec2Isabelle.thy ===== *)
theory Spec2Isabelle
  imports Resources Dependencies Priorities Progress Policies Lifecycle Workload_Safety Workload_Operations
    Explain Explanations Hooks Stores Engine Concurrency Protocol Transport Worker Adapters Decoded
    Coordination Recovery Sessions Sockets Expected Tools Examples Scenarios Conformance Streams Races
begin

text \<open>
  Workload Fabric: a durable workload aggregate with a fenced lifecycle, an engine that serves
  requests on such workloads and persists them, and workers that execute them behind a framed wire
  protocol. This is the root of a verification library for its C++ sources; paths are below \<open>src/\<close>,
  headers below \<open>include/workload_fabric/\<close>.

  \<^bold>\<open>The program and its model.\<close> One theory models one part:

    \<^item> \<open>Prelude\<close>: names for the machine integers (words of their width), doubles as their bit
      patterns with the comparisons the code makes, and the locale \<open>named_enum\<close> for enumerations with
      codes and name tables; every enumeration of the code is an interpretation.
    \<^item> \<open>Identity\<close> (\<open>identity.hpp\<close>, \<open>detail/strong_id.hpp\<close>), \<open>Outcomes\<close> (\<open>outcome.*\<close>), \<open>Lifecycle\<close>
      (\<open>state.*\<close>: the states and the transition table), \<open>Resources\<close> (\<open>resource.hpp\<close>,
      \<open>src/resources.cpp\<close>), \<open>Dependencies\<close>, \<open>Priorities\<close>, \<open>Progress\<close>, \<open>Policies\<close>, \<open>Execution\<close>: the values
      an aggregate consists of, with their operations.
    \<^item> \<open>Workloads\<close> (\<open>workload.hpp\<close>, \<open>src/workload.cpp\<close>): the aggregate, a record with the members of the
      class, and every lifecycle operation, from \<open>guardedTransition\<close> to \<open>commitMigration\<close>. An operation
      returns its outcome and the workload as the code leaves it, also when it rejects.
      \<open>Explain\<close> has the explanation queries, \<open>Explanations\<close> what each operation writes to its optional
      explanation argument, \<open>Hooks\<close> the direct setters used for decoding and tests.
    \<^item> \<open>Workload_Steps\<close>, \<open>Workload_Safety\<close>, \<open>Workload_Operations\<close>: what holds of the aggregate.
    \<^item> \<open>Binary\<close> (\<open>detail/binary.hpp\<close>), \<open>Codec\<close>, \<open>Persistence\<close>, \<open>Decoded\<close>, \<open>Stores\<close> (\<open>persistence.hpp\<close>,
      \<open>src/persistence.cpp\<close>): reader and writer, the record field by field, its frame with checksum,
      what decoding guarantees, and the two stores.
    \<^item> \<open>Engine\<close> (\<open>coordinator.hpp\<close>, \<open>src/coordinator.cpp\<close>): the map of workloads, its store and its
      episode counter, one definition per method. \<open>Concurrency\<close>: threads that call these methods; the
      mutex, and the steps of a method body under any scheduling (\<open>tests/concurrency.cpp\<close>).
    \<^item> \<open>Protocol\<close> (\<open>protocol.*\<close>), \<open>Transport\<close> and \<open>Sockets\<close> (\<open>src/transport_win.cpp\<close>), \<open>Text\<close> (decimal
      numbers), \<open>Worker\<close> (\<open>src/worker.cpp\<close>): messages, frames over a byte stream, endpoints, and the
      worker process.
    \<^item> \<open>Adapters\<close> (\<open>reference.hpp\<close>, \<open>src/execution/reference.cpp\<close>): the reference implementations of the
      execution, broker and checkpoint interfaces.
    \<^item> \<open>Coordination\<close>: worker, network, coordinator loop (\<open>tests/mp_proof.cpp\<close>) and engine together;
      \<open>Recovery\<close>: workers that die in the middle of their work, and their replacement. \<open>Sessions\<close>: one
      worker process from its registration to its shutdown.
    \<^item> \<open>Expected\<close> (\<open>detail/expected.hpp\<close>), \<open>Tools\<close> (\<open>tools/\<close>), \<open>Examples\<close> (\<open>examples/\<close>), \<open>Gpu\<close> and \<open>Scenarios\<close>
      (\<open>cuda/workload_cuda_proof.cu\<close>): the programs around the library.
    \<^item> \<open>Conformance\<close> (\<open>tests/test_core.cpp\<close>, \<open>test_scenarios.cpp\<close>, \<open>test_adversarial.cpp\<close>, \<open>smoke.cpp\<close>),
      \<open>Streams\<close> (\<open>tests/property.cpp\<close>) and \<open>Races\<close> (\<open>tests/concurrency.cpp\<close>): the authors' tests as
      programs on the model, the concurrent ones as clients under every schedule.

  \<^bold>\<open>Interfaces.\<close> A locale states each contract, and the code's own definitions interpret it:
  \<open>lifecycle_operation\<close> and \<open>fenced_operation\<close> (every operation of the aggregate), \<open>explained_operation\<close>
  (an operation with its explanation), \<open>engine_invariant\<close> (a property every request keeps, and what
  follows for concurrent clients), \<open>codec\<close> (every field of the record), \<open>state_store\<close> (memory and file
  store), \<open>checkpoint_provider\<close>, \<open>resource_broker\<close>, \<open>execution_fabric\<close> (the reference adapters), \<open>socket_owner\<close> (connected, accepted, listening) and
  \<open>gpu_device\<close> (the CUDA state).

  \<^bold>\<open>What is shown.\<close>

    \<^item> Along every sequence of calls on a workload: terminal states are final (what calls may still
      change there is listed: rejected history entries, marks on episodes, components), at most one
      episode has authority, the history replays over the transition table, generations only grow and
      stale callers are rejected, progress is the exact sum of the accepted reports and stays within a
      known total, restarts stay within the limit, superseded episodes stay silent, and after a final
      cancellation no episode starts and no progress counts (\<open>Workload_Safety\<close>). The direct transitions of
      the public interface reach further than the operations, which two theorems show
      (\<open>transitions_complete_without_episode\<close>, \<open>migration_after_final_cancellation\<close>). For each operation:
      when it is allowed and what it leaves, on every branch (\<open>Workload_Operations\<close>).
    \<^item> Persistence: decoding inverts encoding up to the migration counter and, where the compiler
      reads constructor arguments from right to left, two exchanged pairs; records with any single byte
      changed and truncated records are rejected, accepted records are well formed, the stores return
      the last save. The hypotheses (\<open>workload_fits\<close>, \<open>storable\<close>) exclude what cannot be reloaded, such as
      negative amounts (\<open>bad_amount_not_reloadable\<close>).
    \<^item> The engine refines a map of workloads whose store follows the accepted requests; its episode
      identities are fresh and its workloads keep all invariants. Concurrent clients see a sequence of
      atomic requests that keeps the order of each thread, no thread waits forever for a method that
      runs, and a cancellation that races with a completion has the same result for every scheduling. Any number of
      clients with workloads of their own complete them within a bounded number of steps, and
      progress that races with restarts is counted exactly.
    \<^item> The explanation a call writes agrees with its outcome and the state it reached.
    \<^item> Messages and frames survive encoding and any segmentation; a dispatch sends exactly the
      remaining work; and end to end, dispatched work completes with exactly its units, however many
      workers are lost on the way within the restart limit. A worker that is registered, given any
      jobs and shut down ends with 0 and has reported exactly their units. Sockets are not leaked.
    \<^item> The kernel of the CUDA proof equals its host reference for every order of the threads, with no
      access outside the buffer, and the proof program stops at a failed checked call of the runtime or
      passes all its checks, up to those that compare the free memory the runtime reports. The four
      sequential test programs pass all their checks on the model (\<open>test_programs_pass\<close>), which so agrees with the
      authors' expectations; \<open>streams_stay_ready\<close> shows that the randomised one never runs a workload.
    \<^item> Where the code departs from its comments, a lemma shows how (for instance
      \<open>failed_save_destroys_record\<close>, \<open>recovery_bypasses_restart_policy\<close>, \<open>second_bind_leaks\<close>).

  \<^bold>\<open>Loops, bounds and failure.\<close> No definition needs fuel: loops over data are structural, and the
  others (\<open>writeAll\<close>, \<open>readExact\<close>, \<open>segments\<close>, \<open>steps\<close>) have a termination proof with a measure on the
  events left or the units left. The bodies of the engine's methods take at most three steps and a
  return (\<open>run_phase_decreases\<close>). The worker loop is a recursion on the frames that arrive; a worker
  that waits for one more is the value \<open>None\<close>. Integers are words and wrap as in C++; signed overflow
  (\<open>Priorities\<close>, \<open>atoi\<close>, \<open>Gpu\<close>) is \<open>None\<close>, as is an access outside a device buffer. Exceptions, error returns, rejection by the decoder and termination of
  the process are values.

  \<^bold>\<open>Environment.\<close> Code that is not in the repository is an argument: the events of \<open>send\<close> and \<open>recv\<close>
  (\<open>Transport\<close>), the answers of the socket library (\<open>net_env\<close>), how the calls of the file system end
  (\<open>file_env\<close>), the clock and process number of \<open>freshBootId\<close>, the segment runner, the runtime of the
  device (\<open>cuda_env\<close>), and the order in which a compiler evaluates two constructor arguments
  (\<open>arg_order\<close>). Each method of the engine and of the adapters holds a lock for its whole body. For
  the engine this is the model of \<open>Concurrency\<close>, which proves that a concurrent history is a sequence
  of requests, so that every other theory takes a method as one step. The free memory \<open>cudaMemGetInfo\<close>
  reports is any sequence of answers, a failure included, which the code reads as 0: nothing relates
  it to the blocks the program has allocated.

  \<^bold>\<open>Not modelled.\<close> Accesses to a store from outside the engine that owns it (the stores have no lock), the
  creation and the killing of worker processes, timestamps (the code writes 0), text printed by the
  CUDA program, the destructors' order, memory exhaustion, the arithmetic of doubles, the exponent range of single precision (its rounding to
  24 places is \<open>f32\<close>; the buffers of the CUDA proof hold multiples of a quarter that no addition
  rounds, \<open>buffers_exact\<close>), the benchmark, and \<open>raceContractVsDispatch\<close> of the concurrent tests. In \<open>Races\<close> the calls
  \<open>makeReady\<close> makes for a workload belong to that workload's client: the main thread makes them before it
  starts the client's thread, so every order of calls the program has is a schedule of the model.
\<close>

end
